(* ===== verification/Prelude.thy ===== *)
theory Prelude
  imports Main "HOL-Library.Word" "HOL-Library.Multiset" "HOL-Library.Signed_Division"
begin

text \<open>
  Vocabulary shared by every component: machine integers, Go pointers as options, the
  string operations of the Go standard library that the code uses, the iteration order of
  Go maps, and association lists as Go maps.

  A Go pointer or slice that may be nil is an \<open>option\<close>. A Go map is an association list
  with distinct keys: the order of the list carries no meaning, a \<open>range\<close> loop
  visits it in the order the runtime picks (\<open>arrange\<close> below).
\<close>

named_theorems go_defs \<open>definitions of the Go operations that proofs unfold\<close>

type_synonym int64 = "64 word"
type_synonym int32 = "32 word"

section \<open>Crashes and error values\<close>

text \<open>
  A Go panic is a value of \<open>crash\<close>. \<open>OutOfFuel\<close> stands for a loop that has not
  returned within the fuel it was given, \<open>IllTyped\<close> for an environment answer of the wrong
  shape (an answer no Go client library can give; it exists because answers share one type).
\<close>

datatype crash = NilDeref | TypeAssertion | IndexOutOfRange | OutOfFuel | IllTyped

text \<open>The \<open>error\<close> interface: an API status error, or \<open>fmt.Errorf\<close> with the wrapped cause, if any.\<close>

datatype api_reason = NotFound | AlreadyExists | Conflict | OtherReason string

datatype error = ApiError api_reason | Errorf string "error option"

text \<open>\<open>apierrors.IsNotFound\<close> and its kin look through \<open>%w\<close> wrappings.\<close>

fun error_reason :: "error \<Rightarrow> api_reason option" where
  "error_reason (ApiError r) = Some r"
| "error_reason (Errorf _ (Some e)) = error_reason e"
| "error_reason (Errorf _ None) = None"

abbreviation IsNotFound :: "error \<Rightarrow> bool" where
  "IsNotFound e \<equiv> error_reason e = Some NotFound"

abbreviation IsAlreadyExists :: "error \<Rightarrow> bool" where
  "IsAlreadyExists e \<equiv> error_reason e = Some AlreadyExists"

abbreviation IsConflict :: "error \<Rightarrow> bool" where
  "IsConflict e \<equiv> error_reason e = Some Conflict"

text \<open>A step that follows one that may panic.\<close>

definition go_bind :: "crash + 'a \<Rightarrow> ('a \<Rightarrow> crash + 'b) \<Rightarrow> crash + 'b" where
  "go_bind x f = (case x of Inl e \<Rightarrow> Inl e | Inr a \<Rightarrow> f a)"

lemma go_bind_simps [simp]: "go_bind (Inl e) f = Inl e" "go_bind (Inr a) f = f a"
  by (simp_all add: go_bind_def)

lemma go_bind_Inr: "go_bind x f = Inr b \<longleftrightarrow> (\<exists>a. x = Inr a \<and> f a = Inr b)"
  by (cases x) simp_all

text \<open>A loop over a slice that replaces each element, which may panic at one.\<close>

primrec go_map :: "('a \<Rightarrow> crash + 'b) \<Rightarrow> 'a list \<Rightarrow> crash + 'b list" where
  "go_map f [] = Inr []"
| "go_map f (x # xs) = go_bind (f x) (\<lambda>y. go_bind (go_map f xs) (\<lambda>ys. Inr (y # ys)))"

lemma go_map_Inr: "go_map f xs = Inr ys \<longleftrightarrow> list_all2 (\<lambda>x y. f x = Inr y) xs ys"
proof (induction xs arbitrary: ys)
  case (Cons x xs)
  show ?case by (cases ys) (auto simp: go_bind_Inr Cons.IH)
qed auto

section \<open>Filling nil fields\<close>

text \<open>
  \<open>if merged.F == nil && extends.F != nil { merged.F = extends.F }\<close>, the step both merge
  functions and the check defaults repeat for each field.
\<close>

definition fill :: "'a option \<Rightarrow> 'a option \<Rightarrow> 'a option" where
  "fill m e = (if m = None \<and> e \<noteq> None then e else m)"

lemma fill_None [simp]: "fill None e = e"
  by (cases e) (simp_all add: fill_def)

lemma fill_Some [simp]: "fill (Some x) e = Some x"
  by (simp add: fill_def)

lemma fill_nil [simp]: "fill m None = m"
  by (simp add: fill_def)

lemma fill_same [simp]: "fill m m = m"
  by (simp add: fill_def)

lemma fill_assoc: "fill (fill a b) c = fill a (fill b c)"
  by (cases a; cases b) simp_all

lemma fill_again [simp]: "fill (fill a b) b = fill a b"
  by (cases a; cases b) simp_all

lemma fill_eq_None [simp]: "fill a b = None \<longleftrightarrow> a = None \<and> b = None"
  by (cases a) simp_all

lemma fill_default_ex [simp]: "\<exists>y. fill a (Some b) = Some y"
  by (cases a) simp_all

lemma fill_ex_Some [simp]: "(\<exists>y. fill a b = Some y) \<longleftrightarrow> (\<exists>y. a = Some y) \<or> (\<exists>y. b = Some y)"
  by (cases a) simp_all

text \<open>A field is kept when a value that was set is still the same value.\<close>

definition kept :: "'a option \<Rightarrow> 'a option \<Rightarrow> bool" where
  "kept a b \<longleftrightarrow> a = None \<or> a = b"

lemma kept_refl [simp]: "kept a a"
  by (simp add: kept_def)

lemma kept_None [simp]: "kept None b"
  by (simp add: kept_def)

lemma kept_Some [simp]: "kept (Some x) b \<longleftrightarrow> b = Some x"
  by (auto simp: kept_def)

lemma kept_trans: "kept a b \<Longrightarrow> kept b c \<Longrightarrow> kept a c"
  by (auto simp: kept_def)

lemma kept_fill [simp]: "kept a (fill a b)"
  by (cases a) simp_all

text \<open>Two fields are compatible when they do not ask for different values.\<close>

definition compat :: "'a option \<Rightarrow> 'a option \<Rightarrow> bool" where
  "compat a b \<longleftrightarrow> a = None \<or> b = None \<or> a = b"

lemma compat_sym: "compat a b \<Longrightarrow> compat b a"
  by (auto simp: compat_def)

lemma compat_refl [simp]: "compat a a"
  by (simp add: compat_def)

lemma fill_commute: "compat b c \<Longrightarrow> fill (fill a b) c = fill (fill a c) b"
  by (cases a; cases b; cases c) (auto simp: compat_def)

section \<open>Strings\<close>

text \<open>
  Go strings are byte sequences; the names, labels, kinds and keys the program handles are
  ASCII, so one \<open>char\<close> is one byte and \<open>length\<close> is Go's \<open>len\<close>.
\<close>

definition lower_char :: "char \<Rightarrow> char" where
  "lower_char c = (let n = (of_char c :: nat) in if 65 \<le> n \<and> n \<le> 90 then char_of (n + 32) else c)"

definition ToLower :: "string \<Rightarrow> string" where
  "ToLower s = map lower_char s"

lemma length_ToLower [simp]: "length (ToLower s) = length s"
  by (simp add: ToLower_def)

lemma ToLower_append [simp]: "ToLower (s @ t) = ToLower s @ ToLower t"
  by (simp add: ToLower_def)

lemma ToLower_take: "ToLower (take n s) = take n (ToLower s)"
  by (simp add: ToLower_def take_map)

lemma lower_char_idem [simp]: "lower_char (lower_char c) = lower_char c"
proof (cases "65 \<le> (of_char c :: nat) \<and> (of_char c :: nat) \<le> 90")
  case True
  then have "of_char (char_of ((of_char c :: nat) + 32) :: char) = (of_char c :: nat) + 32"
    by (simp add: of_char_of)
  with True show ?thesis by (simp add: lower_char_def Let_def)
next
  case False
  then have "lower_char c = c" unfolding lower_char_def Let_def by argo
  then show ?thesis by simp
qed

lemma ToLower_idem [simp]: "ToLower (ToLower s) = ToLower s"
  by (simp add: ToLower_def)

text \<open>\<open>strings.Contains\<close>.\<close>

fun Contains :: "string \<Rightarrow> string \<Rightarrow> bool" where
  "Contains [] sub = (sub = [])"
| "Contains (c # s) sub = (take (length sub) (c # s) = sub \<or> Contains s sub)"

lemma Contains_iff: "Contains s sub \<longleftrightarrow> (\<exists>pre post. s = pre @ sub @ post)"
proof (induction s)
  case Nil
  show ?case by auto
next
  case (Cons c s)
  show ?case
  proof
    assume "Contains (c # s) sub"
    then consider "take (length sub) (c # s) = sub" | "Contains s sub" by auto
    then show "\<exists>pre post. c # s = pre @ sub @ post"
    proof cases
      case 1
      then have "c # s = [] @ sub @ drop (length sub) (c # s)"
        by (metis append_Nil append_take_drop_id)
      then show ?thesis by blast
    next
      case 2
      with Cons.IH show ?thesis by (metis append_Cons)
    qed
  next
    assume "\<exists>pre post. c # s = pre @ sub @ post"
    then obtain pre post where eq: "c # s = pre @ sub @ post" by blast
    show "Contains (c # s) sub"
    proof (cases pre)
      case Nil
      with eq have "take (length sub) (c # s) = sub" by simp
      then show ?thesis by simp
    next
      case (Cons p pre')
      with eq have "s = pre' @ sub @ post" by simp
      with Cons.IH show ?thesis by auto
    qed
  qed
qed

text \<open>\<open>strings.TrimSpace\<close> on ASCII text: tab, newline, vertical tab, form feed, return, space.\<close>

definition is_space :: "char \<Rightarrow> bool" where
  "is_space c \<longleftrightarrow> (let n = (of_char c :: nat) in n = 32 \<or> (9 \<le> n \<and> n \<le> 13))"

definition TrimSpace :: "string \<Rightarrow> string" where
  "TrimSpace s = rev (dropWhile is_space (rev (dropWhile is_space s)))"

lemma dropWhile_rev_keeps_head:
  "s \<noteq> [] \<Longrightarrow> \<not> P (hd s) \<Longrightarrow> dropWhile P (rev (dropWhile P (rev s))) = rev (dropWhile P (rev s))"
proof -
  assume ne: "s \<noteq> []" and hd: "\<not> P (hd s)"
  from ne obtain c t where s: "s = c # t" by (cases s) auto
  with hd have c: "\<not> P c" by simp
  have "\<exists>u. rev (dropWhile P (rev s)) = c # u"
  proof -
    have "dropWhile P (rev t @ [c]) = dropWhile P (rev t) @ [c] \<or> dropWhile P (rev t @ [c]) = [c]"
      using c by (metis dropWhile.simps(2) dropWhile_append dropWhile_eq_Nil_conv)
    then show ?thesis
    proof
      assume "dropWhile P (rev t @ [c]) = dropWhile P (rev t) @ [c]"
      then have "rev (dropWhile P (rev s)) = c # rev (dropWhile P (rev t))" by (simp add: s)
      then show ?thesis by blast
    qed (simp add: s)
  qed
  with c show ?thesis by auto
qed

lemma TrimSpace_idem: "TrimSpace (TrimSpace s) = TrimSpace s"
proof (cases "dropWhile is_space s")
  case Nil
  then have "TrimSpace s = []" unfolding TrimSpace_def by (simp only: rev.simps dropWhile.simps)
  show ?thesis unfolding \<open>TrimSpace s = []\<close> by (simp add: TrimSpace_def)
next
  case (Cons c t)
  then have c: "\<not> is_space (hd (dropWhile is_space s))"
    by (metis dropWhile_eq_Cons_conv list.sel(1))
  have "dropWhile is_space s \<noteq> []" using Cons by (metis list.distinct(1))
  then have "dropWhile is_space (TrimSpace s) = TrimSpace s"
    unfolding TrimSpace_def using c by (rule dropWhile_rev_keeps_head)
  then show ?thesis
    by (simp add: TrimSpace_def dropWhile_idem)
qed

section \<open>The iteration order of Go maps\<close>

text \<open>
  \<open>range\<close> over a map visits every key once, in an order the runtime picks anew for every loop.
  The picks are a list of numbers; each number selects one of the entries not visited yet.
  Every list of picks gives a permutation (\<open>mset_arrange\<close>) and every permutation is given
  by some picks (\<open>arrange_complete\<close>), so a statement about all picks is a statement about all
  orders.
\<close>

function arrange :: "nat list \<Rightarrow> 'a list \<Rightarrow> 'a list" where
  "arrange \<sigma> [] = []"
| "arrange \<sigma> (x # xs) =
     (let i = (case \<sigma> of [] \<Rightarrow> 0 | n # _ \<Rightarrow> n mod length (x # xs))
      in ((x # xs) ! i) # arrange (tl \<sigma>) (take i (x # xs) @ drop (Suc i) (x # xs)))"
  by pat_completeness auto
termination
  by (relation "measure (\<lambda>(\<sigma>, xs). length xs)") (auto split: list.splits simp: mod_less_divisor less_Suc_eq_le)

declare arrange.simps [simp del]

lemma arrange_Nil [simp]: "arrange \<sigma> [] = []"
  by (simp add: arrange.simps)

lemma arrange_no_picks: "arrange [] xs = xs"
  by (induction xs) (simp_all add: arrange.simps)

lemma mset_remove_nth: "i < length xs \<Longrightarrow> add_mset (xs ! i) (mset (take i xs @ drop (Suc i) xs)) = mset xs"
  by (metis (no_types) append_take_drop_id Cons_nth_drop_Suc mset.simps(2) mset_append union_mset_add_mset_right)

lemma mset_arrange [simp]: "mset (arrange \<sigma> xs) = mset xs"
proof (induction \<sigma> xs rule: arrange.induct)
  case (1 \<sigma>)
  show ?case by simp
next
  case (2 \<sigma> x xs)
  define i where "i = (case \<sigma> of [] \<Rightarrow> 0 | n # _ \<Rightarrow> n mod length (x # xs))"
  have i: "i < length (x # xs)" by (auto simp: i_def split: list.splits)
  have eq: "arrange \<sigma> (x # xs) = ((x # xs) ! i) # arrange (tl \<sigma>) (take i (x # xs) @ drop (Suc i) (x # xs))"
    by (simp add: arrange.simps i_def Let_def)
  have "mset (arrange (tl \<sigma>) (take i (x # xs) @ drop (Suc i) (x # xs))) = mset (take i (x # xs) @ drop (Suc i) (x # xs))"
    by (rule "2.IH") (simp add: i_def)
  then show ?case unfolding eq using mset_remove_nth [OF i] by simp
qed

lemma set_arrange [simp]: "set (arrange \<sigma> xs) = set xs"
  by (metis mset_arrange set_mset_mset)

lemma length_arrange [simp]: "length (arrange \<sigma> xs) = length xs"
  by (metis mset_arrange size_mset)

lemma distinct_arrange [simp]: "distinct (arrange \<sigma> xs) = distinct xs"
  by (metis distinct_count_atmost_1 mset_arrange set_arrange)

lemma arrange_eq_Nil [simp]: "arrange \<sigma> xs = [] \<longleftrightarrow> xs = []"
  by (metis length_0_conv length_arrange)

lemma arrange_complete: "mset ys = mset xs \<Longrightarrow> \<exists>\<sigma>. arrange \<sigma> xs = ys"
proof (induction ys arbitrary: xs)
  case Nil
  then show ?case by simp
next
  case (Cons y ys)
  then have "y \<in> set xs" by (metis list.set_intros(1) set_mset_mset)
  then obtain i where i: "i < length xs" "xs ! i = y" by (auto simp: in_set_conv_nth)
  have "add_mset y (mset (take i xs @ drop (Suc i) xs)) = mset xs"
    using mset_remove_nth [OF i(1)] i(2) by simp
  with Cons.prems have "mset ys = mset (take i xs @ drop (Suc i) xs)"
    by (metis add_mset_add_single add_right_cancel mset.simps(2))
  then obtain \<sigma> where \<sigma>: "arrange \<sigma> (take i xs @ drop (Suc i) xs) = ys"
    using Cons.IH by blast
  from i(1) obtain x xs' where xs: "xs = x # xs'" by (cases xs) auto
  have "arrange (i # \<sigma>) xs = y # ys"
    using i \<sigma> by (simp add: xs arrange.simps Let_def)
  then show ?case by blast
qed

section \<open>Go maps\<close>

text \<open>\<open>m[k] = v\<close>: the entry is replaced where the key is present and added where it is not.\<close>

fun map_put :: "'k \<Rightarrow> 'v \<Rightarrow> ('k \<times> 'v) list \<Rightarrow> ('k \<times> 'v) list" where
  "map_put k v [] = [(k, v)]"
| "map_put k v ((k', v') # m) = (if k' = k then (k, v) # m else (k', v') # map_put k v m)"

lemma map_of_map_put [simp]: "map_of (map_put k v m) = (map_of m)(k \<mapsto> v)"
  by (induction m) (auto simp: fun_eq_iff)

lemma keys_map_put [simp]: "set (map fst (map_put k v m)) = insert k (set (map fst m))"
proof -
  have "fst ` set (map_put k v m) = dom (map_of (map_put k v m))"
    by (rule dom_map_of_conv_image_fst [symmetric])
  also have "\<dots> = insert k (fst ` set m)"
    by (simp add: dom_map_of_conv_image_fst)
  finally show ?thesis by simp
qed

lemma distinct_map_put: "distinct (map fst m) \<Longrightarrow> distinct (map fst (map_put k v m))"
proof (induction m)
  case (Cons p m)
  obtain k' v' where p: "p = (k', v')" by (cases p)
  have "set (map fst (map_put k v m)) = insert k (set (map fst m))" by (rule keys_map_put)
  with Cons show ?case by (auto simp: p)
qed simp

text \<open>\<open>maps.Keys\<close> of the set of a list, as the code builds it: duplicates dropped, order open.\<close>

definition collect_keys :: "nat list \<Rightarrow> 'a list \<Rightarrow> 'a list" where
  "collect_keys \<sigma> xs = arrange \<sigma> (remdups xs)"

lemma set_collect_keys [simp]: "set (collect_keys \<sigma> xs) = set xs"
  by (simp add: collect_keys_def)

lemma distinct_collect_keys [simp]: "distinct (collect_keys \<sigma> xs)"
  by (simp add: collect_keys_def)

lemma collect_keys_eq_Nil [simp]: "collect_keys \<sigma> xs = [] \<longleftrightarrow> xs = []"
  by (simp add: collect_keys_def)

end
