(* ===== verification/ApiTypes.thy ===== *)
theory ApiTypes
  imports Prelude
begin

text \<open>
  The API types of \<^verbatim>\<open>api/v1alpha1\<close> with their methods, and the fields of the Kubernetes core
  types that the code reads or writes. Nil-able fields are options; a slice whose nil and
  empty values the code tells apart is an option of a list. Fields of core types that the
  code only carries along are collected in one opaque field per record.
\<close>

section \<open>Kubernetes security contexts\<close>

record K8sSeccompProfile =
  ks_Type :: string
  ks_LocalhostProfile :: "string option"

record PodSecurityContext =
  psc_RunAsUser :: "int64 option"
  psc_RunAsGroup :: "int64 option"
  psc_FSGroup :: "int64 option"
  psc_RunAsNonRoot :: "bool option"
  psc_SeccompProfile :: "K8sSeccompProfile option"
  psc_SELinuxOptions :: "string option"
  psc_SupplementalGroups :: "int64 list option"
  psc_SupplementalGroupsPolicy :: "string option"
  psc_others :: string

record Capabilities =
  cap_Add :: "string list option"
  cap_Drop :: "string list option"

record SecurityContext =
  sc_RunAsUser :: "int64 option"
  sc_RunAsGroup :: "int64 option"
  sc_RunAsNonRoot :: "bool option"
  sc_Capabilities :: "Capabilities option"
  sc_Privileged :: "bool option"
  sc_AllowPrivilegeEscalation :: "bool option"
  sc_ReadOnlyRootFilesystem :: "bool option"
  sc_SeccompProfile :: "K8sSeccompProfile option"
  sc_SELinuxOptions :: "string option"
  sc_others :: string

text \<open>\<open>&corev1.PodSecurityContext{}\<close> and \<open>&corev1.SecurityContext{}\<close>.\<close>

definition empty_psc :: PodSecurityContext where
  "empty_psc = \<lparr>psc_RunAsUser = None, psc_RunAsGroup = None, psc_FSGroup = None, psc_RunAsNonRoot = None,
     psc_SeccompProfile = None, psc_SELinuxOptions = None, psc_SupplementalGroups = None,
     psc_SupplementalGroupsPolicy = None, psc_others = ''''\<rparr>"

definition empty_sc :: SecurityContext where
  "empty_sc = \<lparr>sc_RunAsUser = None, sc_RunAsGroup = None, sc_RunAsNonRoot = None, sc_Capabilities = None,
     sc_Privileged = None, sc_AllowPrivilegeEscalation = None, sc_ReadOnlyRootFilesystem = None,
     sc_SeccompProfile = None, sc_SELinuxOptions = None, sc_others = ''''\<rparr>"

section \<open>Workloads\<close>

record Container =
  ct_Name :: string
  ct_SecurityContext :: "SecurityContext option"

record PodSpec =
  ps_SecurityContext :: "PodSecurityContext option"
  ps_Containers :: "Container list"
  ps_InitContainers :: "Container list"

text \<open>
  The three kinds the operator handles, each with the replica fields of its own status. A
  label selector is opaque: it is only handed to the API machinery.
\<close>

record Deployment =
  dep_Namespace :: string
  dep_Name :: string
  dep_Replicas :: "int32 option"
  dep_Selector :: "string option"
  dep_PodSpec :: PodSpec
  dep_UpdatedReplicas :: int32

record StatefulSet =
  sts_Namespace :: string
  sts_Name :: string
  sts_Replicas :: "int32 option"
  sts_Selector :: "string option"
  sts_PodSpec :: PodSpec
  sts_CurrentReplicas :: int32

record DaemonSet =
  ds_Namespace :: string
  ds_Name :: string
  ds_Selector :: "string option"
  ds_PodSpec :: PodSpec
  ds_DesiredNumberScheduled :: int32
  ds_UpdatedNumberScheduled :: int32

datatype workload_kind = KDeployment | KStatefulSet | KDaemonSet

text \<open>
  A \<open>client.Object\<close> as the type switches of the code see it. \<open>WOther\<close> is an object of any other
  kind: it reaches the \<open>default\<close> branches.
\<close>

datatype workload =
    WDeployment Deployment
  | WStatefulSet StatefulSet
  | WDaemonSet DaemonSet
  | WOther string string

fun wl_kind :: "workload \<Rightarrow> workload_kind option" where
  "wl_kind (WDeployment d) = Some KDeployment"
| "wl_kind (WStatefulSet s) = Some KStatefulSet"
| "wl_kind (WDaemonSet d) = Some KDaemonSet"
| "wl_kind (WOther ns n) = None"

fun wl_Namespace :: "workload \<Rightarrow> string" where
  "wl_Namespace (WDeployment d) = dep_Namespace d"
| "wl_Namespace (WStatefulSet s) = sts_Namespace s"
| "wl_Namespace (WDaemonSet d) = ds_Namespace d"
| "wl_Namespace (WOther ns n) = ns"

fun wl_Name :: "workload \<Rightarrow> string" where
  "wl_Name (WDeployment d) = dep_Name d"
| "wl_Name (WStatefulSet s) = sts_Name s"
| "wl_Name (WDaemonSet d) = ds_Name d"
| "wl_Name (WOther ns n) = n"

text \<open>\<open>v.Spec.Selector\<close>, nil where no branch of the switch assigned it.\<close>

fun wl_Selector :: "workload \<Rightarrow> string option" where
  "wl_Selector (WDeployment d) = dep_Selector d"
| "wl_Selector (WStatefulSet s) = sts_Selector s"
| "wl_Selector (WDaemonSet d) = ds_Selector d"
| "wl_Selector (WOther ns n) = None"

text \<open>\<open>&v.Spec.Template.Spec\<close>, nil where no branch of the switch assigned it.\<close>

fun podSpecTemplate :: "workload \<Rightarrow> PodSpec option" where
  "podSpecTemplate (WDeployment d) = Some (dep_PodSpec d)"
| "podSpecTemplate (WStatefulSet s) = Some (sts_PodSpec s)"
| "podSpecTemplate (WDaemonSet d) = Some (ds_PodSpec d)"
| "podSpecTemplate (WOther ns n) = None"

text \<open>A write through that pointer.\<close>

fun set_podSpecTemplate :: "PodSpec \<Rightarrow> workload \<Rightarrow> workload" where
  "set_podSpecTemplate p (WDeployment d) = WDeployment (d\<lparr>dep_PodSpec := p\<rparr>)"
| "set_podSpecTemplate p (WStatefulSet s) = WStatefulSet (s\<lparr>sts_PodSpec := p\<rparr>)"
| "set_podSpecTemplate p (WDaemonSet d) = WDaemonSet (d\<lparr>ds_PodSpec := p\<rparr>)"
| "set_podSpecTemplate p (WOther ns n) = WOther ns n"

lemma set_podSpecTemplate_frame [simp]:
  "wl_Namespace (set_podSpecTemplate p w) = wl_Namespace w"
  "wl_Name (set_podSpecTemplate p w) = wl_Name w"
  "wl_Selector (set_podSpecTemplate p w) = wl_Selector w"
  "wl_kind (set_podSpecTemplate p w) = wl_kind w"
  "podSpecTemplate (set_podSpecTemplate p w) = map_option (\<lambda>_. p) (podSpecTemplate w)"
  by (cases w; simp)+

section \<open>Pods\<close>

datatype PodPhase = PodPending | PodRunning | PodSucceeded | PodFailed | PodUnknown

record ContainerStatus =
  cs_Name :: string
  cs_Waiting :: "string option"
  cs_Terminated :: "string option"
  cs_Ready :: bool

record Pod =
  pod_Name :: string
  pod_Namespace :: string
  pod_UID :: string
  pod_NodeName :: string
  pod_Phase :: PodPhase
  pod_DeletionTimestamp :: "int option"
  pod_ContainerStatuses :: "ContainerStatus list"
  pod_Containers :: "string list"
  pod_InitContainers :: "string list"

section \<open>Security context defaults\<close>

record SeccompProfile =
  sp_Type :: string

record PodSecurityContextDefaults =
  pd_FSGroup :: "int64 option"
  pd_RunAsUser :: "int64 option"
  pd_RunAsGroup :: "int64 option"
  pd_RunAsNonRoot :: "bool option"
  pd_SupplementalGroups :: "int64 list option"
  pd_SeccompProfile :: "SeccompProfile option"

record ContainerSecurityContextDefaults =
  cd_RunAsNonRoot :: "bool option"
  cd_ReadOnlyRootFilesystem :: "bool option"
  cd_AllowPrivilegeEscalation :: "bool option"
  cd_CapabilitiesDrop :: "string list option"
  cd_SeccompProfile :: "SeccompProfile option"
  cd_RunAsUser :: "int64 option"
  cd_RunAsGroup :: "int64 option"

record SecurityContextDefaults =
  sd_Pod :: "PodSecurityContextDefaults option"
  sd_Container :: "ContainerSecurityContextDefaults option"

definition empty_pd :: PodSecurityContextDefaults where
  "empty_pd = \<lparr>pd_FSGroup = None, pd_RunAsUser = None, pd_RunAsGroup = None, pd_RunAsNonRoot = None,
     pd_SupplementalGroups = None, pd_SeccompProfile = None\<rparr>"

definition empty_cd :: ContainerSecurityContextDefaults where
  "empty_cd = \<lparr>cd_RunAsNonRoot = None, cd_ReadOnlyRootFilesystem = None, cd_AllowPrivilegeEscalation = None,
     cd_CapabilitiesDrop = None, cd_SeccompProfile = None, cd_RunAsUser = None, cd_RunAsGroup = None\<rparr>"

definition slice_len :: "'a list option \<Rightarrow> nat" where
  "slice_len s = (case s of None \<Rightarrow> 0 | Some xs \<Rightarrow> length xs)"

lemma slice_len_simps [simp]: "slice_len None = 0" "slice_len (Some xs) = length xs"
  by (simp_all add: slice_len_def)

definition PodDefaults_IsEmpty :: "PodSecurityContextDefaults option \<Rightarrow> bool" where
  "PodDefaults_IsEmpty p = (case p of None \<Rightarrow> True | Some p \<Rightarrow>
     \<not> (pd_FSGroup p \<noteq> None \<or> pd_RunAsUser p \<noteq> None \<or> pd_RunAsGroup p \<noteq> None \<or> pd_RunAsNonRoot p \<noteq> None \<or>
        slice_len (pd_SupplementalGroups p) > 0 \<or>
        (case pd_SeccompProfile p of None \<Rightarrow> False | Some s \<Rightarrow> sp_Type s \<noteq> '''')))"

definition ContainerDefaults_IsEmpty :: "ContainerSecurityContextDefaults option \<Rightarrow> bool" where
  "ContainerDefaults_IsEmpty c = (case c of None \<Rightarrow> True | Some c \<Rightarrow>
     \<not> (cd_RunAsNonRoot c \<noteq> None \<or> cd_ReadOnlyRootFilesystem c \<noteq> None \<or> cd_AllowPrivilegeEscalation c \<noteq> None \<or>
        slice_len (cd_CapabilitiesDrop c) > 0 \<or>
        (case cd_SeccompProfile c of None \<Rightarrow> False | Some s \<Rightarrow> sp_Type s \<noteq> '''') \<or>
        cd_RunAsUser c \<noteq> None \<or> cd_RunAsGroup c \<noteq> None))"

definition Defaults_IsEmpty :: "SecurityContextDefaults option \<Rightarrow> bool" where
  "Defaults_IsEmpty s = (case s of None \<Rightarrow> True | Some s \<Rightarrow>
     if sd_Pod s = None \<and> sd_Container s = None then True
     else if sd_Pod s \<noteq> None \<and> \<not> PodDefaults_IsEmpty (sd_Pod s) then False
     else if sd_Container s \<noteq> None \<and> \<not> ContainerDefaults_IsEmpty (sd_Container s) then False
     else True)"

definition PodDefaults_ToK8s :: "PodSecurityContextDefaults option \<Rightarrow> PodSecurityContext option" where
  "PodDefaults_ToK8s p = (case p of None \<Rightarrow> None | Some p \<Rightarrow>
     Some (empty_psc\<lparr>psc_FSGroup := pd_FSGroup p, psc_RunAsUser := pd_RunAsUser p, psc_RunAsGroup := pd_RunAsGroup p,
       psc_RunAsNonRoot := pd_RunAsNonRoot p, psc_SupplementalGroups := pd_SupplementalGroups p,
       psc_SeccompProfile := map_option (\<lambda>s. \<lparr>ks_Type = sp_Type s, ks_LocalhostProfile = None\<rparr>) (pd_SeccompProfile p)\<rparr>))"

definition ContainerDefaults_ToK8s :: "ContainerSecurityContextDefaults option \<Rightarrow> SecurityContext option" where
  "ContainerDefaults_ToK8s c = (case c of None \<Rightarrow> None | Some c \<Rightarrow>
     Some (empty_sc\<lparr>sc_RunAsNonRoot := cd_RunAsNonRoot c, sc_ReadOnlyRootFilesystem := cd_ReadOnlyRootFilesystem c,
       sc_AllowPrivilegeEscalation := cd_AllowPrivilegeEscalation c, sc_RunAsUser := cd_RunAsUser c,
       sc_RunAsGroup := cd_RunAsGroup c,
       sc_Capabilities := (if slice_len (cd_CapabilitiesDrop c) > 0
         then Some \<lparr>cap_Add = None, cap_Drop = cd_CapabilitiesDrop c\<rparr> else None),
       sc_SeccompProfile := map_option (\<lambda>s. \<lparr>ks_Type = sp_Type s, ks_LocalhostProfile = None\<rparr>) (cd_SeccompProfile c)\<rparr>))"

lemmas defaults_defs = empty_psc_def empty_sc_def empty_pd_def empty_cd_def
  PodDefaults_ToK8s_def ContainerDefaults_ToK8s_def

lemma PodDefaults_ToK8s_None [simp]: "PodDefaults_ToK8s None = None"
  by (simp add: PodDefaults_ToK8s_def)

lemma ContainerDefaults_ToK8s_None [simp]: "ContainerDefaults_ToK8s None = None"
  by (simp add: ContainerDefaults_ToK8s_def)

lemma ToK8s_eq_None [simp]:
  "PodDefaults_ToK8s p = None \<longleftrightarrow> p = None" "ContainerDefaults_ToK8s c = None \<longleftrightarrow> c = None"
  by (auto simp: PodDefaults_ToK8s_def ContainerDefaults_ToK8s_def split: option.splits)

section \<open>Conditions\<close>

datatype ConditionStatus = ConditionTrue | ConditionFalse | ConditionUnknown

record Condition =
  cond_Type :: string
  cond_Status :: ConditionStatus
  cond_Reason :: string
  cond_Message :: string
  cond_LastTransitionTime :: int

text \<open>The condition types and reasons of \<^verbatim>\<open>workloadhardeningcheck_types.go\<close>.\<close>

abbreviation "ConditionTypePreparation \<equiv> ''Preparation''"
abbreviation "ConditionTypeBaseline \<equiv> ''Baseline''"
abbreviation "ConditionTypeCheck \<equiv> ''Check''"
abbreviation "ConditionTypeFinalCheck \<equiv> ''FinalCheck''"
abbreviation "ConditionTypeAnalysis \<equiv> ''CheckResultAnalysis''"
abbreviation "ConditionTypeFinished \<equiv> ''Finished''"
abbreviation "ReasonSuccess \<equiv> ''Success''"
abbreviation "ReasonFailed \<equiv> ''Failed''"
abbreviation "ReasonRequeue \<equiv> ''Requeue''"
abbreviation "ReasonBaselineRecording \<equiv> ''BaselineRecording''"
abbreviation "ReasonBaselineRecordingFailed \<equiv> ''BaselineRecordingFailed''"
abbreviation "ReasonBaselineRecordingFinished \<equiv> ''BaselineRecordingFinished''"
abbreviation "ReasonCheckRecording \<equiv> ''CheckRecording''"
abbreviation "ReasonCheckNotStarted \<equiv> ''CheckNotStarted''"
abbreviation "ReasonCheckRecordingFailed \<equiv> ''CheckRecordingFailed''"
abbreviation "ReasonCheckRecordingFinished \<equiv> ''CheckRecordingFinished''"
abbreviation "ReasonAnalysisRunning \<equiv> ''Analyzing''"
abbreviation "ReasonAnalysisFailed \<equiv> ''AnalysisFailed''"
abbreviation "ReasonAnalysisFinished \<equiv> ''AnalysisFinished''"
abbreviation "ReasonTargetNamespaceNotFound \<equiv> ''TargetNamespaceNotFound''"
abbreviation "ReasonNamespaceInProgress \<equiv> ''InProgress''"
abbreviation "ReasonWorkloadChecksCreated \<equiv> ''WorkloadChecksCreated''"

section \<open>WorkloadHardeningCheck\<close>

abbreviation "RunModeParallel \<equiv> ''parallel''"
abbreviation "RunModeSequential \<equiv> ''sequential''"

record TargetReference =
  tr_Kind :: string
  tr_Name :: string

record WhcSpec =
  ws_TargetRef :: TargetReference
  ws_RecordingDuration :: string
  ws_RunMode :: string
  ws_SecurityContext :: "SecurityContextDefaults option"
  ws_Suffix :: string

record CheckRun =
  cr_Name :: string
  cr_RecordingSuccessfull :: "bool option"
  cr_CheckSuccessfull :: "bool option"
  cr_SecurityContext :: "SecurityContextDefaults option"
  cr_FailureReason :: string
  cr_LogAnomalies :: "(string \<times> string list) list option"
  cr_CpuDeviation :: "bool option"
  cr_MemoryDeviation :: "bool option"

record Recommendation =
  rec_ContainerSecurityContexts :: "SecurityContext option"
  rec_PodSecurityContext :: "PodSecurityContext option"

text \<open>\<open>BaselineRuns\<close> and \<open>CheckRuns\<close> are only appended to and looked up: nil and empty agree.\<close>

record WhcStatus =
  wst_Conditions :: "Condition list"
  wst_BaselineRuns :: "CheckRun list"
  wst_CheckRuns :: "(string \<times> CheckRun) list"
  wst_FinalRun :: "CheckRun option"
  wst_Recommendation :: "Recommendation option"

record Whc =
  whc_Name :: string
  whc_Namespace :: string
  whc_Labels :: "(string \<times> string) list"
  whc_Spec :: WhcSpec
  whc_Status :: WhcStatus

section \<open>NamespaceHardeningCheck\<close>

record NhcSpec =
  ns_TargetNamespace :: string
  ns_RecordingDuration :: string
  ns_RunMode :: string
  ns_SecurityContext :: "SecurityContextDefaults option"
  ns_Suffix :: string

record NhcStatus =
  nst_Conditions :: "Condition list"
  nst_Recommendations :: "(string \<times> Recommendation) list"

record Nhc =
  nhc_Name :: string
  nhc_Spec :: NhcSpec
  nhc_Status :: NhcStatus

section \<open>Namespaced resources, namespaces and role bindings\<close>

text \<open>
  An unstructured object: the fields the accessors of \<open>unstructured.Unstructured\<close> reach, and the
  other top-level entries of its JSON object.
\<close>

datatype json = JNull | JBool bool | JNum int | JStr string | JArr "json list" | JObj "(string \<times> json) list"

record Unstructured =
  u_Kind :: string
  u_APIVersion :: string
  u_Name :: string
  u_Namespace :: string
  u_ResourceVersion :: string
  u_SelfLink :: string
  u_UID :: string
  u_Generation :: int
  u_Annotations :: "(string \<times> string) list"
  u_OwnerReferences :: "string list"
  u_fields :: "(string \<times> json) list"

text \<open>The fields of a \<open>corev1.Service\<close> the code clears; the others in one opaque field.\<close>

record Service =
  svc_ClusterIP :: string
  svc_ClusterIPs :: "string list"
  svc_ExternalIPs :: "string list"
  svc_LoadBalancerIP :: string
  svc_others :: Unstructured

text \<open>Resource types as the discovery client lists them.\<close>

record APIResource =
  ar_Name :: string
  ar_Kind :: string
  ar_Group :: string
  ar_Namespaced :: bool

record APIResourceList =
  al_GroupVersion :: string
  al_APIResources :: "APIResource list"

record Namespace =
  nsp_Name :: string
  nsp_Labels :: "(string \<times> string) list"

record Subject =
  sub_Kind :: string
  sub_Name :: string
  sub_Namespace :: string

record ClusterRoleBinding =
  crb_Name :: string
  crb_ResourceVersion :: string
  crb_SelfLink :: string
  crb_UID :: string
  crb_Generation :: int
  crb_Labels :: "(string \<times> string) list"
  crb_Subjects :: "Subject list"
  crb_RoleRef :: string

section \<open>Recordings\<close>

record ResourceUsageRecord =
  ru_Time :: int
  ru_CpuNanoCores :: int64
  ru_MemoryBytes :: int64

record WorkloadRecording =
  rc_Type :: string
  rc_Success :: bool
  rc_StartTime :: int
  rc_EndTime :: int
  rc_SecurityContextConfigurations :: "SecurityContextDefaults option"
  rc_RecordedMetrics :: "ResourceUsageRecord list"
  rc_Logs :: "(string \<times> string list) list"

end
