(* ===== verification/SecurityContexts.thy ===== *)
theory SecurityContexts
  imports ApiTypes
begin

text \<open>
  \<^verbatim>\<open>internal/workload/securityContext.go\<close>: merging security contexts field by field and applying
  them to a pod template. A merge keeps what the base sets and fills what it leaves nil;
  dropped capabilities are united.

  Values stand for the deep copies the code works on. The one object the merges share is
  \<open>extends.Capabilities\<close>, which a base without capabilities takes over by pointer before its
  \<open>Drop\<close> list is rebuilt: the sharing reorders that list and drops its duplicates and does nothing
  else (\<^verbatim>\<open>SharedMerge\<close> proves it), and the order is open here anyway (\<open>\<sigma>\<close> picks it, as the runtime
  does for the map the code builds).
\<close>

section \<open>The merge functions\<close>

definition mergePodSecurityContexts ::
  "PodSecurityContext option \<Rightarrow> PodSecurityContext option \<Rightarrow> PodSecurityContext option" where
  "mergePodSecurityContexts base extends =
     (case base of None \<Rightarrow> extends | Some b \<Rightarrow>
      (case extends of None \<Rightarrow> base | Some e \<Rightarrow>
        Some (b\<lparr>psc_RunAsUser := fill (psc_RunAsUser b) (psc_RunAsUser e),
          psc_RunAsGroup := fill (psc_RunAsGroup b) (psc_RunAsGroup e),
          psc_FSGroup := fill (psc_FSGroup b) (psc_FSGroup e),
          psc_RunAsNonRoot := fill (psc_RunAsNonRoot b) (psc_RunAsNonRoot e),
          psc_SeccompProfile := fill (psc_SeccompProfile b) (psc_SeccompProfile e),
          psc_SELinuxOptions := fill (psc_SELinuxOptions b) (psc_SELinuxOptions e),
          psc_SupplementalGroups := fill (psc_SupplementalGroups b) (psc_SupplementalGroups e),
          psc_SupplementalGroupsPolicy := fill (psc_SupplementalGroupsPolicy b) (psc_SupplementalGroupsPolicy e)\<rparr>)))"

text \<open>\<open>slices.Collect\<close> gives nil for an empty sequence.\<close>

definition slices_Collect :: "'a list \<Rightarrow> 'a list option" where
  "slices_Collect xs = (if xs = [] then None else Some xs)"

text \<open>The capabilities part of the container merge, on a merged context whose nil has been filled.\<close>

definition mergeDrop :: "nat list \<Rightarrow> Capabilities \<Rightarrow> Capabilities \<Rightarrow> Capabilities" where
  "mergeDrop \<sigma> merged extends =
     (let drop1 = fill (cap_Drop merged) (cap_Drop extends)
      in merged\<lparr>cap_Drop := (case (drop1, cap_Drop extends) of
           (Some d, Some e) \<Rightarrow> slices_Collect (collect_keys \<sigma> (d @ e))
         | _ \<Rightarrow> drop1)\<rparr>)"

definition mergeCapabilities ::
  "nat list \<Rightarrow> Capabilities option \<Rightarrow> Capabilities option \<Rightarrow> Capabilities option" where
  "mergeCapabilities \<sigma> base extends =
     (case (fill base extends, extends) of
        (Some m, Some e) \<Rightarrow> Some (mergeDrop \<sigma> m e)
      | (m, _) \<Rightarrow> m)"

definition mergeContainerSecurityContexts ::
  "nat list \<Rightarrow> SecurityContext option \<Rightarrow> SecurityContext option \<Rightarrow> SecurityContext option" where
  "mergeContainerSecurityContexts \<sigma> base extends =
     (case base of None \<Rightarrow> extends | Some b \<Rightarrow>
      (case extends of None \<Rightarrow> base | Some e \<Rightarrow>
        Some (b\<lparr>sc_RunAsUser := fill (sc_RunAsUser b) (sc_RunAsUser e),
          sc_RunAsGroup := fill (sc_RunAsGroup b) (sc_RunAsGroup e),
          sc_Capabilities := mergeCapabilities \<sigma> (sc_Capabilities b) (sc_Capabilities e),
          sc_Privileged := fill (sc_Privileged b) (sc_Privileged e),
          sc_AllowPrivilegeEscalation := fill (sc_AllowPrivilegeEscalation b) (sc_AllowPrivilegeEscalation e),
          sc_ReadOnlyRootFilesystem := fill (sc_ReadOnlyRootFilesystem b) (sc_ReadOnlyRootFilesystem e),
          sc_SeccompProfile := fill (sc_SeccompProfile b) (sc_SeccompProfile e),
          sc_SELinuxOptions := fill (sc_SELinuxOptions b) (sc_SELinuxOptions e)\<rparr>)))"

section \<open>What a merge promises\<close>

text \<open>
  The interface the callers of a merge rely on: nil is neutral, the result keeps the base
  (\<open>keeps\<close>) and answers everything the extension asks for (\<open>covers\<close>: each setting the
  extension makes is made, by it or by the base before it).
\<close>

locale context_merge =
  fixes merge :: "'c option \<Rightarrow> 'c option \<Rightarrow> 'c option"
    and keeps :: "'c \<Rightarrow> 'c \<Rightarrow> bool"
    and covers :: "'c \<Rightarrow> 'c \<Rightarrow> bool"
  assumes nil_base: "merge None x = x"
    and nil_extends: "merge x None = x"
    and merge_some: "\<exists>m. merge (Some b) (Some e) = Some m"
    and merge_keeps: "merge (Some b) (Some e) = Some m \<Longrightarrow> keeps b m"
    and merge_covers: "merge (Some b) (Some e) = Some m \<Longrightarrow> covers e m"
    and keeps_refl: "keeps b b"
    and keeps_trans: "keeps a b \<Longrightarrow> keeps b c \<Longrightarrow> keeps a c"
    and keeps_covers: "covers e a \<Longrightarrow> keeps a b \<Longrightarrow> covers e b"
    and covers_refl: "covers e e"
begin

lemma step_keeps: "\<exists>m. merge (Some b) e = Some m \<and> keeps b m"
  by (metis keeps_refl merge_keeps merge_some nil_extends option.exhaust)

lemma merged: "\<exists>m. merge x (Some e) = Some m \<and> covers e m \<and> (\<forall>b. x = Some b \<longrightarrow> keeps b m)"
proof (cases x)
  case None
  then show ?thesis by (simp add: nil_base covers_refl)
next
  case (Some b)
  obtain m where "merge (Some b) (Some e) = Some m" using merge_some by blast
  with Some show ?thesis by (auto intro: merge_keeps merge_covers)
qed

text \<open>Merging a series of extensions into a base, in any order.\<close>

lemma fold_keeps: "\<exists>m. fold (\<lambda>e b. merge b e) es (Some b) = Some m \<and> keeps b m"
proof (induction es arbitrary: b)
  case Nil
  then show ?case by (simp add: keeps_refl)
next
  case (Cons e es)
  obtain m where m: "merge (Some b) e = Some m" "keeps b m"
    using step_keeps by blast
  obtain m' where "fold (\<lambda>e b. merge b e) es (Some m) = Some m'" "keeps m m'"
    using Cons.IH by blast
  with m show ?case by (auto intro: keeps_trans)
qed

lemma fold_covers:
  "fold (\<lambda>e b. merge b e) es (Some b) = Some m \<Longrightarrow> Some e \<in> set es \<Longrightarrow> covers e m"
proof (induction es arbitrary: b)
  case (Cons e' es)
  obtain b' where b': "merge (Some b) e' = Some b'"
    using step_keeps by blast
  with Cons.prems have rest: "fold (\<lambda>e b. merge b e) es (Some b') = Some m" by simp
  show ?case
  proof (cases "Some e \<in> set es")
    case True
    with Cons.IH rest show ?thesis by blast
  next
    case False
    with Cons.prems b' have "covers e b'" by (auto intro: merge_covers)
    with fold_keeps [of es b'] rest show ?thesis by (auto intro: keeps_covers)
  qed
qed simp

end

subsection \<open>Pod level\<close>

definition psc_keeps :: "PodSecurityContext \<Rightarrow> PodSecurityContext \<Rightarrow> bool" where
  "psc_keeps a b \<longleftrightarrow> kept (psc_RunAsUser a) (psc_RunAsUser b) \<and> kept (psc_RunAsGroup a) (psc_RunAsGroup b) \<and>
     kept (psc_FSGroup a) (psc_FSGroup b) \<and> kept (psc_RunAsNonRoot a) (psc_RunAsNonRoot b) \<and>
     kept (psc_SeccompProfile a) (psc_SeccompProfile b) \<and> kept (psc_SELinuxOptions a) (psc_SELinuxOptions b) \<and>
     kept (psc_SupplementalGroups a) (psc_SupplementalGroups b) \<and>
     kept (psc_SupplementalGroupsPolicy a) (psc_SupplementalGroupsPolicy b) \<and> psc_others a = psc_others b"

text \<open>A field is answered when it was not asked for or is set.\<close>

definition answered :: "'a option \<Rightarrow> 'b option \<Rightarrow> bool" where
  "answered e m \<longleftrightarrow> e = None \<or> m \<noteq> None"

lemma answered_simps [simp]:
  "answered None m" "answered e (Some x)" "answered (Some x) None = False" "answered e e" "answered e (fill b e)"
  by (auto simp: answered_def)

lemma answered_kept: "answered e a \<Longrightarrow> kept a b \<Longrightarrow> answered e b"
  by (auto simp: answered_def kept_def)

definition psc_covers :: "PodSecurityContext \<Rightarrow> PodSecurityContext \<Rightarrow> bool" where
  "psc_covers e m \<longleftrightarrow> answered (psc_RunAsUser e) (psc_RunAsUser m) \<and> answered (psc_RunAsGroup e) (psc_RunAsGroup m) \<and>
     answered (psc_FSGroup e) (psc_FSGroup m) \<and> answered (psc_RunAsNonRoot e) (psc_RunAsNonRoot m) \<and>
     answered (psc_SeccompProfile e) (psc_SeccompProfile m) \<and> answered (psc_SELinuxOptions e) (psc_SELinuxOptions m) \<and>
     answered (psc_SupplementalGroups e) (psc_SupplementalGroups m) \<and>
     answered (psc_SupplementalGroupsPolicy e) (psc_SupplementalGroupsPolicy m)"

interpretation pod: context_merge mergePodSecurityContexts psc_keeps psc_covers
proof unfold_locales
  fix a b c e m :: PodSecurityContext and b' e' :: "PodSecurityContext option"
  show "mergePodSecurityContexts None e' = e'" "mergePodSecurityContexts b' None = b'"
    by (auto simp: mergePodSecurityContexts_def split: option.splits)
  show "\<exists>m. mergePodSecurityContexts (Some b) (Some e) = Some m"
    by (simp add: mergePodSecurityContexts_def)
  show "mergePodSecurityContexts (Some b) (Some e) = Some m \<Longrightarrow> psc_keeps b m"
    by (auto simp: mergePodSecurityContexts_def psc_keeps_def)
  show "mergePodSecurityContexts (Some b) (Some e) = Some m \<Longrightarrow> psc_covers e m"
    by (auto simp: mergePodSecurityContexts_def psc_covers_def)
  show "psc_keeps b b" "psc_covers e e"
    by (simp_all add: psc_keeps_def psc_covers_def)
  show "psc_keeps a b \<Longrightarrow> psc_keeps b c \<Longrightarrow> psc_keeps a c"
    by (auto simp: psc_keeps_def intro: kept_trans)
  show "psc_covers e a \<Longrightarrow> psc_keeps a b \<Longrightarrow> psc_covers e b"
    by (auto simp: psc_keeps_def psc_covers_def intro: answered_kept)
qed

subsection \<open>Container level\<close>

definition drops :: "Capabilities option \<Rightarrow> string set" where
  "drops c = (case c of None \<Rightarrow> {} | Some c \<Rightarrow> (case cap_Drop c of None \<Rightarrow> {} | Some d \<Rightarrow> set d))"

lemma drops_simps [simp]:
  "drops None = {}" "drops (Some c) = (case cap_Drop c of None \<Rightarrow> {} | Some d \<Rightarrow> set d)"
  by (simp_all add: drops_def)

text \<open>The united drop lists, whatever order the runtime picks.\<close>

lemma drops_collect [simp]:
  "(case slices_Collect (collect_keys \<sigma> xs) of None \<Rightarrow> {} | Some d \<Rightarrow> set d) = set xs"
  by (auto simp: slices_Collect_def)

lemma drops_mergeDrop: "drops (Some (mergeDrop \<sigma> m e)) = drops (Some m) \<union> drops (Some e)"
  by (cases "cap_Drop m"; cases "cap_Drop e") (auto simp: mergeDrop_def Let_def)

lemma drops_mergeCapabilities [simp]: "drops (mergeCapabilities \<sigma> b e) = drops b \<union> drops e"
proof (cases "b = None \<or> e = None")
  case True
  then show ?thesis
    by (cases b; cases e) (auto simp: mergeCapabilities_def drops_mergeDrop simp del: drops_simps(2))
next
  case False
  then show ?thesis
    by (auto simp: mergeCapabilities_def drops_mergeDrop simp del: drops_simps)
qed

lemma cap_Add_mergeCapabilities:
  "map_option cap_Add (mergeCapabilities \<sigma> b e) = fill (map_option cap_Add b) (map_option cap_Add e)"
  by (cases b; cases e) (simp_all add: mergeCapabilities_def mergeDrop_def Let_def)

definition sc_keeps :: "SecurityContext \<Rightarrow> SecurityContext \<Rightarrow> bool" where
  "sc_keeps a b \<longleftrightarrow> kept (sc_RunAsUser a) (sc_RunAsUser b) \<and> kept (sc_RunAsGroup a) (sc_RunAsGroup b) \<and>
     kept (sc_RunAsNonRoot a) (sc_RunAsNonRoot b) \<and> kept (sc_Privileged a) (sc_Privileged b) \<and>
     kept (sc_AllowPrivilegeEscalation a) (sc_AllowPrivilegeEscalation b) \<and>
     kept (sc_ReadOnlyRootFilesystem a) (sc_ReadOnlyRootFilesystem b) \<and>
     kept (sc_SeccompProfile a) (sc_SeccompProfile b) \<and> kept (sc_SELinuxOptions a) (sc_SELinuxOptions b) \<and>
     kept (map_option cap_Add (sc_Capabilities a)) (map_option cap_Add (sc_Capabilities b)) \<and>
     drops (sc_Capabilities a) \<subseteq> drops (sc_Capabilities b) \<and> sc_others a = sc_others b"

text \<open>
  What a container merge answers. \<open>RunAsNonRoot\<close> is missing from the list: the merge has no step
  for it (\<open>merge_forgets_RunAsNonRoot\<close> below).
\<close>

definition sc_covers :: "SecurityContext \<Rightarrow> SecurityContext \<Rightarrow> bool" where
  "sc_covers e m \<longleftrightarrow> answered (sc_RunAsUser e) (sc_RunAsUser m) \<and> answered (sc_RunAsGroup e) (sc_RunAsGroup m) \<and>
     answered (sc_Privileged e) (sc_Privileged m) \<and>
     answered (sc_AllowPrivilegeEscalation e) (sc_AllowPrivilegeEscalation m) \<and>
     answered (sc_ReadOnlyRootFilesystem e) (sc_ReadOnlyRootFilesystem m) \<and>
     answered (sc_SeccompProfile e) (sc_SeccompProfile m) \<and> answered (sc_SELinuxOptions e) (sc_SELinuxOptions m) \<and>
     drops (sc_Capabilities e) \<subseteq> drops (sc_Capabilities m)"

interpretation container: context_merge "mergeContainerSecurityContexts \<sigma>" sc_keeps sc_covers for \<sigma>
proof unfold_locales
  fix a b c e m :: SecurityContext and b' e' :: "SecurityContext option"
  show "mergeContainerSecurityContexts \<sigma> None e' = e'" "mergeContainerSecurityContexts \<sigma> b' None = b'"
    by (auto simp: mergeContainerSecurityContexts_def split: option.splits)
  show "\<exists>m. mergeContainerSecurityContexts \<sigma> (Some b) (Some e) = Some m"
    by (simp add: mergeContainerSecurityContexts_def)
  show "mergeContainerSecurityContexts \<sigma> (Some b) (Some e) = Some m \<Longrightarrow> sc_keeps b m"
    by (auto simp: mergeContainerSecurityContexts_def sc_keeps_def cap_Add_mergeCapabilities simp del: drops_simps)
  show "mergeContainerSecurityContexts \<sigma> (Some b) (Some e) = Some m \<Longrightarrow> sc_covers e m"
    by (auto simp: mergeContainerSecurityContexts_def sc_covers_def simp del: drops_simps)
  show "sc_keeps b b" "sc_covers e e"
    by (simp_all add: sc_keeps_def sc_covers_def)
  show "sc_keeps a b \<Longrightarrow> sc_keeps b c \<Longrightarrow> sc_keeps a c"
    by (auto simp: sc_keeps_def intro: kept_trans simp del: drops_simps)
  show "sc_covers e a \<Longrightarrow> sc_keeps a b \<Longrightarrow> sc_covers e b"
    by (auto simp: sc_keeps_def sc_covers_def intro: answered_kept simp del: drops_simps)
qed

text \<open>The field the container merge leaves out.\<close>

lemma merge_forgets_RunAsNonRoot:
  "mergeContainerSecurityContexts \<sigma> (Some b) e = Some m \<Longrightarrow> sc_RunAsNonRoot m = sc_RunAsNonRoot b"
  by (auto simp: mergeContainerSecurityContexts_def split: option.splits)

section \<open>Applying contexts to a pod template\<close>

text \<open>
  One container of the loop over \<open>podSpec.Containers\<close>: \<open>\<sigma>\<close> gives the runtime's picks by the
  position of the container, init containers counted after the others.
\<close>

definition applyContainer :: "nat list \<Rightarrow> SecurityContext option \<Rightarrow> Container \<Rightarrow> Container" where
  "applyContainer \<sigma> sc c = c\<lparr>ct_SecurityContext := (case ct_SecurityContext c of
      None \<Rightarrow> sc
    | Some b \<Rightarrow> mergeContainerSecurityContexts \<sigma> (Some b) sc)\<rparr>"

definition applyContainers :: "(nat \<Rightarrow> nat list) \<Rightarrow> nat \<Rightarrow> SecurityContext option \<Rightarrow> Container list \<Rightarrow> Container list" where
  "applyContainers \<sigma> n sc cs = map (\<lambda>(i, c). applyContainer (\<sigma> i) sc c) (enumerate n cs)"

definition applyContexts ::
  "(nat \<Rightarrow> nat list) \<Rightarrow> SecurityContext option \<Rightarrow> PodSecurityContext option \<Rightarrow> PodSpec \<Rightarrow> PodSpec" where
  "applyContexts \<sigma> sc psc p = p\<lparr>
     ps_SecurityContext := (case ps_SecurityContext p of
        None \<Rightarrow> psc
      | Some b \<Rightarrow> mergePodSecurityContexts (Some b) psc),
     ps_Containers := applyContainers \<sigma> 0 sc (ps_Containers p),
     ps_InitContainers := applyContainers \<sigma> (length (ps_Containers p)) sc (ps_InitContainers p)\<rparr>"

definition applySecurityContext ::
  "(nat \<Rightarrow> nat list) \<Rightarrow> PodSpec \<Rightarrow> ContainerSecurityContextDefaults option \<Rightarrow> PodSecurityContextDefaults option \<Rightarrow> PodSpec" where
  "applySecurityContext \<sigma> podSpec cd pd = applyContexts \<sigma> (ContainerDefaults_ToK8s cd) (PodDefaults_ToK8s pd) podSpec"

definition ApplyCheckSecurityContext ::
  "(nat \<Rightarrow> nat list) \<Rightarrow> workload \<Rightarrow> ContainerSecurityContextDefaults option \<Rightarrow> PodSecurityContextDefaults option \<Rightarrow>
   error + workload" where
  "ApplyCheckSecurityContext \<sigma> w cd pd = (case podSpecTemplate w of
     Some p \<Rightarrow> Inr (set_podSpecTemplate (applySecurityContext \<sigma> p cd pd) w)
   | None \<Rightarrow> Inl (Errorf ''kind of workloadUnderTest not supported'' None))"

definition ApplySecurityContext ::
  "(nat \<Rightarrow> nat list) \<Rightarrow> workload \<Rightarrow> SecurityContext option \<Rightarrow> PodSecurityContext option \<Rightarrow> error + workload" where
  "ApplySecurityContext \<sigma> w sc psc = (case podSpecTemplate w of
     Some p \<Rightarrow> Inr (set_podSpecTemplate (applyContexts \<sigma> sc psc p) w)
   | None \<Rightarrow> Inl (Errorf ''supported workload kind, with empty podSpecTemplate'' None))"

subsection \<open>Facts about applying\<close>

text \<open>Where a nil base merges like a non-nil one, the two branches are one merge.\<close>

lemma applyContainer_merge:
  "ct_SecurityContext (applyContainer \<sigma> sc c) = mergeContainerSecurityContexts \<sigma> (ct_SecurityContext c) sc"
  by (cases "ct_SecurityContext c") (simp_all add: applyContainer_def container.nil_base)

lemma applyContainer_Name [simp]: "ct_Name (applyContainer \<sigma> sc c) = ct_Name c"
  by (simp add: applyContainer_def)

lemma applyContexts_pod:
  "ps_SecurityContext (applyContexts \<sigma> sc psc p) = mergePodSecurityContexts (ps_SecurityContext p) psc"
  by (cases "ps_SecurityContext p") (simp_all add: applyContexts_def pod.nil_base)

lemma length_applyContainers [simp]: "length (applyContainers \<sigma> n sc cs) = length cs"
  by (simp add: applyContainers_def)

lemma nth_applyContainers [simp]:
  "i < length cs \<Longrightarrow> applyContainers \<sigma> n sc cs ! i = applyContainer (\<sigma> (n + i)) sc (cs ! i)"
  by (simp add: applyContainers_def nth_enumerate_eq)

lemma map_Name_applyContainers [simp]: "map ct_Name (applyContainers \<sigma> n sc cs) = map ct_Name cs"
  by (rule nth_equalityI) simp_all

lemma set_applyContainers:
  "c' \<in> set (applyContainers \<sigma> n sc cs) \<Longrightarrow> \<exists>i c. c \<in> set cs \<and> c' = applyContainer (\<sigma> i) sc c"
  by (metis in_set_conv_nth length_applyContainers nth_applyContainers)

lemma ex_applyContainers:
  "(\<exists>c' \<in> set (applyContainers \<sigma> n sc cs). P c') \<longleftrightarrow> (\<exists>i < length cs. P (applyContainer (\<sigma> (n + i)) sc (cs ! i)))"
  by (metis in_set_conv_nth length_applyContainers nth_applyContainers)

lemma applyContexts_containers [simp]:
  "ps_Containers (applyContexts \<sigma> sc psc p) = applyContainers \<sigma> 0 sc (ps_Containers p)"
  "ps_InitContainers (applyContexts \<sigma> sc psc p) = applyContainers \<sigma> (length (ps_Containers p)) sc (ps_InitContainers p)"
  by (simp_all add: applyContexts_def)

section \<open>Properties\<close>

text \<open>One container after an extension was merged into it, against what it was before.\<close>

definition container_merged :: "SecurityContext \<Rightarrow> Container \<Rightarrow> Container \<Rightarrow> bool" where
  "container_merged sc c c' \<longleftrightarrow> ct_Name c' = ct_Name c \<and> (\<exists>m. ct_SecurityContext c' = Some m \<and> sc_covers sc m \<and>
     (\<forall>b. ct_SecurityContext c = Some b \<longrightarrow> sc_keeps b m))"

lemma applyContainers_merged: "list_all2 (container_merged sc) cs (applyContainers \<sigma> n (Some sc) cs)"
  using container.merged by (simp add: list_all2_conv_all_nth container_merged_def applyContainer_merge)


text \<open>A Deployment with one container that insists on running as root.\<close>

definition root_container :: Container where
  "root_container = \<lparr>ct_Name = ''app'', ct_SecurityContext = Some (empty_sc\<lparr>sc_RunAsUser := Some 0\<rparr>)\<rparr>"

definition root_deployment :: Deployment where
  "root_deployment = \<lparr>dep_Namespace = ''shop'', dep_Name = ''web'', dep_Replicas = Some 2, dep_Selector = None,
     dep_PodSpec = \<lparr>ps_SecurityContext = None, ps_Containers = [root_container], ps_InitContainers = []\<rparr>,
     dep_UpdatedReplicas = 2\<rparr>"


text \<open>No context that is merged in sets \<open>RunAsNonRoot\<close> on a container that has a security context
  of its own: applying a context that asks for it leaves the flag of such a container as it was.\<close>

theorem ApplySecurityContext_forgets_RunAsNonRoot:
  assumes "podSpecTemplate w = Some p" and "i < length (ps_Containers p)"
    and "ct_SecurityContext (ps_Containers p ! i) = Some b"
  shows "\<exists>p' m. ApplySecurityContext \<sigma> w sc psc = Inr (set_podSpecTemplate p' w) \<and>
    ct_SecurityContext (ps_Containers p' ! i) = Some m \<and> sc_RunAsNonRoot m = sc_RunAsNonRoot b"
proof -
  obtain m where "mergeContainerSecurityContexts (\<sigma> i) (Some b) sc = Some m"
    using container.step_keeps by blast
  with assms show ?thesis
    by (auto simp: ApplySecurityContext_def applyContainer_merge merge_forgets_RunAsNonRoot
        intro!: exI [of _ "applyContexts \<sigma> sc psc p"])
qed

lemma ApplySecurityContext_forgets_RunAsNonRoot_witness:
  "\<exists>p' m. ApplySecurityContext (\<lambda>_. []) (WDeployment root_deployment) (Some (empty_sc\<lparr>sc_RunAsNonRoot := Some True\<rparr>)) None =
      Inr (set_podSpecTemplate p' (WDeployment root_deployment)) \<and>
    ct_SecurityContext (ps_Containers p' ! 0) = Some m \<and> sc_RunAsNonRoot m = None"
  using ApplySecurityContext_forgets_RunAsNonRoot [of "WDeployment root_deployment" "dep_PodSpec root_deployment" 0
      "empty_sc\<lparr>sc_RunAsUser := Some 0\<rparr>" "\<lambda>_. []" "Some (empty_sc\<lparr>sc_RunAsNonRoot := Some True\<rparr>)" None]
  by (simp add: root_deployment_def root_container_def empty_sc_def)

end
