(* ===== verification/Checks.thy ===== *)
theory Checks
  imports SecurityContexts
begin

text \<open>
  \<^verbatim>\<open>pkg/checks\<close>: the hardening checks behind \<open>CheckInterface\<close> and their registry. The structs that
  implement the interface are empty, so a check is its dynamic type. A default function writes
  through the pointers \<open>Pod\<close> and \<open>Container\<close> of the context it is given: a nil pointer there is
  a panic.
\<close>

section \<open>The checks\<close>

datatype check =
    AllowPrivilegeEscalationCheck
  | DropAllCapabilitiesCheck
  | GroupCheck
  | ReadOnlyRootFilesystemCheck
  | UserCheck

fun GetType :: "check \<Rightarrow> string" where
  "GetType AllowPrivilegeEscalationCheck = ''allowPrivilegeEscalation''"
| "GetType DropAllCapabilitiesCheck = ''dropAllCapabilities''"
| "GetType GroupCheck = ''group''"
| "GetType ReadOnlyRootFilesystemCheck = ''readOnlyRootFilesystem''"
| "GetType UserCheck = ''user''"

lemma GetType_inj [simp]: "GetType c = GetType d \<longleftrightarrow> c = d"
  by (cases c; cases d) simp_all

subsection \<open>allowPrivilegeEscalation\<close>

definition AllowPrivilegeEscalation_Defaults :: "SecurityContextDefaults \<Rightarrow> crash + SecurityContextDefaults" where
  "AllowPrivilegeEscalation_Defaults base = (case sd_Container base of
     None \<Rightarrow> Inl NilDeref
   | Some c \<Rightarrow> Inr (base\<lparr>sd_Container :=
       Some (c\<lparr>cd_AllowPrivilegeEscalation := fill (cd_AllowPrivilegeEscalation c) (Some False)\<rparr>)\<rparr>))"

definition AllowPrivilegeEscalation_ShouldRun :: "PodSpec \<Rightarrow> bool" where
  "AllowPrivilegeEscalation_ShouldRun podSpec = list_ex (\<lambda>c. case ct_SecurityContext c of
     None \<Rightarrow> True
   | Some sc \<Rightarrow> (case sc_AllowPrivilegeEscalation sc of None \<Rightarrow> True | Some v \<Rightarrow> v)) (ps_Containers podSpec)"

subsection \<open>readOnlyRootFilesystem\<close>

definition ReadOnlyRootFilesystem_Defaults :: "SecurityContextDefaults \<Rightarrow> crash + SecurityContextDefaults" where
  "ReadOnlyRootFilesystem_Defaults base = (case sd_Container base of
     None \<Rightarrow> Inl NilDeref
   | Some c \<Rightarrow> Inr (base\<lparr>sd_Container :=
       Some (c\<lparr>cd_ReadOnlyRootFilesystem := fill (cd_ReadOnlyRootFilesystem c) (Some True)\<rparr>)\<rparr>))"

definition ReadOnlyRootFilesystem_ShouldRun :: "PodSpec \<Rightarrow> bool" where
  "ReadOnlyRootFilesystem_ShouldRun podSpec = list_ex (\<lambda>c. case ct_SecurityContext c of
     None \<Rightarrow> True
   | Some sc \<Rightarrow> (case sc_ReadOnlyRootFilesystem sc of None \<Rightarrow> True | Some v \<Rightarrow> \<not> v)) (ps_Containers podSpec)"

subsection \<open>user\<close>

definition User_Defaults :: "SecurityContextDefaults \<Rightarrow> crash + SecurityContextDefaults" where
  "User_Defaults base = (case sd_Pod base of None \<Rightarrow> Inl NilDeref | Some p \<Rightarrow>
     (case sd_Container base of None \<Rightarrow> Inl NilDeref | Some c \<Rightarrow>
       Inr (base\<lparr>sd_Pod := Some (p\<lparr>pd_RunAsUser := fill (pd_RunAsUser p) (Some 1000),
                     pd_RunAsNonRoot := fill (pd_RunAsNonRoot p) (Some True)\<rparr>),
                 sd_Container := Some (c\<lparr>cd_RunAsUser := fill (cd_RunAsUser c) (Some 1000),
                     cd_RunAsNonRoot := fill (cd_RunAsNonRoot c) (Some True)\<rparr>)\<rparr>)))"

definition User_ShouldRun :: "PodSpec \<Rightarrow> bool" where
  "User_ShouldRun podSpec = (case ps_SecurityContext podSpec of
     None \<Rightarrow> True
   | Some sc \<Rightarrow> psc_RunAsUser sc = None \<or> psc_RunAsNonRoot sc = None)"

subsection \<open>group\<close>

text \<open>Each step reads what the steps before it wrote.\<close>

definition Group_Defaults :: "SecurityContextDefaults \<Rightarrow> crash + SecurityContextDefaults" where
  "Group_Defaults base = (case sd_Pod base of None \<Rightarrow> Inl NilDeref | Some p \<Rightarrow>
     (let user = fill (pd_RunAsUser p) (Some 1000);
          grp = fill (pd_RunAsGroup p) user;
          fsg = fill (pd_FSGroup p) grp
      in case sd_Container base of None \<Rightarrow> Inl NilDeref | Some c \<Rightarrow>
        Inr (base\<lparr>sd_Pod := Some (p\<lparr>pd_RunAsUser := user, pd_RunAsGroup := grp, pd_FSGroup := fsg\<rparr>),
                  sd_Container := Some (c\<lparr>cd_RunAsUser := fill (cd_RunAsUser c) user,
                      cd_RunAsGroup := fill (cd_RunAsGroup c) grp\<rparr>)\<rparr>)))"

definition Group_ShouldRun :: "PodSpec \<Rightarrow> bool" where
  "Group_ShouldRun podSpec = (case ps_SecurityContext podSpec of
     None \<Rightarrow> True
   | Some sc \<Rightarrow> psc_RunAsGroup sc = None \<or> psc_FSGroup sc = None)"

subsection \<open>dropAllCapabilities and the registries\<close>

definition DropAllCapabilities_Defaults :: "SecurityContextDefaults \<Rightarrow> crash + SecurityContextDefaults" where
  "DropAllCapabilities_Defaults base = (case sd_Container base of
     None \<Rightarrow> Inl NilDeref
   | Some c \<Rightarrow> Inr (base\<lparr>sd_Container :=
       Some (c\<lparr>cd_CapabilitiesDrop := fill (cd_CapabilitiesDrop c) (Some [''ALL''])\<rparr>)\<rparr>))"

text \<open>The first loop of \<open>ShouldRun\<close>: some container drops nothing.\<close>

definition some_container_keeps_all :: "PodSpec \<Rightarrow> bool" where
  "some_container_keeps_all podSpec = list_ex (\<lambda>c. case ct_SecurityContext c of
     None \<Rightarrow> True
   | Some sc \<Rightarrow> (case sc_Capabilities sc of None \<Rightarrow> True
      | Some cap \<Rightarrow> slice_len (cap_Drop cap) = 0)) (ps_Containers podSpec)"

text \<open>The package-level maps \<open>checks\<close> and \<open>capabilityChecks\<close>.\<close>

record registry =
  reg_checks :: "(string \<times> check) list"
  reg_capabilityChecks :: "(string \<times> check) list"

definition RegisterCheck :: "check \<Rightarrow> registry \<Rightarrow> registry" where
  "RegisterCheck c r = r\<lparr>reg_checks := map_put (GetType c) c (reg_checks r)\<rparr>"

definition registerCapabilityCheck :: "check \<Rightarrow> registry \<Rightarrow> error option \<times> registry" where
  "registerCapabilityCheck c r =
     (if map_of (reg_capabilityChecks r) (GetType c) \<noteq> None
      then (Some (Errorf (''check of type '' @ GetType c @ '' already registered'') None), r)
      else (None, r\<lparr>reg_capabilityChecks := map_put (GetType c) c (reg_capabilityChecks r)\<rparr>))"

text \<open>
  The second loop asks every capability check and registers those that should run. A
  capability check is one of the other checks: no code registers \<open>DropAllCapabilitiesCheck\<close> as
  its own capability check, and its question is the first loop, already answered no.
\<close>

fun capability_ShouldRun :: "check \<Rightarrow> PodSpec \<Rightarrow> bool" where
  "capability_ShouldRun AllowPrivilegeEscalationCheck p = AllowPrivilegeEscalation_ShouldRun p"
| "capability_ShouldRun DropAllCapabilitiesCheck p = some_container_keeps_all p"
| "capability_ShouldRun GroupCheck p = Group_ShouldRun p"
| "capability_ShouldRun ReadOnlyRootFilesystemCheck p = ReadOnlyRootFilesystem_ShouldRun p"
| "capability_ShouldRun UserCheck p = User_ShouldRun p"

definition DropAllCapabilities_ShouldRun :: "registry \<Rightarrow> PodSpec \<Rightarrow> bool \<times> registry" where
  "DropAllCapabilities_ShouldRun r podSpec =
     (if some_container_keeps_all podSpec then (True, r)
      else (False, fold (\<lambda>(_, c) r. if capability_ShouldRun c podSpec then RegisterCheck c r else r)
                     (reg_capabilityChecks r) r))"

text \<open>The \<open>init\<close> functions of the package, in file order. Nothing registers a capability check.\<close>

definition init_registry :: registry where
  "init_registry = fold RegisterCheck
     [AllowPrivilegeEscalationCheck, DropAllCapabilitiesCheck, GroupCheck, ReadOnlyRootFilesystemCheck, UserCheck]
     \<lparr>reg_checks = [], reg_capabilityChecks = []\<rparr>"

definition GetAllChecks :: "registry \<Rightarrow> (string \<times> check) list" where
  "GetAllChecks r = reg_checks r"

subsection \<open>Dispatch on the interface\<close>

fun GetSecurityContextDefaults :: "check \<Rightarrow> SecurityContextDefaults \<Rightarrow> crash + SecurityContextDefaults" where
  "GetSecurityContextDefaults AllowPrivilegeEscalationCheck = AllowPrivilegeEscalation_Defaults"
| "GetSecurityContextDefaults DropAllCapabilitiesCheck = DropAllCapabilities_Defaults"
| "GetSecurityContextDefaults GroupCheck = Group_Defaults"
| "GetSecurityContextDefaults ReadOnlyRootFilesystemCheck = ReadOnlyRootFilesystem_Defaults"
| "GetSecurityContextDefaults UserCheck = User_Defaults"

text \<open>A nil pod spec is dereferenced by every check.\<close>

fun ShouldRun :: "check \<Rightarrow> PodSpec option \<Rightarrow> crash + bool" where
  "ShouldRun c None = Inl NilDeref"
| "ShouldRun DropAllCapabilitiesCheck (Some p) = Inr (fst (DropAllCapabilities_ShouldRun init_registry p))"
| "ShouldRun c (Some p) = Inr (capability_ShouldRun c p)"

lemma ShouldRun_Some [simp]: "ShouldRun c (Some p) = Inr (capability_ShouldRun c p)"
  by (cases c) (simp_all add: DropAllCapabilities_ShouldRun_def)

lemma reg_RegisterCheck [simp]: "reg_capabilityChecks (RegisterCheck c r) = reg_capabilityChecks r"
  by (simp add: RegisterCheck_def)

lemma init_registry_checks: "map_of (reg_checks init_registry) t = Some c \<longleftrightarrow> t = GetType c"
  by (cases c) (auto simp: init_registry_def RegisterCheck_def)

lemma init_registry_keys: "map fst (reg_checks init_registry) = map GetType
  [AllowPrivilegeEscalationCheck, DropAllCapabilitiesCheck, GroupCheck, ReadOnlyRootFilesystemCheck, UserCheck]"
  by (simp add: init_registry_def RegisterCheck_def)

lemma init_registry_no_capability_checks:
  "DropAllCapabilities_ShouldRun init_registry p = (some_container_keeps_all p, init_registry)"
  by (simp add: DropAllCapabilities_ShouldRun_def init_registry_def RegisterCheck_def)

section \<open>What a check promises\<close>

definition pd_keeps :: "PodSecurityContextDefaults \<Rightarrow> PodSecurityContextDefaults \<Rightarrow> bool" where
  "pd_keeps a b \<longleftrightarrow> kept (pd_FSGroup a) (pd_FSGroup b) \<and> kept (pd_RunAsUser a) (pd_RunAsUser b) \<and>
     kept (pd_RunAsGroup a) (pd_RunAsGroup b) \<and> kept (pd_RunAsNonRoot a) (pd_RunAsNonRoot b) \<and>
     pd_SupplementalGroups a = pd_SupplementalGroups b \<and> pd_SeccompProfile a = pd_SeccompProfile b"

definition cd_keeps :: "ContainerSecurityContextDefaults \<Rightarrow> ContainerSecurityContextDefaults \<Rightarrow> bool" where
  "cd_keeps a b \<longleftrightarrow> kept (cd_RunAsNonRoot a) (cd_RunAsNonRoot b) \<and>
     kept (cd_ReadOnlyRootFilesystem a) (cd_ReadOnlyRootFilesystem b) \<and>
     kept (cd_AllowPrivilegeEscalation a) (cd_AllowPrivilegeEscalation b) \<and>
     kept (cd_CapabilitiesDrop a) (cd_CapabilitiesDrop b) \<and> cd_SeccompProfile a = cd_SeccompProfile b \<and>
     kept (cd_RunAsUser a) (cd_RunAsUser b) \<and> kept (cd_RunAsGroup a) (cd_RunAsGroup b)"

definition sd_keeps :: "SecurityContextDefaults \<Rightarrow> SecurityContextDefaults \<Rightarrow> bool" where
  "sd_keeps a b \<longleftrightarrow> rel_option pd_keeps (sd_Pod a) (sd_Pod b) \<and> rel_option cd_keeps (sd_Container a) (sd_Container b)"

lemma pd_keeps_refl [simp]: "pd_keeps a a" by (simp add: pd_keeps_def)
lemma cd_keeps_refl [simp]: "cd_keeps a a" by (simp add: cd_keeps_def)

lemma pd_keeps_trans: "pd_keeps a b \<Longrightarrow> pd_keeps b c \<Longrightarrow> pd_keeps a c"
  by (auto simp: pd_keeps_def intro: kept_trans)

lemma cd_keeps_trans: "cd_keeps a b \<Longrightarrow> cd_keeps b c \<Longrightarrow> cd_keeps a c"
  by (auto simp: cd_keeps_def intro: kept_trans)

lemma sd_keeps_refl [simp]: "sd_keeps a a"
  by (simp add: sd_keeps_def option.rel_refl)

lemma sd_keeps_trans: "sd_keeps a b \<Longrightarrow> sd_keeps b c \<Longrightarrow> sd_keeps a c"
  by (auto simp: sd_keeps_def option_rel_Some1 option_rel_Some2 elim!: option.rel_cases
      intro: pd_keeps_trans cd_keeps_trans)

text \<open>Both parts are there: what \<open>GetSecurityContextForCheckType\<close> builds when the user gave nothing.\<close>

definition complete :: "SecurityContextDefaults \<Rightarrow> bool" where
  "complete sc \<longleftrightarrow> sd_Pod sc \<noteq> None \<and> sd_Container sc \<noteq> None"

text \<open>The pod template with a check's context applied, as \<open>ApplyCheckSecurityContext\<close> does.\<close>

abbreviation hardened :: "(nat \<Rightarrow> nat list) \<Rightarrow> SecurityContextDefaults \<Rightarrow> PodSpec \<Rightarrow> PodSpec" where
  "hardened \<sigma> sc p \<equiv> applySecurityContext \<sigma> p (sd_Container sc) (sd_Pod sc)"

text \<open>
  The contract of \<open>CheckInterface\<close>: the defaults of a check exist for a complete context, keep
  what the user chose, are stable, and, applied to a pod template, leave the check something
  to do exactly where the manifest or the user's defaults insist on the insecure value
  (\<open>pinned\<close>).
\<close>

locale hardening_check =
  fixes defaults :: "SecurityContextDefaults \<Rightarrow> crash + SecurityContextDefaults"
    and should_run :: "PodSpec \<Rightarrow> bool"
    and pinned :: "SecurityContextDefaults \<Rightarrow> PodSpec \<Rightarrow> bool"
  assumes total: "complete sc \<Longrightarrow> \<exists>sc'. defaults sc = Inr sc'"
    and keeps: "defaults sc = Inr sc' \<Longrightarrow> sd_keeps sc sc'"
    and stable: "defaults sc = Inr sc' \<Longrightarrow> defaults sc' = Inr sc'"
    and settles: "defaults sc = Inr sc' \<Longrightarrow> should_run (hardened \<sigma> sc' p) \<longleftrightarrow> pinned sc p"
begin

lemma complete_defaults: "complete sc \<Longrightarrow> defaults sc = Inr sc' \<Longrightarrow> complete sc'"
  using keeps [of sc sc'] by (auto simp: complete_def sd_keeps_def option.rel_sel)

text \<open>A base that comes out of another round of defaults is served again and keeps the first base.\<close>

lemma after_other:
  assumes "complete base" and "sd_keeps base base'"
  shows "\<exists>sc'. defaults base' = Inr sc' \<and> sd_keeps base sc'"
proof -
  from assms have "complete base'" by (auto simp: complete_def sd_keeps_def option.rel_sel)
  with total obtain sc' where "defaults base' = Inr sc'" by blast
  with keeps assms(2) show ?thesis by (blast intro: sd_keeps_trans)
qed

text \<open>With nothing pinned the check is done after one application.\<close>

lemma done_once: "defaults sc = Inr sc' \<Longrightarrow> \<not> pinned sc p \<Longrightarrow> \<not> should_run (hardened \<sigma> sc' p)"
  by (simp add: settles)

lemma pinned_stable: "defaults sc = Inr sc' \<Longrightarrow> pinned sc' p \<longleftrightarrow> pinned sc p"
  using settles [of sc sc'] settles [of sc' sc'] stable by blast

end

section \<open>The checks keep the contract\<close>

subsection \<open>Fields of a hardened template\<close>

abbreviation ct_field :: "(SecurityContext \<Rightarrow> 'a option) \<Rightarrow> Container \<Rightarrow> 'a option" where
  "ct_field f c \<equiv> Option.bind (ct_SecurityContext c) f"

abbreviation sd_field :: "(ContainerSecurityContextDefaults \<Rightarrow> 'a option) \<Rightarrow> SecurityContextDefaults \<Rightarrow> 'a option" where
  "sd_field f sc \<equiv> Option.bind (sd_Container sc) f"

lemma ct_field_applyContainer [simp]:
  "ct_field sc_AllowPrivilegeEscalation (applyContainer \<tau> (ContainerDefaults_ToK8s d) c) =
     fill (ct_field sc_AllowPrivilegeEscalation c) (Option.bind d cd_AllowPrivilegeEscalation)"
  "ct_field sc_ReadOnlyRootFilesystem (applyContainer \<tau> (ContainerDefaults_ToK8s d) c) =
     fill (ct_field sc_ReadOnlyRootFilesystem c) (Option.bind d cd_ReadOnlyRootFilesystem)"
  by (auto simp: applyContainer_merge mergeContainerSecurityContexts_def defaults_defs split: option.splits)

lemma drops_ToK8s:
  "drops (Option.bind (ContainerDefaults_ToK8s d) sc_Capabilities) =
     (case Option.bind d cd_CapabilitiesDrop of None \<Rightarrow> {} | Some xs \<Rightarrow> set xs)"
  by (auto simp: defaults_defs split: option.splits)

lemma drops_applyContainer [simp]:
  "drops (ct_field sc_Capabilities (applyContainer \<tau> sc c)) =
     drops (ct_field sc_Capabilities c) \<union> drops (Option.bind sc sc_Capabilities)"
proof (cases "ct_SecurityContext c")
  case None
  then show ?thesis by (simp add: applyContainer_merge container.nil_base del: drops_simps(2))
next
  case (Some b)
  then show ?thesis
    by (cases sc) (simp_all add: applyContainer_merge mergeContainerSecurityContexts_def del: drops_simps(2))
qed

lemma list_ex_applyContainers:
  assumes "\<And>\<tau> c. P (applyContainer \<tau> sc c) \<longleftrightarrow> P' c"
  shows "list_ex P (applyContainers \<sigma> n sc cs) \<longleftrightarrow> list_ex P' cs"
  unfolding list_ex_iff ex_applyContainers by (auto simp: assms in_set_conv_nth) (metis nth_mem)

lemma hardened_Containers [simp]:
  "ps_Containers (hardened \<sigma> sc p) = applyContainers \<sigma> 0 (ContainerDefaults_ToK8s (sd_Container sc)) (ps_Containers p)"
  by (simp add: applySecurityContext_def)

lemma hardened_pod:
  "ps_SecurityContext (hardened \<sigma> sc p) = mergePodSecurityContexts (ps_SecurityContext p) (PodDefaults_ToK8s (sd_Pod sc))"
  by (simp add: applySecurityContext_def applyContexts_pod)

lemma ShouldRun_fields:
  "AllowPrivilegeEscalation_ShouldRun p \<longleftrightarrow> list_ex (\<lambda>c. ct_field sc_AllowPrivilegeEscalation c \<noteq> Some False) (ps_Containers p)"
  "ReadOnlyRootFilesystem_ShouldRun p \<longleftrightarrow> list_ex (\<lambda>c. ct_field sc_ReadOnlyRootFilesystem c \<noteq> Some True) (ps_Containers p)"
  "some_container_keeps_all p \<longleftrightarrow> list_ex (\<lambda>c. drops (ct_field sc_Capabilities c) = {}) (ps_Containers p)"
  unfolding AllowPrivilegeEscalation_ShouldRun_def ReadOnlyRootFilesystem_ShouldRun_def some_container_keeps_all_def
  by (rule list_ex_cong [OF refl]; auto split: option.splits)+

subsection \<open>Interpretations\<close>

text \<open>Some container, or the user's defaults for it, ask for escalation.\<close>

definition escalation_pinned :: "SecurityContextDefaults \<Rightarrow> PodSpec \<Rightarrow> bool" where
  "escalation_pinned sc p \<longleftrightarrow> list_ex (\<lambda>c.
     fill (ct_field sc_AllowPrivilegeEscalation c) (sd_field cd_AllowPrivilegeEscalation sc) = Some True) (ps_Containers p)"

definition writable_pinned :: "SecurityContextDefaults \<Rightarrow> PodSpec \<Rightarrow> bool" where
  "writable_pinned sc p \<longleftrightarrow> list_ex (\<lambda>c.
     fill (ct_field sc_ReadOnlyRootFilesystem c) (sd_field cd_ReadOnlyRootFilesystem sc) = Some False) (ps_Containers p)"

text \<open>The user's defaults drop the empty list of capabilities, and so does some container.\<close>

definition capabilities_pinned :: "SecurityContextDefaults \<Rightarrow> PodSpec \<Rightarrow> bool" where
  "capabilities_pinned sc p \<longleftrightarrow> sd_field cd_CapabilitiesDrop sc = Some [] \<and> some_container_keeps_all p"

lemma escalation_settles:
  assumes "AllowPrivilegeEscalation_Defaults sc = Inr sc'"
  shows "AllowPrivilegeEscalation_ShouldRun (hardened \<sigma> sc' p) \<longleftrightarrow> escalation_pinned sc p"
proof -
  from assms have f: "sd_field cd_AllowPrivilegeEscalation sc' = fill (sd_field cd_AllowPrivilegeEscalation sc) (Some False)"
    by (auto simp: AllowPrivilegeEscalation_Defaults_def split: option.splits)
  have *: "fill a (fill b (Some False)) \<noteq> Some False \<longleftrightarrow> fill a b = Some True" for a b
    by (cases a; cases b) auto
  show ?thesis
    unfolding ShouldRun_fields escalation_pinned_def hardened_Containers
    by (rule list_ex_applyContainers) (simp add: f *)
qed

lemma writable_settles:
  assumes "ReadOnlyRootFilesystem_Defaults sc = Inr sc'"
  shows "ReadOnlyRootFilesystem_ShouldRun (hardened \<sigma> sc' p) \<longleftrightarrow> writable_pinned sc p"
proof -
  from assms have f: "sd_field cd_ReadOnlyRootFilesystem sc' = fill (sd_field cd_ReadOnlyRootFilesystem sc) (Some True)"
    by (auto simp: ReadOnlyRootFilesystem_Defaults_def split: option.splits)
  have *: "fill a (fill b (Some True)) \<noteq> Some True \<longleftrightarrow> fill a b = Some False" for a b
    by (cases a; cases b) auto
  show ?thesis
    unfolding ShouldRun_fields writable_pinned_def hardened_Containers
    by (rule list_ex_applyContainers) (simp add: f *)
qed

lemma capabilities_settles:
  assumes "DropAllCapabilities_Defaults sc = Inr sc'"
  shows "some_container_keeps_all (hardened \<sigma> sc' p) \<longleftrightarrow> capabilities_pinned sc p"
proof -
  from assms have f: "sd_field cd_CapabilitiesDrop sc' = fill (sd_field cd_CapabilitiesDrop sc) (Some [''ALL''])"
    by (auto simp: DropAllCapabilities_Defaults_def split: option.splits)
  have *: "drops (Option.bind (ContainerDefaults_ToK8s (sd_Container sc')) sc_Capabilities) = {} \<longleftrightarrow>
      sd_field cd_CapabilitiesDrop sc = Some []"
    unfolding drops_ToK8s f by (cases "sd_field cd_CapabilitiesDrop sc") auto
  have "some_container_keeps_all (hardened \<sigma> sc' p) \<longleftrightarrow>
      list_ex (\<lambda>c. sd_field cd_CapabilitiesDrop sc = Some [] \<and> drops (ct_field sc_Capabilities c) = {}) (ps_Containers p)"
    unfolding ShouldRun_fields hardened_Containers
    by (rule list_ex_applyContainers) (simp add: * conj_commute)
  then show ?thesis by (auto simp: capabilities_pinned_def ShouldRun_fields list_ex_iff)
qed

lemma user_settles:
  assumes "User_Defaults sc = Inr sc'"
  shows "\<not> User_ShouldRun (hardened \<sigma> sc' p)"
  using assms
  by (auto simp: User_Defaults_def User_ShouldRun_def hardened_pod mergePodSecurityContexts_def defaults_defs
      split: option.splits)

lemma group_settles:
  assumes "Group_Defaults sc = Inr sc'"
  shows "\<not> Group_ShouldRun (hardened \<sigma> sc' p)"
  using assms
  by (auto simp: Group_Defaults_def Group_ShouldRun_def hardened_pod mergePodSecurityContexts_def defaults_defs Let_def
      split: option.splits)

lemmas check_defaults_defs = AllowPrivilegeEscalation_Defaults_def ReadOnlyRootFilesystem_Defaults_def
  DropAllCapabilities_Defaults_def User_Defaults_def Group_Defaults_def complete_def sd_keeps_def pd_keeps_def cd_keeps_def

interpretation escalation: hardening_check AllowPrivilegeEscalation_Defaults AllowPrivilegeEscalation_ShouldRun escalation_pinned
  by unfold_locales (auto simp: check_defaults_defs escalation_settles option.rel_refl split: option.splits)

interpretation readonly: hardening_check ReadOnlyRootFilesystem_Defaults ReadOnlyRootFilesystem_ShouldRun writable_pinned
  by unfold_locales (auto simp: check_defaults_defs writable_settles option.rel_refl split: option.splits)

interpretation capabilities: hardening_check DropAllCapabilities_Defaults some_container_keeps_all capabilities_pinned
  by unfold_locales (auto simp: check_defaults_defs capabilities_settles option.rel_refl split: option.splits)

interpretation user: hardening_check User_Defaults User_ShouldRun "\<lambda>_ _. False"
  by unfold_locales (auto simp: check_defaults_defs user_settles option.rel_refl split: option.splits)

interpretation grp: hardening_check Group_Defaults Group_ShouldRun "\<lambda>_ _. False"
  by unfold_locales (auto simp: check_defaults_defs group_settles option.rel_refl Let_def split: option.splits)

text \<open>The same facts for the dispatching functions.\<close>

fun pinned :: "check \<Rightarrow> SecurityContextDefaults \<Rightarrow> PodSpec \<Rightarrow> bool" where
  "pinned AllowPrivilegeEscalationCheck sc p = escalation_pinned sc p"
| "pinned DropAllCapabilitiesCheck sc p = capabilities_pinned sc p"
| "pinned GroupCheck sc p = False"
| "pinned ReadOnlyRootFilesystemCheck sc p = writable_pinned sc p"
| "pinned UserCheck sc p = False"

lemma hardening_check_dispatch: "hardening_check (GetSecurityContextDefaults c) (capability_ShouldRun c) (pinned c)"
proof (cases c)
  case AllowPrivilegeEscalationCheck
  have "capability_ShouldRun c = AllowPrivilegeEscalation_ShouldRun" "pinned c = escalation_pinned"
    by (simp_all add: AllowPrivilegeEscalationCheck fun_eq_iff)
  then show ?thesis using escalation.hardening_check_axioms by (simp add: AllowPrivilegeEscalationCheck)
next
  case DropAllCapabilitiesCheck
  have "capability_ShouldRun c = some_container_keeps_all" "pinned c = capabilities_pinned"
    by (simp_all add: DropAllCapabilitiesCheck fun_eq_iff)
  then show ?thesis using capabilities.hardening_check_axioms by (simp add: DropAllCapabilitiesCheck)
next
  case GroupCheck
  have "capability_ShouldRun c = Group_ShouldRun" "pinned c = (\<lambda>_ _. False)"
    by (simp_all add: GroupCheck fun_eq_iff)
  then show ?thesis using grp.hardening_check_axioms by (simp add: GroupCheck)
next
  case ReadOnlyRootFilesystemCheck
  have "capability_ShouldRun c = ReadOnlyRootFilesystem_ShouldRun" "pinned c = writable_pinned"
    by (simp_all add: ReadOnlyRootFilesystemCheck fun_eq_iff)
  then show ?thesis using readonly.hardening_check_axioms by (simp add: ReadOnlyRootFilesystemCheck)
next
  case UserCheck
  have "capability_ShouldRun c = User_ShouldRun" "pinned c = (\<lambda>_ _. False)"
    by (simp_all add: UserCheck fun_eq_iff)
  then show ?thesis using user.hardening_check_axioms by (simp add: UserCheck)
qed

interpretation checks: hardening_check "GetSecurityContextDefaults c" "capability_ShouldRun c" "pinned c" for c
  by (rule hardening_check_dispatch)

section \<open>Properties\<close>

text \<open>C22: a check that is run with its defaults has nothing left to do. \<open>sc'\<close> are the defaults of
  check \<open>c\<close> over the user's \<open>sc\<close>; on the workload with \<open>sc'\<close> applied, \<open>ShouldRun\<close> answers yes exactly where
  the manifest or the user's defaults insist on the insecure value (\<open>pinned\<close>), and never for
  the user and group checks.\<close>

theorem check_settles:
  assumes "GetSecurityContextDefaults c sc = Inr sc'" and "podSpecTemplate w = Some p"
  shows "\<exists>w'. ApplyCheckSecurityContext \<sigma> w (sd_Container sc') (sd_Pod sc') = Inr w' \<and>
    ShouldRun c (podSpecTemplate w') = Inr (pinned c sc p)"
  using assms checks.settles [OF assms(1)] by (auto simp: ApplyCheckSecurityContext_def)

definition no_defaults :: SecurityContextDefaults where
  "no_defaults = \<lparr>sd_Pod = Some empty_pd, sd_Container = Some empty_cd\<rparr>"

lemma no_defaults_user: "GetSecurityContextDefaults UserCheck no_defaults =
  Inr \<lparr>sd_Pod = Some (empty_pd\<lparr>pd_RunAsUser := Some 1000, pd_RunAsNonRoot := Some True\<rparr>),
       sd_Container = Some (empty_cd\<lparr>cd_RunAsUser := Some 1000, cd_RunAsNonRoot := Some True\<rparr>)\<rparr>"
  by (simp add: User_Defaults_def no_defaults_def empty_pd_def empty_cd_def)

lemma check_settles_witness:
  "ShouldRun UserCheck (podSpecTemplate (WDeployment root_deployment)) = Inr True \<and>
   (\<exists>w'. ApplyCheckSecurityContext (\<lambda>_. []) (WDeployment root_deployment)
       (Some (empty_cd\<lparr>cd_RunAsUser := Some 1000, cd_RunAsNonRoot := Some True\<rparr>))
       (Some (empty_pd\<lparr>pd_RunAsUser := Some 1000, pd_RunAsNonRoot := Some True\<rparr>)) = Inr w' \<and>
     ShouldRun UserCheck (podSpecTemplate w') = Inr False)"
  using check_settles [OF no_defaults_user, of "WDeployment root_deployment" "dep_PodSpec root_deployment" "\<lambda>_. []"]
  by (simp add: root_deployment_def User_ShouldRun_def)

text \<open>The defaults of every check exist for a context whose pod and container part are there
  (a nil part is the only way to a panic), keep each value the user chose, and are
  idempotent: defaults of defaults add nothing.\<close>

theorem check_defaults_keep:
  "\<exists>sc'. GetSecurityContextDefaults c \<lparr>sd_Pod = Some p, sd_Container = Some k\<rparr> = Inr sc' \<and>
     sd_keeps \<lparr>sd_Pod = Some p, sd_Container = Some k\<rparr> sc' \<and> GetSecurityContextDefaults c sc' = Inr sc'"
  using checks.total [of "\<lparr>sd_Pod = Some p, sd_Container = Some k\<rparr>" c]
  by (auto simp: complete_def intro: checks.keeps checks.stable)

text \<open>Registering a check makes its type find it and changes no other entry, and the registry
  the package's \<open>init\<close> functions leave finds exactly the five checks, each once and under its own type.\<close>

theorem registry_finds:
  "map_of (GetAllChecks (RegisterCheck c r)) = (map_of (GetAllChecks r))(GetType c \<mapsto> c) \<and>
   (map_of (GetAllChecks init_registry) t = Some d \<longleftrightarrow> t = GetType d) \<and>
   distinct (map fst (GetAllChecks init_registry))"
  by (simp add: GetAllChecks_def RegisterCheck_def init_registry_checks init_registry_keys)

end
