(* ===== verification/Durations.thy ===== *)
theory Durations
  imports ApiTypes
begin

text \<open>
  \<open>time.ParseDuration\<close> of the Go standard library, which \<open>GetCheckDuration\<close> uses. Durations are
  nanoseconds; the accumulators are Go's \<open>uint64\<close> with its overflow checks. A fraction is scaled
  by exact division where Go multiplies floating-point numbers.
\<close>

definition is_digit :: "char \<Rightarrow> bool" where
  "is_digit c \<longleftrightarrow> (48 \<le> (of_char c :: nat) \<and> (of_char c :: nat) \<le> 57)"

definition digit_val :: "char \<Rightarrow> nat" where
  "digit_val c = of_char c - 48"

fun leadingInt :: "nat \<Rightarrow> string \<Rightarrow> (nat \<times> string) option" where
  "leadingInt x [] = Some (x, [])"
| "leadingInt x (c # s) =
     (if \<not> is_digit c then Some (x, c # s)
      else if x > 2 ^ 63 div 10 then None
      else if x * 10 + digit_val c > 2 ^ 63 then None
      else leadingInt (x * 10 + digit_val c) s)"

fun leadingFraction :: "nat \<Rightarrow> nat \<Rightarrow> bool \<Rightarrow> string \<Rightarrow> nat \<times> nat \<times> string" where
  "leadingFraction x scale overflow [] = (x, scale, [])"
| "leadingFraction x scale overflow (c # s) =
     (if \<not> is_digit c then (x, scale, c # s)
      else if overflow \<or> x > (2 ^ 63 - 1) div 10 \<or> x * 10 + digit_val c > 2 ^ 63 then leadingFraction x scale True s
      else leadingFraction (x * 10 + digit_val c) (scale * 10) False s)"

definition unitMap :: "string \<Rightarrow> nat option" where
  "unitMap u = map_of [(''ns'', 1), (''us'', 1000), (''ms'', 1000000), (''s'', 1000000000),
     (''m'', 60000000000), (''h'', 3600000000000)] u"

lemma length_leadingInt: "leadingInt x s = Some (y, t) \<Longrightarrow> length t \<le> length s"
proof (induction x s rule: leadingInt.induct)
  case (2 x c s)
  then show ?case by (fastforce split: if_splits)
qed simp

lemma length_leadingFraction: "leadingFraction x sc ov s = (y, sc', t) \<Longrightarrow> length t \<le> length s"
proof (induction x sc ov s rule: leadingFraction.induct)
  case (2 x scale overflow c s)
  then show ?case by (fastforce split: if_splits)
qed simp

abbreviation dot :: char where "dot \<equiv> CHR ''.''"

definition unit_char :: "char \<Rightarrow> bool" where
  "unit_char c \<longleftrightarrow> c \<noteq> dot \<and> \<not> is_digit c"

definition invalid_duration :: error where
  "invalid_duration = Errorf ''time: invalid duration'' None"

text \<open>The optional fraction after the integer part.\<close>

definition fraction :: "string \<Rightarrow> nat \<times> nat \<times> bool \<times> string" where
  "fraction s = (case s of
     c # t \<Rightarrow> (if c = dot then (case leadingFraction 0 1 False t of (f, scale, r) \<Rightarrow> (f, scale, length r \<noteq> length t, r))
               else (0, 1, False, s))
   | [] \<Rightarrow> (0, 1, False, s))"

lemma length_fraction: "fraction s = (f, sc, p, t) \<Longrightarrow> length t \<le> length s"
  by (auto simp: fraction_def split: list.splits if_splits prod.splits dest!: length_leadingFraction)

text \<open>The loop over the number-unit pairs, \<open>d\<close> the sum so far.\<close>

function parse_units :: "nat \<Rightarrow> string \<Rightarrow> error + nat" where
  "parse_units d s =
     (if s = [] then Inr d
      else if \<not> (hd s = dot \<or> is_digit (hd s)) then Inl invalid_duration
      else case leadingInt 0 s of None \<Rightarrow> Inl invalid_duration | Some (v, s1) \<Rightarrow>
        (case fraction s1 of (f, scale, post, s2) \<Rightarrow>
          if length s1 = length s \<and> \<not> post then Inl invalid_duration
          else let u = takeWhile unit_char s2; s3 = dropWhile unit_char s2 in
            if u = [] then Inl invalid_duration
            else case unitMap u of None \<Rightarrow> Inl invalid_duration | Some unit \<Rightarrow>
              if v > 2 ^ 63 div unit then Inl invalid_duration
              else let v' = (if f > 0 then v * unit + f * unit div scale else v * unit);
                       d' = (d + v') mod 2 ^ 64
                in if f > 0 \<and> v' > 2 ^ 63 then Inl invalid_duration
                   else if d' > 2 ^ 63 then Inl invalid_duration
                   else parse_units d' s3))"
  by pat_completeness auto
termination
proof (relation "measure (\<lambda>(d, s). length s)", goal_cases)
  case (2 d s a v s1 f y scale z post s2 u s3 unit v' d')
  then have "length s1 \<le> length s" "length s2 \<le> length s1" "u \<noteq> []"
    by (auto dest: length_leadingInt length_fraction [OF sym])
  moreover have "length u + length s3 = length s2"
    using 2 by (metis length_append takeWhile_dropWhile_id)
  ultimately show ?case by (cases u) auto
qed simp

declare parse_units.simps [simp del]

definition ParseDuration :: "string \<Rightarrow> error + int" where
  "ParseDuration s =
     (let neg = (s \<noteq> [] \<and> hd s = CHR ''-'');
          r = (if s \<noteq> [] \<and> (hd s = CHR ''-'' \<or> hd s = CHR ''+'') then tl s else s)
      in if r = ''0'' then Inr 0
         else if r = [] then Inl invalid_duration
         else case parse_units 0 r of
             Inl e \<Rightarrow> Inl e
           | Inr d \<Rightarrow> if neg then Inr (- int d)
               else if d > 2 ^ 63 - 1 then Inl invalid_duration
               else Inr (int d))"

section \<open>The durations the CRD admits\<close>

text \<open>The value of a digit string, and the strings of the pattern \<open>^\<backslash>d+[smh]$\<close>.\<close>

definition digits_val :: "string \<Rightarrow> nat" where
  "digits_val ds = foldl (\<lambda>x c. x * 10 + digit_val c) 0 ds"

lemma foldl_digits_ge: "x \<le> foldl (\<lambda>x c. x * 10 + digit_val c) x ds"
proof (induction ds arbitrary: x)
  case (Cons c ds)
  have "x \<le> x * 10 + digit_val c" by simp
  also have "\<dots> \<le> foldl (\<lambda>x c. x * 10 + digit_val c) (x * 10 + digit_val c) ds" by (rule Cons.IH)
  finally show ?case by simp
qed simp

lemma leadingInt_digits:
  assumes "list_all is_digit ds" and "foldl (\<lambda>x c. x * 10 + digit_val c) x ds \<le> 2 ^ 63"
    and "s = [] \<or> \<not> is_digit (hd s)"
  shows "leadingInt x (ds @ s) = Some (foldl (\<lambda>x c. x * 10 + digit_val c) x ds, s)"
  using assms
proof (induction ds arbitrary: x)
  case Nil
  then show ?case by (cases s) auto
next
  case (Cons c ds)
  have "x * 10 + digit_val c \<le> 2 ^ 63"
    using foldl_digits_ge [of "x * 10 + digit_val c" ds] Cons.prems by simp
  moreover from this have "x \<le> 2 ^ 63 div 10" by simp
  ultimately show ?case using Cons by simp
qed

lemma ParseDuration_crd:
  assumes ds: "ds \<noteq> []" "list_all is_digit ds"
    and u: "unitMap [c] = Some k" "unit_char c" and bound: "digits_val ds * k < 2 ^ 63"
  shows "ParseDuration (ds @ [c]) = Inr (int (digits_val ds * k))"
proof -
  have k: "k \<ge> 1" using u(1) by (auto simp: unitMap_def split: if_splits)
  have v63: "digits_val ds < 2 ^ 63"
  proof -
    have "digits_val ds * 1 \<le> digits_val ds * k" using k by (rule mult_le_mono2)
    then have "digits_val ds \<le> digits_val ds * k" by (simp only: mult_1_right)
    then show ?thesis using bound by (rule le_less_trans)
  qed
  have c: "\<not> is_digit c" "c \<noteq> dot" using u(2) by (auto simp: unit_char_def)
  have hd: "is_digit (hd ds)" using ds by (cases ds) auto
  have lead: "leadingInt 0 (ds @ [c]) = Some (digits_val ds, [c])"
    using leadingInt_digits [of ds 0 "[c]"] ds(2) v63 c(1) by (simp add: digits_val_def)
  have "digits_val ds \<le> 2 ^ 63 div k"
    using bound k by (simp add: less_eq_div_iff_mult_less_eq)
  then have "parse_units 0 (ds @ [c]) = parse_units (digits_val ds * k) []"
    using ds hd lead c u bound
    by (subst parse_units.simps) (simp add: fraction_def unit_char_def Let_def)
  then have units: "parse_units 0 (ds @ [c]) = Inr (digits_val ds * k)"
    by (simp add: parse_units.simps)
  have sign: "hd (ds @ [c]) \<noteq> CHR ''-''" "hd (ds @ [c]) \<noteq> CHR ''+''"
    using ds(1) hd by (auto simp: is_digit_def)
  have not0: "ds @ [c] \<noteq> ''0''"
    using ds(1) c by (cases ds) auto
  show ?thesis
    unfolding ParseDuration_def Let_def using sign not0 units bound ds(1) by auto
qed

text \<open>Beyond the range of a duration the string is refused.\<close>

lemma leadingInt_overflow:
  assumes "list_all is_digit ds" and "foldl (\<lambda>x c. x * 10 + digit_val c) x ds > 2 ^ 63" and "x \<le> 2 ^ 63"
  shows "leadingInt x (ds @ s) = None"
  using assms
proof (induction ds arbitrary: x)
  case Nil
  then show ?case by simp
next
  case (Cons c ds)
  show ?case
  proof (cases "x > 2 ^ 63 div 10 \<or> x * 10 + digit_val c > 2 ^ 63")
    case True
    with Cons.prems(1) show ?thesis by auto
  next
    case False
    with Cons show ?thesis by auto
  qed
qed

lemma ParseDuration_crd_overflow:
  assumes ds: "ds \<noteq> []" "list_all is_digit ds"
    and u: "unitMap [c] = Some k" "unit_char c" and bound: "digits_val ds * k \<ge> 2 ^ 63"
  shows "ParseDuration (ds @ [c]) = Inl invalid_duration"
proof -
  have k: "k \<ge> 1" using u(1) by (auto simp: unitMap_def split: if_splits)
  have c: "\<not> is_digit c" "c \<noteq> dot" using u(2) by (auto simp: unit_char_def)
  have hd: "is_digit (hd ds)" using ds by (cases ds) auto
  have units: "parse_units 0 (ds @ [c]) = Inl invalid_duration \<or> parse_units 0 (ds @ [c]) = Inr (2 ^ 63)"
  proof (cases "digits_val ds > 2 ^ 63")
    case True
    then have "leadingInt 0 (ds @ [c]) = None"
      using ds(2) by (intro leadingInt_overflow) (simp_all add: digits_val_def)
    with ds hd show ?thesis by (subst parse_units.simps) simp
  next
    case False
    then have lead: "leadingInt 0 (ds @ [c]) = Some (digits_val ds, [c])"
      using leadingInt_digits [of ds 0 "[c]"] ds(2) c(1) by (simp add: digits_val_def)
    show ?thesis
    proof (cases "digits_val ds * k > 2 ^ 63")
      case True
      with k have "digits_val ds > 2 ^ 63 div k"
        by (meson leD leI less_eq_div_iff_mult_less_eq less_le_trans zero_less_one)
      with ds hd lead c u show ?thesis
        by (subst parse_units.simps) (simp add: fraction_def unit_char_def Let_def)
    next
      case False
      with bound have eq: "digits_val ds * k = 2 ^ 63" by simp
      with k have "\<not> digits_val ds > 2 ^ 63 div k"
        by (metis leD le_refl less_eq_div_iff_mult_less_eq less_le_trans zero_less_one)
      with ds hd lead c u eq have "parse_units 0 (ds @ [c]) = parse_units (2 ^ 63) []"
        by (subst parse_units.simps) (simp add: fraction_def unit_char_def Let_def)
      then show ?thesis by (simp add: parse_units.simps)
    qed
  qed
  have sign: "hd (ds @ [c]) \<noteq> CHR ''-''" "hd (ds @ [c]) \<noteq> CHR ''+''"
    using ds(1) hd by (auto simp: is_digit_def)
  have not0: "ds @ [c] \<noteq> ''0''" using ds(1) c by (cases ds) auto
  from units show ?thesis
    unfolding ParseDuration_def Let_def using sign not0 ds(1) by (elim disjE) simp_all
qed

lemma parse_units_bound: "parse_units d s = Inr d' \<Longrightarrow> d \<le> 2 ^ 63 \<Longrightarrow> d' \<le> 2 ^ 63"
proof (induction d s rule: parse_units.induct)
  case (1 d s)
  from "1.prems" show ?case
    by (subst (asm) parse_units.simps)
      (simp only: Let_def split: if_splits option.splits prod.splits sum.splits, (use "1.IH" in \<open>auto simp: Let_def\<close>)+)
qed

section \<open>Adding durations\<close>

text \<open>Go's \<open>+\<close> on \<open>time.Duration\<close>, which wraps.\<close>

definition duration_add :: "int \<Rightarrow> int \<Rightarrow> int" where
  "duration_add a b = sint (word_of_int (a + b) :: int64)"

lemma duration_add_eq: "- (2 ^ 63) \<le> a + b \<Longrightarrow> a + b < 2 ^ 63 \<Longrightarrow> duration_add a b = a + b"
  unfolding duration_add_def int_word_sint by simp

lemma duration_add_wraps: "2 ^ 63 \<le> a + b \<Longrightarrow> a + b < 2 ^ 64 \<Longrightarrow> duration_add a b = a + b - 2 ^ 64"
  unfolding duration_add_def int_word_sint by (simp add: mod_pos_geq)

section \<open>Properties\<close>


lemma ParseDuration_five_minutes: "ParseDuration ''5m'' = Inr 300000000000"
  using ParseDuration_crd [of "''5''" "CHR ''m''" 60000000000]
  by (simp add: is_digit_def digit_val_def digits_val_def unitMap_def unit_char_def)


end
