(* ===== verification/Prog.thy ===== *)
theory Prog
  imports Prelude
begin

text \<open>
  Effectful Go code as interaction trees. A program returns, crashes, or issues a call to the
  outside (the API server, the key-value store, the clock, the random source, the scheduler
  that starts goroutines) and continues with the answer. Nothing is said here about how a call
  is answered: a statement about \<open>drive\<close> holds for every sequence of answers, a statement
  about \<open>run\<close> names what it assumes of the handler that answers.

  Calls are the points where other goroutines can act, so a tree keeps exactly the points
  of interleaving of the Go code.
\<close>

section \<open>Programs\<close>

datatype ('c, 'r, 'a) prog =
    Ret 'a
  | Crash crash
  | Call 'c "'r \<Rightarrow> ('c, 'r, 'a) prog"

text \<open>Sequencing: run the first program, hand its result to the second.\<close>

primrec pbind :: "('c, 'r, 'a) prog \<Rightarrow> ('a \<Rightarrow> ('c, 'r, 'b) prog) \<Rightarrow> ('c, 'r, 'b) prog" where
  "pbind (Ret a) f = f a"
| "pbind (Crash e) f = Crash e"
| "pbind (Call c k) f = Call c (\<lambda>r. pbind (k r) f)"

lemma pbind_Ret [simp]: "pbind p Ret = p"
  by (induction p) auto

lemma pbind_assoc: "pbind (pbind p f) g = pbind p (\<lambda>a. pbind (f a) g)"
  by (induction p) auto

text \<open>A computation that may panic, inside a program.\<close>

definition lift_go :: "crash + 'a \<Rightarrow> ('c, 'r, 'a) prog" where
  "lift_go x = (case x of Inl e \<Rightarrow> Crash e | Inr a \<Rightarrow> Ret a)"

lemma lift_go_simps [simp]: "lift_go (Inl e) = Crash e" "lift_go (Inr a) = Ret a"
  by (simp_all add: lift_go_def)

text \<open>A \<open>for ... range\<close> loop over a list, with the loop's variables as an accumulator.\<close>

primrec pfold :: "('x \<Rightarrow> 's \<Rightarrow> ('c, 'r, 's) prog) \<Rightarrow> 'x list \<Rightarrow> 's \<Rightarrow> ('c, 'r, 's) prog" where
  "pfold f [] s = Ret s"
| "pfold f (x # xs) s = pbind (f x s) (pfold f xs)"

lemma pfold_append: "pfold f (xs @ ys) s = pbind (pfold f xs s) (pfold f ys)"
proof (induction xs arbitrary: s)
  case (Cons x xs)
  have "pfold f (xs @ ys) = (\<lambda>a. pbind (pfold f xs a) (pfold f ys))"
    by (rule ext) (rule Cons.IH)
  then show ?case by (simp add: pbind_assoc)
qed simp

section \<open>Feeding answers\<close>

datatype ('c, 'a) outcome = Returned 'a | Crashed crash | Waiting 'c

text \<open>
  \<open>drive p rs\<close> feeds the answers \<open>rs\<close> one by one: the log of the calls with their answers, and
  what became of the program (\<open>Waiting c\<close>: it issued \<open>c\<close> and the answers have run out).
\<close>

primrec drive :: "('c, 'r, 'a) prog \<Rightarrow> 'r list \<Rightarrow> ('c \<times> 'r) list \<times> ('c, 'a) outcome" where
  "drive (Ret a) = (\<lambda>rs. ([], Returned a))"
| "drive (Crash e) = (\<lambda>rs. ([], Crashed e))"
| "drive (Call c k) = (\<lambda>rs. case rs of [] \<Rightarrow> ([], Waiting c)
     | r # rs' \<Rightarrow> (case drive (k r) rs' of (l, out) \<Rightarrow> ((c, r) # l, out)))"

lemma fst_log: "fst (case p of (l, x) \<Rightarrow> (y # l, x)) = y # fst p"
  "fst (case p of (l, x) \<Rightarrow> (y # z # l, x)) = y # z # fst p"
  by (simp_all add: case_prod_beta)

text \<open>Every call the program issues while it is fed \<open>rs\<close>, the unanswered last one included.\<close>

definition issued :: "('c, 'r, 'a) prog \<Rightarrow> 'r list \<Rightarrow> 'c list" where
  "issued p rs = (case drive p rs of (l, out) \<Rightarrow>
     map fst l @ (case out of Waiting c \<Rightarrow> [c] | _ \<Rightarrow> []))"

lemma issued_simps [simp]:
  "issued (Ret a) rs = []"
  "issued (Crash e) rs = []"
  "issued (Call c k) [] = [c]"
  "issued (Call c k) (r # rs) = c # issued (k r) rs"
  by (auto simp: issued_def split: prod.splits)

section \<open>Handlers\<close>

text \<open>A handler is an environment with a state: it answers a call and moves on.\<close>

type_synonym ('c, 'r, 'w) handler = "'c \<Rightarrow> 'w \<Rightarrow> 'r \<times> 'w"

primrec run :: "('c, 'r, 'w) handler \<Rightarrow> ('c, 'r, 'a) prog \<Rightarrow> 'w \<Rightarrow> (crash + 'a) \<times> 'w" where
  "run h (Ret a) = (\<lambda>w. (Inr a, w))"
| "run h (Crash e) = (\<lambda>w. (Inl e, w))"
| "run h (Call c k) = (\<lambda>w. case h c w of (r, w') \<Rightarrow> run h (k r) w')"

lemma run_pbind:
  "run h (pbind p f) w = (case run h p w of (Inl e, w') \<Rightarrow> (Inl e, w') | (Inr a, w') \<Rightarrow> run h (f a) w')"
  by (induction p arbitrary: w) (auto split: prod.splits)

lemma run_pbind_Inr:
  "run h p w = (Inr a, w') \<Longrightarrow> run h (pbind p f) w = run h (f a) w'"
  by (simp add: run_pbind)

section \<open>Rely and guarantee\<close>

text \<open>
  A contract watches a program through a ghost state: \<open>rg_may\<close> says which calls the program may
  issue (the guarantee), \<open>rg_ans\<close> which answers the environment may give (the rely), \<open>rg_next\<close>
  how the ghost state follows the log, and \<open>rg_crash\<close> which crashes are tolerated.
\<close>

record ('s, 'c, 'r) contract =
  rg_may :: "'s \<Rightarrow> 'c \<Rightarrow> bool"
  rg_ans :: "'s \<Rightarrow> 'c \<Rightarrow> 'r \<Rightarrow> bool"
  rg_next :: "'s \<Rightarrow> 'c \<Rightarrow> 'r \<Rightarrow> 's"
  rg_crash :: "crash \<Rightarrow> bool"

primrec meets :: "('s, 'c, 'r) contract \<Rightarrow> ('c, 'r, 'a) prog \<Rightarrow> ('s \<Rightarrow> 'a \<Rightarrow> bool) \<Rightarrow> 's \<Rightarrow> bool" where
  "meets G (Ret a) = (\<lambda>Q s. Q s a)"
| "meets G (Crash e) = (\<lambda>Q s. rg_crash G e)"
| "meets G (Call c k) = (\<lambda>Q s. rg_may G s c \<and>
     (\<forall>r. rg_ans G s c r \<longrightarrow> meets G (k r) Q (rg_next G s c r)))"

lemma meets_pbind [simp]: "meets G (pbind p f) Q s = meets G p (\<lambda>s a. meets G (f a) Q s) s"
  by (induction p arbitrary: s) auto

lemma meets_mono: "meets G p Q s \<Longrightarrow> (\<And>s a. Q s a \<Longrightarrow> Q' s a) \<Longrightarrow> meets G p Q' s"
  by (induction p arbitrary: s) auto

lemma meets_if: "(b \<Longrightarrow> meets G p Q s) \<Longrightarrow> (\<not> b \<Longrightarrow> meets G q Q s) \<Longrightarrow> meets G (if b then p else q) Q s"
  by simp

text \<open>A loop keeps what its body keeps.\<close>

lemma meets_pfold:
  assumes "\<And>x s a. x \<in> set xs \<Longrightarrow> I s a \<Longrightarrow> meets G (f x a) I s" and "I s a"
  shows "meets G (pfold f xs a) I s"
  using assms
proof (induction xs arbitrary: s a)
  case Nil
  then show ?case by simp
next
  case (Cons x xs)
  then have "meets G (f x a) I s" by simp
  then have "meets G (f x a) (\<lambda>s a. meets G (pfold f xs a) I s) s"
    by (rule meets_mono) (use Cons in auto)
  then show ?case by simp
qed

text \<open>The ghost state after a log, if the environment kept its side of the contract.\<close>

fun follow :: "('s, 'c, 'r) contract \<Rightarrow> 's \<Rightarrow> ('c \<times> 'r) list \<Rightarrow> 's option" where
  "follow G s [] = Some s"
| "follow G s ((c, r) # l) = (if rg_ans G s c r then follow G (rg_next G s c r) l else None)"

text \<open>
  Adequacy: along every log in which the environment keeps its side, each call is one the
  contract permits, and a result satisfies the postcondition.
\<close>

lemma meets_drive:
  assumes "meets G p Q s" and "drive p rs = (l, out)" and "follow G s l = Some t"
  shows "(case out of Returned a \<Rightarrow> Q t a | Crashed e \<Rightarrow> rg_crash G e | Waiting c \<Rightarrow> rg_may G t c)"
  using assms
proof (induction p arbitrary: s rs l)
  case (Call c k)
  show ?case
  proof (cases rs)
    case Nil
    with Call.prems show ?thesis by auto
  next
    case (Cons r rs')
    with Call.prems(2) obtain l' where l': "drive (k r) rs' = (l', out)" "l = (c, r) # l'"
      by (auto split: prod.splits)
    with Call.prems show ?thesis
      by (auto intro: Call.IH [OF _ _ l'(1)] split: if_splits)
  qed
qed auto

text \<open>The same at every point of a log.\<close>

lemma meets_at:
  assumes "meets G p Q s" and "drive p rs = (pre @ (c, r) # post, out)" and "follow G s pre = Some t"
  shows "rg_may G t c"
  using assms
proof (induction p arbitrary: s rs pre)
  case (Call c' k)
  show ?case
  proof (cases rs)
    case Nil
    with Call.prems show ?thesis by auto
  next
    case (Cons r' rs')
    obtain l' out' where l': "drive (k r') rs' = (l', out')" by (cases "drive (k r') rs'")
    show ?thesis
    proof (cases pre)
      case Nil
      with Call.prems Cons l' show ?thesis by auto
    next
      case (Cons p pre')
      with Call.prems l' \<open>rs = r' # rs'\<close> have p: "p = (c', r')" "l' = pre' @ (c, r) # post" "out' = out" by auto
      with Call.prems Cons have "meets G (k r') Q (rg_next G s c' r')" "follow G (rg_next G s c' r') pre' = Some t"
        by (auto split: if_splits)
      with p l' show ?thesis by (intro Call.IH [where pre = pre']) auto
    qed
  qed
qed auto

lemma meets_issued:
  assumes "meets G p Q s"
    and rely: "\<And>s c r. rg_ans G s c r" and inv: "\<And>s c r. I s \<Longrightarrow> I (rg_next G s c r)" and "I s"
    and may: "\<And>s c. I s \<Longrightarrow> rg_may G s c \<Longrightarrow> P c"
  shows "list_all P (issued p rs)"
  using assms(1) \<open>I s\<close>
proof (induction p arbitrary: s rs)
  case (Call c k)
  then have Pc: "P c" by (auto intro: may)
  show ?case
  proof (cases rs)
    case (Cons r rs')
    from Call.prems rely have "meets G (k r) Q (rg_next G s c r)" by simp
    with Call.IH [of "k r" "rg_next G s c r" rs'] inv Call.prems have "list_all P (issued (k r) rs')"
      by auto
    with Pc Cons show ?thesis by simp
  qed (use Pc in simp)
qed auto

text \<open>
  The simplest guarantee, with no ghost state and any answers: every call satisfies \<open>P\<close>.
\<close>

definition only :: "('c \<Rightarrow> bool) \<Rightarrow> (unit, 'c, 'r) contract" where
  "only P = \<lparr>rg_may = (\<lambda>_. P), rg_ans = (\<lambda>_ _ _. True), rg_next = (\<lambda>_ _ _. ()), rg_crash = (\<lambda>_. True)\<rparr>"

lemma only_simps [simp]:
  "rg_may (only P) s c = P c" "rg_ans (only P) s c r" "rg_next (only P) s c r = ()" "rg_crash (only P) e"
  by (simp_all add: only_def)

lemma only_issued: "meets (only P) p Q () \<Longrightarrow> list_all P (issued p rs)"
  by (rule meets_issued [where I = "\<lambda>_. True"]) auto

lemma only_mono: "meets (only P) p Q () \<Longrightarrow> (\<And>c. P c \<Longrightarrow> P' c) \<Longrightarrow> meets (only P') p Q ()"
  by (induction p) auto

text \<open>What every step of the ghost state keeps holds at the end.\<close>

lemma meets_stable:
  assumes "meets G p Q s" and "I s" and "\<And>s c r. I s \<Longrightarrow> I (rg_next G s c r)"
  shows "meets G p (\<lambda>s a. Q s a \<and> I s) s"
  using assms(1,2)
proof (induction p arbitrary: s)
  case (Call c k)
  then show ?case using assms(3) by auto
qed auto

text \<open>
  A contract seen through an abstraction of the ghost state of another one, on states of which an
  invariant holds.
\<close>

lemma meets_refine_inv:
  assumes "meets G p Q (f s)" and "I s"
    and "\<And>s c r. I s \<Longrightarrow> I (rg_next H s c r)"
    and "\<And>s c. I s \<Longrightarrow> rg_may G (f s) c \<Longrightarrow> rg_may H s c"
    and "\<And>s c r. rg_may G (f s) c \<Longrightarrow> rg_ans H s c r \<Longrightarrow> rg_ans G (f s) c r"
    and "\<And>s c r. rg_may G (f s) c \<Longrightarrow> f (rg_next H s c r) = rg_next G (f s) c r"
    and "\<And>e. rg_crash G e \<Longrightarrow> rg_crash H e"
  shows "meets H p (\<lambda>s a. Q (f s) a \<and> I s) s"
  using assms(1,2)
proof (induction p arbitrary: s)
  case (Call c k)
  then show ?case using assms(3-6) by auto
qed (use assms(7) in auto)

lemma meets_refine:
  assumes "meets G p Q (f s)"
    and "\<And>s c. rg_may G (f s) c \<Longrightarrow> rg_may H s c"
    and "\<And>s c r. rg_may G (f s) c \<Longrightarrow> rg_ans H s c r \<Longrightarrow> rg_ans G (f s) c r"
    and "\<And>s c r. rg_may G (f s) c \<Longrightarrow> f (rg_next H s c r) = rg_next G (f s) c r"
    and "\<And>e. rg_crash G e \<Longrightarrow> rg_crash H e"
  shows "meets H p (\<lambda>s. Q (f s)) s"
  using meets_refine_inv [where I = "\<lambda>_. True" and G = G and H = H and f = f, OF assms(1) TrueI TrueI assms(2-5)] by simp

lemma meets_of_only:
  assumes "meets (only P) p (\<lambda>_. Q) ()" and "\<And>s c. P c \<Longrightarrow> rg_may H s c" and "\<And>e. rg_crash H e"
  shows "meets H p (\<lambda>_. Q) s"
  using assms(1)
proof (induction p arbitrary: s)
  case (Call c k)
  then show ?case using assms(2) by auto
qed (use assms(3) in auto)

text \<open>Adequacy for handlers: a handler that keeps the rely, seen through \<open>view\<close>.\<close>

lemma meets_run:
  assumes "meets G p Q (view w)"
    and "\<And>c w r w'. h c w = (r, w') \<Longrightarrow> rg_ans G (view w) c r \<and> view w' = rg_next G (view w) c r"
    and "run h p w = (res, w')"
  shows "(case res of Inl e \<Rightarrow> rg_crash G e | Inr a \<Rightarrow> Q (view w') a)"
  using assms(1,3)
proof (induction p arbitrary: w)
  case (Call c k)
  obtain r w1 where h: "h c w = (r, w1)" by (cases "h c w")
  with assms(2) have a: "rg_ans G (view w) c r" "view w1 = rg_next G (view w) c r" by blast+
  from Call.prems(2) h have "run h (k r) w1 = (res, w')" by simp
  moreover from Call.prems(1) a have "meets G (k r) Q (view w1)" by simp
  ultimately show ?case by (intro Call.IH) auto
qed auto

text \<open>A contract that asks nothing and remembers the log, for results that speak of the answers.\<close>

definition logged :: "(('c \<times> 'r) list, 'c, 'r) contract" where
  "logged = \<lparr>rg_may = (\<lambda>_ _. True), rg_ans = (\<lambda>_ _ _. True), rg_next = (\<lambda>l c r. l @ [(c, r)]), rg_crash = (\<lambda>_. True)\<rparr>"

lemma logged_simps [simp]:
  "rg_may logged s c" "rg_ans logged s c r" "rg_next logged s c r = s @ [(c, r)]" "rg_crash logged e"
  by (simp_all add: logged_def)

lemma follow_logged: "follow logged s l = Some (s @ l)"
  by (induction l arbitrary: s) auto

lemma logged_drive: "meets logged p Q s \<Longrightarrow> drive p rs = (l, Returned a) \<Longrightarrow> Q (s @ l) a"
  using meets_drive [OF _ _ follow_logged] by fastforce

section \<open>Retrying on conflict\<close>

text \<open>
  \<open>retry.RetryOnConflict(backoff, fn)\<close> of client-go runs \<open>fn\<close> at least once and at most
  \<open>backoff.Steps\<close> times and returns what its last run returned; whether another run follows a run
  is the library's decision, so it is asked of the environment (\<open>again e\<close>). The closure's
  captured variables are the state \<open>x\<close>, which every run goes on from.
\<close>

primrec RetryOnConflict ::
  "(error option \<Rightarrow> ('c, 'r, bool) prog) \<Rightarrow> nat \<Rightarrow> ('x \<Rightarrow> ('c, 'r, error option \<times> 'x) prog) \<Rightarrow> 'x \<Rightarrow>
   ('c, 'r, error option \<times> 'x) prog" where
  "RetryOnConflict again 0 fn x = fn x"
| "RetryOnConflict again (Suc n) fn x =
     pbind (fn x) (\<lambda>(e, x'). pbind (again e) (\<lambda>more.
       if more then RetryOnConflict again n fn x' else Ret (e, x')))"

text \<open>What every run of the closure establishes from what it keeps, the whole retry establishes.\<close>

lemma meets_RetryOnConflict:
  assumes fn: "\<And>s x. I s x \<Longrightarrow> meets G (fn x) (\<lambda>s (e, x'). I s x' \<and> Q s (e, x')) s"
    and again: "\<And>s e x. I s x \<Longrightarrow> Q s (e, x) \<Longrightarrow>
      meets G (again e) (\<lambda>s' more. if more then I s' x else I s' x \<and> Q s' (e, x)) s"
    and "I s x"
  shows "meets G (RetryOnConflict again n fn x) (\<lambda>s (e, x'). I s x' \<and> Q s (e, x')) s"
  using \<open>I s x\<close>
proof (induction n arbitrary: s x)
  case 0
  then show ?case by (simp add: fn)
next
  case (Suc n)
  have step: "meets G (again e) (\<lambda>s more. meets G (if more then RetryOnConflict again n fn x'
      else Ret (e, x')) (\<lambda>s (e, x'). I s x' \<and> Q s (e, x')) s) s"
    if "I s x'" "Q s (e, x')" for s e x'
    using again [OF that] by (rule meets_mono) (auto simp: Suc.IH split: if_splits)
  from fn [OF Suc.prems] show ?case
    by (simp, elim meets_mono) (use step in auto)
qed

end
