(* ===== verification/Effects.thy ===== *)
theory Effects
  imports Prog ApiTypes
begin

text \<open>
  The calls the program makes to what is not its own code, one constructor per client method,
  and the answers it gets. How they are answered is never defined: it is the environment of
  \<open>Prog\<close>. Library functions without effects are the fields of \<open>lib\<close>, a parameter of every
  definition that uses one.
\<close>

section \<open>Calls and answers\<close>

datatype (plugins del: code) call =
    GetWhc string string                                \<comment> \<open>client Get: name, namespace\<close>
  | UpdateWhcStatus Whc                                 \<comment> \<open>client Status().Update\<close>
  | CreateWhc Whc
  | ListWhcs string
  | GetNhc string
  | UpdateNhcStatus Nhc
  | GetWorkload "workload_kind option" string string    \<comment> \<open>client Get into an object of that kind: namespace, name\<close>
  | UpdateWorkload workload
  | AsSelector "string option"                          \<comment> \<open>metav1.LabelSelectorAsSelector\<close>
  | ListPods string "string option"                     \<comment> \<open>namespace, selector (nil: every pod)\<close>
  | GetPod string string
  | GetNamespace string
  | CreateNamespace Namespace
  | DeleteNamespace string
  | ListNamespaces "(string \<times> string) list"
  | ListClusterRoleBindings
  | CreateClusterRoleBinding ClusterRoleBinding
  | DeleteClusterRoleBinding string
  | ListResources string string string string           \<comment> \<open>group, version, resource, namespace\<close>
  | CreateResource Unstructured
  | PodLogs string string string bool                   \<comment> \<open>namespace, pod, container, previous\<close>
  | RecordMetrics string "string option" int                     \<comment> \<open>metrics recorder: namespace, selector, duration\<close>
  | KvSet string string int                             \<comment> \<open>Valkey SET with expiry\<close>
  | KvGet string
  | KvDel string
  | Now                                                 \<comment> \<open>time.Now\<close>
  | Sleep int
  | RandString int                                      \<comment> \<open>utilrand.String\<close>
  | RandIntn int
  | MapOrder                                            \<comment> \<open>the runtime's picks for one range over a map\<close>
  | RetryAgain "error option"                           \<comment> \<open>client-go's decision after a run of a retried function\<close>
  | GoRunCheck Whc string "SecurityContextDefaults option"  \<comment> \<open>go runner.RunCheck(ctx, sc)\<close>
  | Event string string string                          \<comment> \<open>recorder.Event: type, reason, message\<close>

datatype (plugins del: code) resp =
    RErr error
  | ROk
  | RWhc Whc
  | RWhcs "Whc list"
  | RNhc Nhc
  | RWorkload workload
  | RSelector string
  | RPods "Pod list"
  | RPod Pod
  | RNamespace Namespace
  | RNamespaces "Namespace list"
  | RBindings "ClusterRoleBinding list"
  | RResources "Unstructured list"
  | RMetrics "ResourceUsageRecord list"
  | RString string
  | RInt int
  | RBool bool
  | RPicks "nat list"

type_synonym 'a io = "(call, resp, 'a) prog"

section \<open>Issuing a call\<close>

definition ask :: "'c \<Rightarrow> ('r \<Rightarrow> 'a option) \<Rightarrow> ('c, 'r, 'a) prog" where
  "ask c dec = Call c (\<lambda>r. case dec r of None \<Rightarrow> Crash IllTyped | Some a \<Rightarrow> Ret a)"

text \<open>An answer that may be an error.\<close>

definition or_err :: "(resp \<Rightarrow> 'a option) \<Rightarrow> resp \<Rightarrow> (error + 'a) option" where
  "or_err dec r = (case r of RErr e \<Rightarrow> Some (Inl e) | _ \<Rightarrow> map_option Inr (dec r))"

text \<open>The error result of a call that returns nothing else.\<close>

definition as_done :: "resp \<Rightarrow> error option option" where
  "as_done r = (case r of RErr e \<Rightarrow> Some (Some e) | ROk \<Rightarrow> Some None | _ \<Rightarrow> None)"

definition as_whc where "as_whc r = (case r of RWhc x \<Rightarrow> Some x | _ \<Rightarrow> None)"
definition as_whcs where "as_whcs r = (case r of RWhcs x \<Rightarrow> Some x | _ \<Rightarrow> None)"
definition as_nhc where "as_nhc r = (case r of RNhc x \<Rightarrow> Some x | _ \<Rightarrow> None)"

text \<open>A Get decodes into the object it is given; where that is nil there is nothing to decode into.\<close>

definition as_workload_of :: "workload_kind option \<Rightarrow> resp \<Rightarrow> workload option" where
  "as_workload_of k r = (case r of RWorkload x \<Rightarrow> if k \<noteq> None \<and> wl_kind x = k then Some x else None | _ \<Rightarrow> None)"

definition as_selector where "as_selector r = (case r of RSelector x \<Rightarrow> Some x | _ \<Rightarrow> None)"
definition as_pods where "as_pods r = (case r of RPods x \<Rightarrow> Some x | _ \<Rightarrow> None)"
definition as_pod where "as_pod r = (case r of RPod x \<Rightarrow> Some x | _ \<Rightarrow> None)"
definition as_namespace where "as_namespace r = (case r of RNamespace x \<Rightarrow> Some x | _ \<Rightarrow> None)"
definition as_namespaces where "as_namespaces r = (case r of RNamespaces x \<Rightarrow> Some x | _ \<Rightarrow> None)"
definition as_bindings where "as_bindings r = (case r of RBindings x \<Rightarrow> Some x | _ \<Rightarrow> None)"
definition as_resources where "as_resources r = (case r of RResources x \<Rightarrow> Some x | _ \<Rightarrow> None)"
definition as_metrics where "as_metrics r = (case r of RMetrics x \<Rightarrow> Some x | _ \<Rightarrow> None)"
definition as_string where "as_string r = (case r of RString x \<Rightarrow> Some x | _ \<Rightarrow> None)"
definition as_int where "as_int r = (case r of RInt x \<Rightarrow> Some x | _ \<Rightarrow> None)"
definition as_bool where "as_bool r = (case r of RBool x \<Rightarrow> Some x | _ \<Rightarrow> None)"
definition as_picks where "as_picks r = (case r of RPicks x \<Rightarrow> Some x | _ \<Rightarrow> None)"

lemmas answer_defs = ask_def or_err_def as_done_def as_whc_def as_whcs_def as_nhc_def as_workload_of_def as_selector_def
  as_pods_def as_pod_def as_namespace_def as_namespaces_def as_bindings_def as_resources_def as_metrics_def
  as_string_def as_int_def as_bool_def as_picks_def

lemma answers [simp]:
  "or_err d (RErr e) = Some (Inl e)"
  "or_err as_whc (RWhc x) = Some (Inr x)" "or_err as_whcs (RWhcs xs) = Some (Inr xs)"
  "or_err as_nhc (RNhc y) = Some (Inr y)" "or_err (as_workload_of k) (RWorkload w) = (if k \<noteq> None \<and> wl_kind w = k then Some (Inr w) else None)"
  "or_err as_selector (RSelector s) = Some (Inr s)" "or_err as_pods (RPods ps) = Some (Inr ps)"
  "or_err as_pod (RPod p) = Some (Inr p)" "or_err as_namespace (RNamespace n) = Some (Inr n)"
  "or_err as_namespaces (RNamespaces nn) = Some (Inr nn)" "or_err as_bindings (RBindings bs) = Some (Inr bs)"
  "or_err as_resources (RResources us) = Some (Inr us)" "or_err as_metrics (RMetrics ms) = Some (Inr ms)"
  "or_err as_string (RString s) = Some (Inr s)"
  "as_done ROk = Some None" "as_done (RErr e) = Some (Some e)"
  "as_string (RString s) = Some s" "as_int (RInt i) = Some i" "as_bool (RBool b) = Some b"
  "as_picks (RPicks \<sigma>) = Some \<sigma>"
  by (simp_all add: answer_defs)

lemma run_ask:
  "run h (ask c dec) w = (case h c w of (r, w') \<Rightarrow> (case dec r of None \<Rightarrow> Inl IllTyped | Some a \<Rightarrow> Inr a, w'))"
  by (auto simp: ask_def split: prod.splits option.splits)

lemma run_ask_Inr: "h c w = (r, w') \<Longrightarrow> dec r = Some a \<Longrightarrow> run h (pbind (ask c dec) f) w = run h (f a) w'"
  by (simp add: run_pbind run_ask)

abbreviation "get_whc n ns \<equiv> ask (GetWhc n ns) (or_err as_whc)"
abbreviation "update_whc_status x \<equiv> ask (UpdateWhcStatus x) as_done"
abbreviation "create_whc x \<equiv> ask (CreateWhc x) as_done"
abbreviation "list_whcs ns \<equiv> ask (ListWhcs ns) (or_err as_whcs)"
abbreviation "get_nhc n \<equiv> ask (GetNhc n) (or_err as_nhc)"
abbreviation "update_nhc_status x \<equiv> ask (UpdateNhcStatus x) as_done"
abbreviation "get_workload k ns n \<equiv> ask (GetWorkload k ns n) (or_err (as_workload_of k))"
abbreviation "update_workload w \<equiv> ask (UpdateWorkload w) as_done"
abbreviation "as_label_selector s \<equiv> ask (AsSelector s) (or_err as_selector)"
abbreviation "list_pods ns s \<equiv> ask (ListPods ns s) (or_err as_pods)"
abbreviation "get_namespace n \<equiv> ask (GetNamespace n) (or_err as_namespace)"
abbreviation "create_namespace n \<equiv> ask (CreateNamespace n) as_done"
abbreviation "delete_namespace n \<equiv> ask (DeleteNamespace n) as_done"
abbreviation "list_namespaces ls \<equiv> ask (ListNamespaces ls) (or_err as_namespaces)"
abbreviation "list_bindings \<equiv> ask ListClusterRoleBindings (or_err as_bindings)"
abbreviation "create_binding b \<equiv> ask (CreateClusterRoleBinding b) as_done"
abbreviation "delete_binding n \<equiv> ask (DeleteClusterRoleBinding n) as_done"
abbreviation "pod_logs ns pod c prev \<equiv> ask (PodLogs ns pod c prev) (or_err as_string)"
abbreviation "list_resources g v r ns \<equiv> ask (ListResources g v r ns) (or_err as_resources)"
abbreviation "rand_string n \<equiv> ask (RandString n) as_string"
abbreviation "create_resource u \<equiv> ask (CreateResource u) as_done"
abbreviation "now \<equiv> ask Now as_int"
abbreviation "sleep d \<equiv> ask (Sleep d) as_done"
abbreviation "map_order \<equiv> ask MapOrder as_picks"
abbreviation "retry_again e \<equiv> ask (RetryAgain e) as_bool"
abbreviation "go_run_check w t sc \<equiv> ask (GoRunCheck w t sc) as_done"
abbreviation "event ty re me \<equiv> ask (Event ty re me) as_done"

text \<open>Durations are nanoseconds.\<close>

abbreviation second :: int where "second \<equiv> 1000000000"
abbreviation minute :: int where "minute \<equiv> 60000000000"
abbreviation hour :: int where "hour \<equiv> 3600000000000"

section \<open>Library functions\<close>

text \<open>
  \<open>lib_title\<close> is \<open>cases.Title(language.English).String\<close>; the three condition functions are those
  of \<open>k8s.io/apimachinery/pkg/api/meta\<close> (the time is the one \<open>SetStatusCondition\<close> stamps a
  transition with); \<open>lib_marshal\<close> and \<open>lib_unmarshal\<close> are \<open>encoding/json\<close> on a recording;
  \<open>lib_retries\<close> is how often \<open>retry.DefaultRetry\<close> runs a function again; \<open>lib_namespacedResources\<close> is
  what the discovery client answered when the process started, \<open>lib_Error\<close> is the text an
  error prints as, \<open>lib_ParseGroupVersion\<close> is \<open>schema.ParseGroupVersion\<close>, and the last two are the conversions of
  \<open>runtime.DefaultUnstructuredConverter\<close> for a Service (None: the pointer stayed nil).
\<close>

record lib =
  lib_title :: "string \<Rightarrow> string"
  lib_SetStatusCondition :: "Condition list \<Rightarrow> Condition \<Rightarrow> int \<Rightarrow> Condition list"
  lib_FindStatusCondition :: "Condition list \<Rightarrow> string \<Rightarrow> Condition option"
  lib_IsStatusConditionPresentAndEqual :: "Condition list \<Rightarrow> string \<Rightarrow> ConditionStatus \<Rightarrow> bool"
  lib_marshal :: "WorkloadRecording \<Rightarrow> error + string"
  lib_unmarshal :: "string \<Rightarrow> error + WorkloadRecording"
  lib_retries :: nat
  lib_namespacedResources :: "APIResourceList list"
  lib_Error :: "error \<Rightarrow> string"
  lib_ParseGroupVersion :: "string \<Rightarrow> error + (string \<times> string)"
  lib_FromUnstructured :: "Unstructured \<Rightarrow> Service option"
  lib_ToUnstructured :: "Service \<Rightarrow> Unstructured"

section \<open>Which calls a program makes\<close>

text \<open>\<open>calls_only P p\<close>: whatever the answers, every call of \<open>p\<close> satisfies \<open>P\<close>.\<close>

definition calls_only :: "(call \<Rightarrow> bool) \<Rightarrow> 'a io \<Rightarrow> bool" where
  "calls_only P p = meets (only P) p (\<lambda>_ _. True) ()"

lemma meets_ask:
  "meets G (ask c dec) Q s \<longleftrightarrow> rg_may G s c \<and> (\<forall>r. rg_ans G s c r \<longrightarrow>
     (case dec r of None \<Rightarrow> rg_crash G IllTyped | Some a \<Rightarrow> Q (rg_next G s c r) a))"
  by (auto simp: ask_def split: option.splits)

lemma meets_lift_go:
  "meets G (lift_go x) Q s \<longleftrightarrow> (case x of Inl e \<Rightarrow> rg_crash G e | Inr a \<Rightarrow> Q s a)"
  by (auto simp: lift_go_def split: sum.splits)

lemma calls_only_meets:
  "calls_only P p \<Longrightarrow> (\<And>s c. P c \<Longrightarrow> rg_may H s c) \<Longrightarrow> (\<And>e. rg_crash H e) \<Longrightarrow> meets H p (\<lambda>_ _. True) s"
  unfolding calls_only_def by (rule meets_of_only)

lemma calls_only_issued: "calls_only P p \<Longrightarrow> list_all P (issued p rs)"
  unfolding calls_only_def by (rule only_issued)

lemma calls_only_mono: "calls_only P p \<Longrightarrow> (\<And>c. P c \<Longrightarrow> P' c) \<Longrightarrow> calls_only P' p"
  unfolding calls_only_def by (rule only_mono)

lemma calls_only_basic [simp]:
  "calls_only P (Ret a)" "calls_only P (Crash e)" "calls_only P (lift_go x)"
  by (auto simp: calls_only_def lift_go_def split: sum.splits)

lemma calls_only_ask [simp]: "calls_only P (ask c dec) \<longleftrightarrow> P c"
  by (auto simp: calls_only_def ask_def split: option.splits)

lemma calls_only_pbind: "calls_only P p \<Longrightarrow> (\<And>a. calls_only P (f a)) \<Longrightarrow> calls_only P (pbind p f)"
  unfolding calls_only_def by (auto elim: meets_mono)

lemma calls_only_pfold: "(\<And>x s. x \<in> set xs \<Longrightarrow> calls_only P (f x s)) \<Longrightarrow> calls_only P (pfold f xs s)"
  by (induction xs arbitrary: s) (auto intro: calls_only_pbind)

lemma calls_only_retry:
  "(\<And>x. calls_only P (fn x)) \<Longrightarrow> (\<And>e. calls_only P (again e)) \<Longrightarrow> calls_only P (RetryOnConflict again n fn x)"
  by (induction n arbitrary: x) (auto intro!: calls_only_pbind split: prod.splits if_splits)

lemma calls_only_cases [simp]:
  "calls_only P (if b then p else q) \<longleftrightarrow> (b \<longrightarrow> calls_only P p) \<and> (\<not> b \<longrightarrow> calls_only P q)"
  "calls_only P (case x of Inl e \<Rightarrow> f e | Inr a \<Rightarrow> g a) \<longleftrightarrow>
     (\<forall>e. x = Inl e \<longrightarrow> calls_only P (f e)) \<and> (\<forall>a. x = Inr a \<longrightarrow> calls_only P (g a))"
  "calls_only P (case o' of None \<Rightarrow> p | Some a \<Rightarrow> h a) \<longleftrightarrow>
     (o' = None \<longrightarrow> calls_only P p) \<and> (\<forall>a. o' = Some a \<longrightarrow> calls_only P (h a))"
  "calls_only P (case y of (a, b) \<Rightarrow> k a b) \<longleftrightarrow> (\<forall>a b. y = (a, b) \<longrightarrow> calls_only P (k a b))"
  by (auto split: sum.splits option.splits prod.splits)

section \<open>Which results a program can return\<close>

lemma logged_ask:
  "(\<And>r a. dec r = Some a \<Longrightarrow> meets logged (f a) Q (l @ [(c, r)])) \<Longrightarrow> meets logged (pbind (ask c dec) f) Q l"
  by (auto simp: meets_ask split: option.splits)

text \<open>\<open>ensures P p\<close>: whatever the answers, a result of \<open>p\<close> satisfies \<open>P\<close>.\<close>

definition ensures :: "('a \<Rightarrow> bool) \<Rightarrow> 'a io \<Rightarrow> bool" where
  "ensures P p = meets (only (\<lambda>_. True)) p (\<lambda>_. P) ()"

lemma ensures_basic [simp]:
  "ensures P (Ret a) \<longleftrightarrow> P a" "ensures P (Crash e)" "ensures P (lift_go x) \<longleftrightarrow> (\<forall>a. x = Inr a \<longrightarrow> P a)"
  "ensures P (Call c k) \<longleftrightarrow> (\<forall>r. ensures P (k r))"
  by (auto simp: ensures_def lift_go_def split: sum.splits)

lemma ensures_ask [simp]: "ensures P (ask c dec) \<longleftrightarrow> (\<forall>r a. dec r = Some a \<longrightarrow> P a)"
  by (auto simp: ask_def split: option.splits)

lemma ensures_pbind [simp]: "ensures P (pbind p f) \<longleftrightarrow> ensures (\<lambda>a. ensures P (f a)) p"
  by (simp add: ensures_def)

lemma ensures_mono: "ensures P p \<Longrightarrow> (\<And>a. P a \<Longrightarrow> P' a) \<Longrightarrow> ensures P' p"
  unfolding ensures_def by (rule meets_mono)

lemma ensures_pbindI: "ensures Q p \<Longrightarrow> (\<And>a. Q a \<Longrightarrow> ensures P (f a)) \<Longrightarrow> ensures P (pbind p f)"
  unfolding ensures_pbind by (rule ensures_mono)

lemma ensures_True [simp]: "ensures (\<lambda>_. True) p"
  by (induction p) simp_all

lemma ensures_conj: "ensures P p \<Longrightarrow> ensures Q p \<Longrightarrow> ensures (\<lambda>a. P a \<and> Q a) p"
  by (induction p) simp_all

lemma ensures_pfold:
  "(\<And>x s. x \<in> set xs \<Longrightarrow> I s \<Longrightarrow> ensures I (f x s)) \<Longrightarrow> I s \<Longrightarrow> ensures I (pfold f xs s)"
proof (induction xs arbitrary: s)
  case (Cons x xs)
  then have "ensures I (f x s)" by simp
  then have "ensures (\<lambda>s. ensures I (pfold f xs s)) (f x s)"
    by (rule ensures_mono) (use Cons in auto)
  then show ?case by simp
qed simp

lemma ensures_retry:
  assumes "\<And>x. I x \<Longrightarrow> ensures (\<lambda>(e, x'). I x' \<and> Q (e, x')) (fn x)" and "I x"
  shows "ensures (\<lambda>(e, x'). I x' \<and> Q (e, x')) (RetryOnConflict again n fn x)"
  using assms(2)
proof (induction n arbitrary: x)
  case (Suc n)
  have "ensures (\<lambda>more. ensures (\<lambda>(e, x'). I x' \<and> Q (e, x'))
      (if more then RetryOnConflict again n fn x' else Ret (e, x'))) (again e)" if "I x' \<and> Q (e, x')" for e x'
    by (rule ensures_mono [OF ensures_True]) (use that in \<open>simp add: Suc.IH\<close>)
  then show ?case
    by (simp, intro ensures_mono [OF assms(1) [OF Suc.prems]]) auto
qed (simp add: assms(1))

lemma ensures_drive: "ensures P p \<Longrightarrow> drive p rs = (l, Returned a) \<Longrightarrow> P a"
proof (induction p arbitrary: rs l)
  case (Call c k)
  from Call.prems obtain r rs' l' where "drive (k r) rs' = (l', Returned a)"
    by (auto split: list.splits prod.splits)
  with Call.prems(1) show ?case by (intro Call.IH) auto
qed auto

lemma ensures_run: "ensures P p \<Longrightarrow> run h p w = (Inr a, w') \<Longrightarrow> P a"
proof (induction p arbitrary: w)
  case (Call c k)
  from Call.prems(2) obtain r w1 where "run h (k r) w1 = (Inr a, w')" by (auto split: prod.splits)
  with Call.prems(1) show ?case by (intro Call.IH) auto
qed auto

text \<open>What follows a program need only be considered for the results it can return.\<close>

lemma calls_only_after:
  assumes "calls_only P p" and "ensures Q p" and "\<And>a. Q a \<Longrightarrow> calls_only P (f a)"
  shows "calls_only P (pbind p f)"
  using assms unfolding calls_only_def ensures_def by (induction p) auto

lemmas calls_intros = calls_only_pbind calls_only_pfold calls_only_retry

end
