(* ===== verification/Conditions.thy ===== *)
theory Conditions
  imports Effects Durations
begin

text \<open>
  \<^verbatim>\<open>internal/workload/condition_checks.go\<close>: the condition operations of the
  \<open>WorkloadCheckManager\<close>. The manager's mutable state is its copy of the check object, \<open>m\<close>; a
  method that re-fetches it returns the new copy.
\<close>

section \<open>The condition library\<close>

text \<open>
  What the documentation of \<open>k8s.io/apimachinery/pkg/api/meta\<close> says of its condition functions: a
  set condition is found with the status, reason and message that were set, its transition
  time is the old one where the status did not change and the new time where it did or the
  type is new; other types are untouched; present-and-equal asks for the found status.
\<close>

definition transition_time :: "Condition option \<Rightarrow> Condition \<Rightarrow> int \<Rightarrow> int" where
  "transition_time old c t = (case old of
     Some o' \<Rightarrow> if cond_Status o' = cond_Status c then cond_LastTransitionTime o' else t
   | None \<Rightarrow> t)"

definition conditions_library :: "lib \<Rightarrow> bool" where
  "conditions_library L \<longleftrightarrow>
     (\<forall>cs c t ty. lib_FindStatusCondition L (lib_SetStatusCondition L cs c t) ty =
        (if ty = cond_Type c
         then Some (c\<lparr>cond_LastTransitionTime := transition_time (lib_FindStatusCondition L cs ty) c t\<rparr>)
         else lib_FindStatusCondition L cs ty)) \<and>
     (\<forall>cs ty. lib_FindStatusCondition L cs ty = List.find (\<lambda>c. cond_Type c = ty) cs) \<and>
     (\<forall>cs ty st. lib_IsStatusConditionPresentAndEqual L cs ty st \<longleftrightarrow>
        (\<exists>c. lib_FindStatusCondition L cs ty = Some c \<and> cond_Status c = st))"

abbreviation conds :: "Whc \<Rightarrow> Condition list" where
  "conds m \<equiv> wst_Conditions (whc_Status m)"

definition with_conditions :: "Condition list \<Rightarrow> Whc \<Rightarrow> Whc" where
  "with_conditions cs m = m\<lparr>whc_Status := (whc_Status m)\<lparr>wst_Conditions := cs\<rparr>\<rparr>"

lemma with_conditions_simps [simp]:
  "conds (with_conditions cs m) = cs"
  "whc_Name (with_conditions cs m) = whc_Name m" "whc_Namespace (with_conditions cs m) = whc_Namespace m"
  "whc_Spec (with_conditions cs m) = whc_Spec m"
  "wst_CheckRuns (whc_Status (with_conditions cs m)) = wst_CheckRuns (whc_Status m)"
  "wst_BaselineRuns (whc_Status (with_conditions cs m)) = wst_BaselineRuns (whc_Status m)"
  "wst_FinalRun (whc_Status (with_conditions cs m)) = wst_FinalRun (whc_Status m)"
  "wst_Recommendation (whc_Status (with_conditions cs m)) = wst_Recommendation (whc_Status m)"
  "with_conditions cs (with_conditions cs' m) = with_conditions cs m"
  by (simp_all add: with_conditions_def)

section \<open>Writing conditions\<close>

definition refreshWorkloadHardeningCheck :: "Whc \<Rightarrow> Whc io" where
  "refreshWorkloadHardeningCheck m =
     pbind (get_whc (whc_Name m) (whc_Namespace m)) (\<lambda>r. Ret (case r of Inl e \<Rightarrow> m | Inr x \<Rightarrow> x))"

text \<open>\<open>metav1.Condition{Type: .., Status: .., Reason: .., Message: ..}\<close>, the time left zero.\<close>

definition mk_condition :: "string \<Rightarrow> ConditionStatus \<Rightarrow> string \<Rightarrow> string \<Rightarrow> Condition" where
  "mk_condition ty st re me =
     \<lparr>cond_Type = ty, cond_Status = st, cond_Reason = re, cond_Message = me, cond_LastTransitionTime = 0\<rparr>"

lemma mk_condition_simps [simp]:
  "cond_Type (mk_condition ty st re me) = ty" "cond_Status (mk_condition ty st re me) = st"
  "cond_Reason (mk_condition ty st re me) = re" "cond_Message (mk_condition ty st re me) = me"
  by (simp_all add: mk_condition_def)

text \<open>The function \<open>SetCondition\<close> retries.\<close>

definition SetCondition_attempt :: "lib \<Rightarrow> Condition \<Rightarrow> Whc \<Rightarrow> (error option \<times> Whc) io" where
  "SetCondition_attempt L c m =
     pbind (get_whc (whc_Name m) (whc_Namespace m)) (\<lambda>r. case r of
       Inl e \<Rightarrow> if IsNotFound e then Ret (None, m) else Ret (Some e, m)
     | Inr x \<Rightarrow> pbind now (\<lambda>t.
         let m' = with_conditions (lib_SetStatusCondition L (conds x) c t) x
         in pbind (update_whc_status m') (\<lambda>e. Ret (e, m'))))"

definition SetCondition :: "lib \<Rightarrow> Condition \<Rightarrow> Whc \<Rightarrow> (error option \<times> Whc) io" where
  "SetCondition L c m = RetryOnConflict retry_again (lib_retries L) (SetCondition_attempt L c) m"

definition remaining_conditions :: "Condition list \<Rightarrow> Condition list" where
  "remaining_conditions cs = concat (map (\<lambda>c.
     (if cond_Type c = ConditionTypeFinished then [c] else []) @
     (if cond_Type c = ConditionTypeAnalysis then [c] else [])) cs)"

definition RemoveCheckConditions_attempt :: "Whc \<Rightarrow> (error option \<times> Whc) io" where
  "RemoveCheckConditions_attempt m =
     pbind (get_whc (whc_Name m) (whc_Namespace m)) (\<lambda>r. case r of
       Inl e \<Rightarrow> Ret (Some e, m)
     | Inr x \<Rightarrow>
         let m' = with_conditions (remaining_conditions (conds x)) x
         in pbind (update_whc_status m') (\<lambda>e. Ret (e, m')))"

definition RemoveCheckConditions :: "lib \<Rightarrow> Whc \<Rightarrow> (error option \<times> Whc) io" where
  "RemoveCheckConditions L m = RetryOnConflict retry_again (lib_retries L) RemoveCheckConditions_attempt m"

section \<open>Reading conditions\<close>

text \<open>
  The question six methods ask of the fetched conditions: is the condition there with that
  status, and then, is its reason one of these? The found pointer is dereferenced.
\<close>

definition reason_in :: "lib \<Rightarrow> string \<Rightarrow> ConditionStatus \<Rightarrow> string list \<Rightarrow> Condition list \<Rightarrow> crash + bool" where
  "reason_in L ty st reasons cs =
     (if lib_IsStatusConditionPresentAndEqual L cs ty st
      then (case lib_FindStatusCondition L cs ty of
          None \<Rightarrow> Inl NilDeref
        | Some c \<Rightarrow> Inr (cond_Reason c \<in> set reasons))
      else Inr False)"

definition ask_reason :: "lib \<Rightarrow> string \<Rightarrow> ConditionStatus \<Rightarrow> string list \<Rightarrow> Whc \<Rightarrow> (bool \<times> Whc) io" where
  "ask_reason L ty st reasons m =
     pbind (refreshWorkloadHardeningCheck m) (\<lambda>m.
       pbind (lift_go (reason_in L ty st reasons (conds m))) (\<lambda>b. Ret (b, m)))"

definition BaselineRecorded :: "lib \<Rightarrow> Whc \<Rightarrow> (bool \<times> Whc) io" where
  "BaselineRecorded L = ask_reason L ConditionTypeBaseline ConditionTrue
     [ReasonBaselineRecordingFinished, ReasonBaselineRecordingFailed]"

definition BaselineInProgress :: "lib \<Rightarrow> Whc \<Rightarrow> (bool \<times> Whc) io" where
  "BaselineInProgress L = ask_reason L ConditionTypeBaseline ConditionFalse [ReasonBaselineRecording]"

definition FinalCheckRecorded :: "lib \<Rightarrow> Whc \<Rightarrow> (bool \<times> Whc) io" where
  "FinalCheckRecorded L = ask_reason L ConditionTypeFinalCheck ConditionTrue
     [ReasonCheckRecordingFinished, ReasonCheckRecordingFailed]"

definition FinalCheckInProgress :: "lib \<Rightarrow> Whc \<Rightarrow> (bool \<times> Whc) io" where
  "FinalCheckInProgress L = ask_reason L ConditionTypeFinalCheck ConditionFalse [ReasonCheckRecording]"

text \<open>\<open>titleCase.String(checkType) + ConditionTypeCheck\<close>.\<close>

definition check_condition :: "lib \<Rightarrow> string \<Rightarrow> string" where
  "check_condition L checkType = lib_title L checkType @ ConditionTypeCheck"

definition CheckRecorded :: "lib \<Rightarrow> string \<Rightarrow> Whc \<Rightarrow> (bool \<times> Whc) io" where
  "CheckRecorded L checkType = ask_reason L (check_condition L checkType) ConditionTrue
     [ReasonCheckRecordingFinished, ReasonCheckRecordingFailed]"

definition CheckInProgress :: "lib \<Rightarrow> string \<Rightarrow> Whc \<Rightarrow> (bool \<times> Whc) io" where
  "CheckInProgress L checkType = ask_reason L (check_condition L checkType) ConditionFalse [ReasonCheckRecording]"

definition GetCheckDuration :: "Whc \<Rightarrow> int" where
  "GetCheckDuration m =
     (if ws_RecordingDuration (whc_Spec m) = '''' then 5 * minute
      else case ParseDuration (ws_RecordingDuration (whc_Spec m)) of Inl e \<Rightarrow> 5 * minute | Inr d \<Rightarrow> d)"

text \<open>The overdue test of a running condition: last transition more than duration plus a minute ago.\<close>

definition ask_overdue :: "lib \<Rightarrow> string \<Rightarrow> (Whc \<Rightarrow> (bool \<times> Whc) io) \<Rightarrow> Whc \<Rightarrow> (bool \<times> Whc) io" where
  "ask_overdue L ty in_progress m =
     pbind (in_progress m) (\<lambda>(running, m).
       if \<not> running then Ret (False, m)
       else case lib_FindStatusCondition L (conds m) ty of
           None \<Rightarrow> Crash NilDeref
         | Some c \<Rightarrow> pbind now (\<lambda>t.
             Ret (t - cond_LastTransitionTime c > duration_add (GetCheckDuration m) (1 * minute), m)))"

definition BaselineOverdue :: "lib \<Rightarrow> Whc \<Rightarrow> (bool \<times> Whc) io" where
  "BaselineOverdue L = ask_overdue L ConditionTypeBaseline (BaselineInProgress L)"

definition FinalCheckOverdue :: "lib \<Rightarrow> Whc \<Rightarrow> (bool \<times> Whc) io" where
  "FinalCheckOverdue L = ask_overdue L ConditionTypeFinalCheck (FinalCheckInProgress L)"

definition CheckOverdue :: "lib \<Rightarrow> string \<Rightarrow> Whc \<Rightarrow> (bool \<times> Whc) io" where
  "CheckOverdue L checkType = ask_overdue L (check_condition L checkType) (CheckInProgress L checkType)"

definition RecommendationExists :: "Whc \<Rightarrow> bool" where
  "RecommendationExists m = (case wst_Recommendation (whc_Status m) of
     None \<Rightarrow> False
   | Some r \<Rightarrow> \<not> (rec_PodSecurityContext r = None \<and> rec_ContainerSecurityContexts r = None))"

section \<open>Facts\<close>

lemma remaining_conditions_eq:
  "remaining_conditions cs = filter (\<lambda>c. cond_Type c \<in> {ConditionTypeFinished, ConditionTypeAnalysis}) cs"
  by (induction cs) (auto simp: remaining_conditions_def)

lemma find_after_set:
  assumes "conditions_library L"
  shows "lib_FindStatusCondition L (lib_SetStatusCondition L cs c t) ty =
     (if ty = cond_Type c
      then Some (c\<lparr>cond_LastTransitionTime := transition_time (lib_FindStatusCondition L cs ty) c t\<rparr>)
      else lib_FindStatusCondition L cs ty)"
  using assms unfolding conditions_library_def by blast

lemma find_eq:
  "conditions_library L \<Longrightarrow> lib_FindStatusCondition L cs ty = List.find (\<lambda>c. cond_Type c = ty) cs"
  unfolding conditions_library_def by blast

lemma is_status_iff:
  "conditions_library L \<Longrightarrow> lib_IsStatusConditionPresentAndEqual L cs ty st \<longleftrightarrow>
     (\<exists>c. lib_FindStatusCondition L cs ty = Some c \<and> cond_Status c = st)"
  unfolding conditions_library_def by blast

lemma reason_in_total: "conditions_library L \<Longrightarrow> \<exists>b. reason_in L ty st reasons cs = Inr b"
  by (auto simp: reason_in_def is_status_iff)

lemma reason_in_iff:
  "conditions_library L \<Longrightarrow> reason_in L ty st reasons cs = Inr True \<longleftrightarrow>
     (\<exists>c. lib_FindStatusCondition L cs ty = Some c \<and> cond_Status c = st \<and> cond_Reason c \<in> set reasons)"
  by (auto simp: reason_in_def is_status_iff)

section \<open>A lawful server for one check object\<close>

text \<open>
  What the properties of the condition operations assume of the API server: \<open>stored\<close> reads the
  object with that name and namespace out of the server's state; a Get returns it, a status
  update either fails without effect or replaces its status, no other call touches it; the
  retry library runs a function again only after a conflict, and answers have the type of
  their call.
\<close>

definition well_typed :: "call \<Rightarrow> resp \<Rightarrow> bool" where
  "well_typed c r = (case c of
     GetWhc n ns \<Rightarrow> or_err as_whc r \<noteq> None
   | UpdateWhcStatus x \<Rightarrow> as_done r \<noteq> None
   | Now \<Rightarrow> as_int r \<noteq> None
   | RetryAgain e \<Rightarrow> as_bool r \<noteq> None
   | _ \<Rightarrow> True)"

definition whc_server :: "(call, resp, 'w) handler \<Rightarrow> ('w \<Rightarrow> Whc option) \<Rightarrow> string \<Rightarrow> string \<Rightarrow> bool" where
  "whc_server h stored n ns \<longleftrightarrow>
     (\<forall>c w r w'. h c w = (r, w') \<longrightarrow> well_typed c r \<and>
       (case c of
          GetWhc n' ns' \<Rightarrow> stored w' = stored w \<and>
            (n' = n \<and> ns' = ns \<longrightarrow> (case stored w of Some x \<Rightarrow> r = RWhc x | None \<Rightarrow> r = RErr (ApiError NotFound)))
        | UpdateWhcStatus x \<Rightarrow>
            (if whc_Name x = n \<and> whc_Namespace x = ns \<and> r = ROk
             then stored w' = map_option (\<lambda>y. y\<lparr>whc_Status := whc_Status x\<rparr>) (stored w)
             else stored w' = stored w)
        | RetryAgain e \<Rightarrow> stored w' = stored w \<and> (r = RBool True \<longrightarrow> (\<exists>err. e = Some err \<and> IsConflict err))
        | _ \<Rightarrow> stored w' = stored w))"

abbreviation named :: "string \<Rightarrow> string \<Rightarrow> Whc \<Rightarrow> bool" where
  "named n ns x \<equiv> whc_Name x = n \<and> whc_Namespace x = ns"

lemma server_get:
  assumes "whc_server h stored n ns" and "h (GetWhc n ns) w = (r, w')"
  shows "stored w' = stored w" and "r = (case stored w of Some x \<Rightarrow> RWhc x | None \<Rightarrow> RErr (ApiError NotFound))"
  using assms unfolding whc_server_def by (fastforce split: option.splits)+

lemma server_update:
  assumes "whc_server h stored n ns" and "h (UpdateWhcStatus x) w = (r, w')" and "named n ns x"
  shows "r = ROk \<and> stored w' = map_option (\<lambda>y. y\<lparr>whc_Status := whc_Status x\<rparr>) (stored w) \<or>
         (\<exists>e. r = RErr e) \<and> stored w' = stored w"
proof -
  from assms have "well_typed (UpdateWhcStatus x) r"
    and upd: "if r = ROk then stored w' = map_option (\<lambda>y. y\<lparr>whc_Status := whc_Status x\<rparr>) (stored w)
              else stored w' = stored w"
    unfolding whc_server_def by fastforce+
  then have "r = ROk \<or> (\<exists>e. r = RErr e)"
    by (cases r) (auto simp: well_typed_def as_done_def)
  with upd show ?thesis by auto
qed

lemma server_now:
  assumes "whc_server h stored n ns" and "h Now w = (r, w')"
  shows "\<exists>t. r = RInt t" and "stored w' = stored w"
proof -
  from assms have "well_typed Now r" and st: "stored w' = stored w"
    unfolding whc_server_def by fastforce+
  then show "\<exists>t. r = RInt t" by (cases r) (auto simp: well_typed_def as_int_def)
  show "stored w' = stored w" by (rule st)
qed

lemma server_again:
  assumes "whc_server h stored n ns" and "h (RetryAgain e) w = (r, w')"
  shows "\<exists>b. r = RBool b \<and> (b \<longrightarrow> e \<noteq> None)" and "stored w' = stored w"
proof -
  from assms have "well_typed (RetryAgain e) r" and st: "stored w' = stored w"
    and ag: "r = RBool True \<longrightarrow> (\<exists>err. e = Some err \<and> IsConflict err)"
    unfolding whc_server_def by fastforce+
  then show "\<exists>b. r = RBool b \<and> (b \<longrightarrow> e \<noteq> None)" by (cases r) (auto simp: well_typed_def as_bool_def)
  show "stored w' = stored w" by (rule st)
qed

lemma status_with_conditions [simp]:
  "x\<lparr>whc_Status := whc_Status (with_conditions cs x)\<rparr> = with_conditions cs x"
  by (simp add: with_conditions_def)

text \<open>
  What one run of a read-modify-write of the conditions does to the stored object: nothing where
  it reports an error or the object is gone, and else the modification \<open>f t\<close>, \<open>t\<close> the time read.
\<close>

definition condition_write ::
  "(int \<Rightarrow> Condition list \<Rightarrow> Condition list) \<Rightarrow> Whc option \<Rightarrow> error option \<Rightarrow> Whc option \<Rightarrow> bool" where
  "condition_write f before e after \<longleftrightarrow> (case before of
     None \<Rightarrow> after = None
   | Some x \<Rightarrow> if e = None then (\<exists>t. after = Some (with_conditions (f t (conds x)) x)) else after = Some x)"

lemma SetCondition_attempt_run:
  assumes srv: "whc_server h stored n ns" and m: "named n ns m"
    and x: "\<And>x. stored w = Some x \<Longrightarrow> named n ns x"
  shows "\<exists>e m' w'. run h (SetCondition_attempt L c m) w = (Inr (e, m'), w') \<and> named n ns m' \<and>
     condition_write (\<lambda>t cs. lib_SetStatusCondition L cs c t) (stored w) e (stored w')"
proof -
  obtain r w1 where get: "h (GetWhc n ns) w = (r, w1)" by (cases "h (GetWhc n ns) w")
  note g = server_get [OF srv get]
  show ?thesis
  proof (cases "stored w")
    case None
    with g get m have "run h (SetCondition_attempt L c m) w = (Inr (None, m), w1)"
      by (simp add: SetCondition_attempt_def run_pbind run_ask)
    with None g m show ?thesis by (auto simp: condition_write_def)
  next
    case (Some x)
    with x have nx: "named n ns x" by simp
    obtain rt w2 where now': "h Now w1 = (rt, w2)" by (cases "h Now w1")
    obtain t where t: "rt = RInt t" and st2: "stored w2 = stored w1"
      using server_now [OF srv now'] by blast
    let ?m' = "with_conditions (lib_SetStatusCondition L (conds x) c t) x"
    obtain ru w3 where upd: "h (UpdateWhcStatus ?m') w2 = (ru, w3)" by (cases "h (UpdateWhcStatus ?m') w2")
    have nm: "named n ns ?m'" using nx by simp
    have eq: "run h (SetCondition_attempt L c m) w = run h (pbind (update_whc_status ?m') (\<lambda>e. Ret (e, ?m'))) w2"
      using g get m Some now' t by (simp add: SetCondition_attempt_def run_pbind run_ask Let_def)
    from server_update [OF srv upd nm] show ?thesis
    proof (elim disjE conjE exE)
      assume "ru = ROk" and st: "stored w3 = map_option (\<lambda>y. y\<lparr>whc_Status := whc_Status ?m'\<rparr>) (stored w2)"
      then have "run h (SetCondition_attempt L c m) w = (Inr (None, ?m'), w3)"
        unfolding eq using upd by (simp add: run_pbind run_ask)
      with st nm Some g st2 show ?thesis by (auto simp: condition_write_def)
    next
      fix e assume "ru = RErr e" and st: "stored w3 = stored w2"
      then have "run h (SetCondition_attempt L c m) w = (Inr (Some e, ?m'), w3)"
        unfolding eq using upd by (simp add: run_pbind run_ask)
      with st nm Some g st2 show ?thesis by (auto simp: condition_write_def)
    qed
  qed
qed

lemma RemoveCheckConditions_attempt_run:
  assumes srv: "whc_server h stored n ns" and m: "named n ns m"
    and x: "\<And>x. stored w = Some x \<Longrightarrow> named n ns x"
  shows "\<exists>e m' w'. run h (RemoveCheckConditions_attempt m) w = (Inr (e, m'), w') \<and> named n ns m' \<and>
     condition_write (\<lambda>t cs. remaining_conditions cs) (stored w) e (stored w')"
proof -
  obtain r w1 where get: "h (GetWhc n ns) w = (r, w1)" by (cases "h (GetWhc n ns) w")
  note g = server_get [OF srv get]
  show ?thesis
  proof (cases "stored w")
    case None
    with g get m have "run h (RemoveCheckConditions_attempt m) w = (Inr (Some (ApiError NotFound), m), w1)"
      by (simp add: RemoveCheckConditions_attempt_def run_pbind run_ask)
    with None g m show ?thesis by (auto simp: condition_write_def)
  next
    case (Some x)
    with x have nx: "named n ns x" by simp
    let ?m' = "with_conditions (remaining_conditions (conds x)) x"
    obtain ru w3 where upd: "h (UpdateWhcStatus ?m') w1 = (ru, w3)" by (cases "h (UpdateWhcStatus ?m') w1")
    have nm: "named n ns ?m'" using nx by simp
    have eq: "run h (RemoveCheckConditions_attempt m) w = run h (pbind (update_whc_status ?m') (\<lambda>e. Ret (e, ?m'))) w1"
      using g get m Some by (simp add: RemoveCheckConditions_attempt_def run_pbind run_ask Let_def)
    from server_update [OF srv upd nm] show ?thesis
    proof (elim disjE conjE exE)
      assume "ru = ROk" and st: "stored w3 = map_option (\<lambda>y. y\<lparr>whc_Status := whc_Status ?m'\<rparr>) (stored w1)"
      then have "run h (RemoveCheckConditions_attempt m) w = (Inr (None, ?m'), w3)"
        unfolding eq using upd by (simp add: run_pbind run_ask)
      with st nm Some g show ?thesis by (auto simp: condition_write_def)
    next
      fix e assume "ru = RErr e" and st: "stored w3 = stored w1"
      then have "run h (RemoveCheckConditions_attempt m) w = (Inr (Some e, ?m'), w3)"
        unfolding eq using upd by (simp add: run_pbind run_ask)
      with st nm Some g show ?thesis by (auto simp: condition_write_def)
    qed
  qed
qed

text \<open>Retrying such a write is such a write: a run that is followed by another changed nothing.\<close>

lemma condition_write_retry:
  assumes srv: "whc_server h stored n ns"
    and attempt: "\<And>m w. named n ns m \<Longrightarrow> (\<And>x. stored w = Some x \<Longrightarrow> named n ns x) \<Longrightarrow>
       \<exists>e m' w'. run h (att m) w = (Inr (e, m'), w') \<and> named n ns m' \<and> condition_write f (stored w) e (stored w')"
    and m: "named n ns m" and x: "\<And>x. stored w = Some x \<Longrightarrow> named n ns x"
  shows "\<exists>e m' w'. run h (RetryOnConflict retry_again k att m) w = (Inr (e, m'), w') \<and> named n ns m' \<and>
     condition_write f (stored w) e (stored w')"
  using m x
proof (induction k arbitrary: m w)
  case 0
  then show ?case using attempt by simp
next
  case (Suc k)
  obtain e m' w1 where a: "run h (att m) w = (Inr (e, m'), w1)" "named n ns m'"
      "condition_write f (stored w) e (stored w1)"
    using attempt [OF Suc.prems] by blast
  obtain r w2 where ag: "h (RetryAgain e) w1 = (r, w2)" by (cases "h (RetryAgain e) w1")
  obtain b where b: "r = RBool b" "b \<longrightarrow> e \<noteq> None" and st: "stored w2 = stored w1"
    using server_again [OF srv ag] by blast
  have eq: "run h (RetryOnConflict retry_again (Suc k) att m) w =
      run h (if b then RetryOnConflict retry_again k att m' else Ret (e, m')) w2"
    using a ag b by (simp add: run_pbind run_ask)
  show ?case
  proof (cases b)
    case False
    with a st show ?thesis unfolding eq by auto
  next
    case True
    with b have "e \<noteq> None" by simp
    with a(3) have same: "stored w1 = stored w" by (auto simp: condition_write_def split: option.splits)
    have "\<exists>e m'' w'. run h (RetryOnConflict retry_again k att m') w2 = (Inr (e, m''), w') \<and> named n ns m'' \<and>
        condition_write f (stored w2) e (stored w')"
      using Suc.prems(2) st same by (intro Suc.IH [OF a(2)]) auto
    with True st same show ?thesis unfolding eq by simp
  qed
qed

lemma SetCondition_run:
  assumes "whc_server h stored n ns" and "named n ns m" and "\<And>x. stored w = Some x \<Longrightarrow> named n ns x"
  shows "\<exists>e m' w'. run h (SetCondition L c m) w = (Inr (e, m'), w') \<and> named n ns m' \<and>
     condition_write (\<lambda>t cs. lib_SetStatusCondition L cs c t) (stored w) e (stored w')"
  unfolding SetCondition_def
  by (rule condition_write_retry [OF assms(1) _ assms(2,3)]) (use SetCondition_attempt_run [OF assms(1)] in blast)+

lemma RemoveCheckConditions_run:
  assumes "whc_server h stored n ns" and "named n ns m" and "\<And>x. stored w = Some x \<Longrightarrow> named n ns x"
  shows "\<exists>e m' w'. run h (RemoveCheckConditions L m) w = (Inr (e, m'), w') \<and> named n ns m' \<and>
     condition_write (\<lambda>t cs. remaining_conditions cs) (stored w) e (stored w')"
  unfolding RemoveCheckConditions_def
  by (rule condition_write_retry [OF assms(1) _ assms(2,3)]) (use RemoveCheckConditions_attempt_run [OF assms(1)] in blast)+

section \<open>Instances for concrete runs\<close>

text \<open>
  A condition library and a server that keep the documented contracts, for the concrete runs
  at which theorems are instantiated.
\<close>

definition set_condition_list :: "Condition list \<Rightarrow> Condition \<Rightarrow> int \<Rightarrow> Condition list" where
  "set_condition_list cs c t =
     (let c' = c\<lparr>cond_LastTransitionTime := transition_time (List.find (\<lambda>o'. cond_Type o' = cond_Type c) cs) c t\<rparr>
      in if cond_Type c \<in> cond_Type ` set cs
         then map (\<lambda>o'. if cond_Type o' = cond_Type c then c' else o') cs
         else cs @ [c'])"

definition list_lib :: lib where
  "list_lib = \<lparr>lib_title = id, lib_SetStatusCondition = set_condition_list,
     lib_FindStatusCondition = (\<lambda>cs ty. List.find (\<lambda>c. cond_Type c = ty) cs),
     lib_IsStatusConditionPresentAndEqual =
       (\<lambda>cs ty st. case List.find (\<lambda>c. cond_Type c = ty) cs of None \<Rightarrow> False | Some c \<Rightarrow> cond_Status c = st),
     lib_marshal = (\<lambda>_. Inr ''recording''), lib_unmarshal = (\<lambda>_. Inl (Errorf ''not json'' None)), lib_retries = 4,
     lib_namespacedResources = [], lib_Error = (\<lambda>_. ''error''), lib_ParseGroupVersion = (\<lambda>gv. Inr ('''', gv)),
     lib_FromUnstructured = (\<lambda>u. Some \<lparr>svc_ClusterIP = '''', svc_ClusterIPs = [], svc_ExternalIPs = [],
        svc_LoadBalancerIP = '''', svc_others = u\<rparr>),
     lib_ToUnstructured = svc_others\<rparr>"

lemma find_map_same_type:
  "(\<And>o'. cond_Type (g o') = cond_Type o') \<Longrightarrow>
     List.find (\<lambda>c. cond_Type c = ty) (map g cs) = map_option g (List.find (\<lambda>c. cond_Type c = ty) cs)"
  by (induction cs) auto

lemma find_append: "List.find P (xs @ ys) = (case List.find P xs of None \<Rightarrow> List.find P ys | Some x \<Rightarrow> Some x)"
  by (induction xs) auto

lemma find_same_type: "List.find (\<lambda>c. cond_Type c = ty) cs = Some y \<Longrightarrow> cond_Type y = ty"
  by (induction cs) (auto split: if_splits)

lemma find_type_None: "List.find (\<lambda>c. cond_Type c = ty) cs = None \<longleftrightarrow> ty \<notin> cond_Type ` set cs"
  by (induction cs) auto

lemma find_set_condition_list:
  "List.find (\<lambda>c. cond_Type c = ty) (set_condition_list cs c t) =
     (if ty = cond_Type c
      then Some (c\<lparr>cond_LastTransitionTime := transition_time (List.find (\<lambda>c. cond_Type c = ty) cs) c t\<rparr>)
      else List.find (\<lambda>c. cond_Type c = ty) cs)"
proof (cases "List.find (\<lambda>o'. cond_Type o' = cond_Type c) cs")
  case None
  then have "set_condition_list cs c t = cs @ [c\<lparr>cond_LastTransitionTime := transition_time None c t\<rparr>]"
    by (simp add: set_condition_list_def Let_def flip: find_type_None)
  with None show ?thesis by (auto simp: find_append split: option.splits)
next
  case (Some o')
  let ?c' = "c\<lparr>cond_LastTransitionTime := transition_time (Some o') c t\<rparr>"
  let ?g = "\<lambda>o'. if cond_Type o' = cond_Type c then ?c' else o'"
  from Some have "cond_Type c \<in> cond_Type ` set cs" by (metis find_type_None option.distinct(1))
  with Some have "set_condition_list cs c t = map ?g cs"
    by (simp add: set_condition_list_def Let_def)
  then have eq: "List.find (\<lambda>c. cond_Type c = ty) (set_condition_list cs c t) =
      map_option ?g (List.find (\<lambda>c. cond_Type c = ty) cs)"
    by (simp add: find_map_same_type)
  show ?thesis
  proof (cases "List.find (\<lambda>c. cond_Type c = ty) cs")
    case None
    with Some have "ty \<noteq> cond_Type c" by auto
    with None show ?thesis by (simp add: eq)
  next
    case found: (Some y)
    with find_same_type [OF found] Some show ?thesis by (auto simp: eq)
  qed
qed

lemma list_lib_conditions: "conditions_library list_lib"
  unfolding conditions_library_def list_lib_def
  by (auto simp: find_set_condition_list split: option.splits)

text \<open>One check object and a clock.\<close>

fun one_object_server :: "(call, resp, Whc option \<times> int) handler" where
  "one_object_server (GetWhc n ns) (s, t) =
     (case s of Some x \<Rightarrow> if whc_Name x = n \<and> whc_Namespace x = ns then RWhc x else RErr (ApiError NotFound)
      | None \<Rightarrow> RErr (ApiError NotFound), (s, t))"
| "one_object_server (UpdateWhcStatus x) (s, t) =
     (case s of Some y \<Rightarrow>
        if whc_Name x = whc_Name y \<and> whc_Namespace x = whc_Namespace y
        then (ROk, (Some (y\<lparr>whc_Status := whc_Status x\<rparr>), t)) else (RErr (ApiError NotFound), (s, t))
      | None \<Rightarrow> (RErr (ApiError NotFound), (s, t)))"
| "one_object_server Now (s, t) = (RInt t, (s, t + second))"
| "one_object_server (RetryAgain e) (s, t) = (RBool False, (s, t))"
| "one_object_server c (s, t) = (ROk, (s, t))"

definition stored_at :: "string \<Rightarrow> string \<Rightarrow> Whc option \<times> int \<Rightarrow> Whc option" where
  "stored_at n ns w = (case fst w of Some x \<Rightarrow> if named n ns x then Some x else None | None \<Rightarrow> None)"

lemma one_object_server_other:
  assumes "one_object_server c w = (r, w')" and "\<And>x. c \<noteq> UpdateWhcStatus x"
  shows "fst w' = fst w"
  using assms by (cases w; cases c) (auto split: option.splits if_splits)

lemma one_object_server_typed: "one_object_server c w = (r, w') \<Longrightarrow> well_typed c r"
  by (cases w; cases c) (auto simp: well_typed_def split: option.splits if_splits)

lemma one_object_server_lawful: "whc_server one_object_server (stored_at n ns) n ns"
  unfolding whc_server_def
proof (intro allI impI conjI)
  fix c w r w'
  assume step: "one_object_server c w = (r, w')"
  then show "well_typed c r" by (rule one_object_server_typed)
  have same: "stored_at n ns w' = stored_at n ns w" if "\<And>x. c \<noteq> UpdateWhcStatus x"
    using one_object_server_other [OF step that] by (simp add: stored_at_def)
  obtain s t where w: "w = (s, t)" by (cases w)
  show "case c of
          GetWhc n' ns' \<Rightarrow> stored_at n ns w' = stored_at n ns w \<and>
            (n' = n \<and> ns' = ns \<longrightarrow> (case stored_at n ns w of Some x \<Rightarrow> r = RWhc x | None \<Rightarrow> r = RErr (ApiError NotFound)))
        | UpdateWhcStatus x \<Rightarrow>
            (if whc_Name x = n \<and> whc_Namespace x = ns \<and> r = ROk
             then stored_at n ns w' = map_option (\<lambda>y. y\<lparr>whc_Status := whc_Status x\<rparr>) (stored_at n ns w)
             else stored_at n ns w' = stored_at n ns w)
        | RetryAgain e \<Rightarrow> stored_at n ns w' = stored_at n ns w \<and>
            (r = RBool True \<longrightarrow> (\<exists>err. e = Some err \<and> IsConflict err))
        | _ \<Rightarrow> stored_at n ns w' = stored_at n ns w"
  proof (cases c)
    case (GetWhc n' ns')
    with same step show ?thesis
      by (cases s) (auto simp: w stored_at_def split: if_splits)
  next
    case (UpdateWhcStatus x)
    with step show ?thesis
      by (cases s) (auto simp: w stored_at_def split: if_splits)
  next
    case (RetryAgain e)
    with same step show ?thesis by (auto simp: w)
  qed (use same in simp_all)
qed

section \<open>Properties\<close>

text \<open>The units of the CRD's pattern \<open>^\<backslash>d+[smh]$\<close>.\<close>

definition crd_unit :: "char \<Rightarrow> int option" where
  "crd_unit c = map_of [(CHR ''s'', second), (CHR ''m'', minute), (CHR ''h'', hour)] c"

lemma crd_unit_unitMap: "crd_unit c = Some k \<Longrightarrow> unitMap [c] = Some (nat k) \<and> unit_char c \<and> 0 < k"
  by (auto simp: crd_unit_def unitMap_def unit_char_def is_digit_def split: if_splits)

text \<open>C36: the recording duration of every check the CRD's pattern admits, digits and one of s, m, h: the number
  of units where that is a 64-bit duration, and the default of five minutes where it is not or
  where the field is empty.\<close>

theorem GetCheckDuration_of_spec:
  assumes "ds \<noteq> []" and "list_all is_digit ds" and "crd_unit c = Some k"
  shows "(ws_RecordingDuration (whc_Spec m) = ds @ [c] \<longrightarrow>
      GetCheckDuration m = (if int (digits_val ds) * k < 2 ^ 63 then int (digits_val ds) * k else 5 * minute)) \<and>
    (ws_RecordingDuration (whc_Spec m) = '''' \<longrightarrow> GetCheckDuration m = 5 * minute)"
proof -
  note u = crd_unit_unitMap [OF assms(3)]
  then have k: "int (nat k) = k" by simp
  have "int (digits_val ds) * k = int (digits_val ds * nat k)" using u by simp
  then have cast: "int (digits_val ds) * k < 2 ^ 63 \<longleftrightarrow> digits_val ds * nat k < 2 ^ 63"
    by (metis of_nat_less_iff of_nat_numeral of_nat_power)
  show ?thesis
  proof (cases "digits_val ds * nat k < 2 ^ 63")
    case True
    with ParseDuration_crd [OF assms(1,2)] u have "ParseDuration (ds @ [c]) = Inr (int (digits_val ds) * k)" by auto
    with True cast show ?thesis by (simp add: GetCheckDuration_def)
  next
    case False
    with ParseDuration_crd_overflow [OF assms(1,2)] u have "ParseDuration (ds @ [c]) = Inl invalid_duration" by auto
    with False cast show ?thesis by (simp add: GetCheckDuration_def)
  qed
qed

definition sample_check :: Whc where
  "sample_check = \<lparr>whc_Name = ''web-check'', whc_Namespace = ''shop'', whc_Labels = [],
     whc_Spec = \<lparr>ws_TargetRef = \<lparr>tr_Kind = ''Deployment'', tr_Name = ''web''\<rparr>, ws_RecordingDuration = ''10m'',
       ws_RunMode = RunModeParallel, ws_SecurityContext = None, ws_Suffix = ''ab12''\<rparr>,
     whc_Status = \<lparr>wst_Conditions = [], wst_BaselineRuns = [], wst_CheckRuns = [], wst_FinalRun = None,
       wst_Recommendation = None\<rparr>\<rparr>"

lemma GetCheckDuration_of_spec_witness: "GetCheckDuration sample_check = 600000000000"
  using GetCheckDuration_of_spec [of "''10''" "CHR ''m''" minute sample_check]
  by (simp add: sample_check_def crd_unit_def is_digit_def digit_val_def digits_val_def)


lemma sample_stored:
  "stored_at ''web-check'' ''shop'' (Some sample_check, 0) = Some sample_check" "named ''web-check'' ''shop'' sample_check"
  by (simp_all add: stored_at_def sample_check_def)


text \<open>Resetting a check for another round keeps, of its conditions, exactly the finished and the analysis one, in
  their order, and nothing else of the stored check changes; an error leaves the stored check alone.\<close>

theorem RemoveCheckConditions_stores:
  assumes "whc_server h stored n ns" and "stored w = Some x" and "named n ns x" and "named n ns m"
  shows "\<exists>e m' w'. run h (RemoveCheckConditions L m) w = (Inr (e, m'), w') \<and>
    stored w' = Some (if e = None
      then with_conditions (filter (\<lambda>c. cond_Type c \<in> {ConditionTypeFinished, ConditionTypeAnalysis}) (conds x)) x else x)"
proof -
  have nx: "named n ns y" if "stored w = Some y" for y using that assms(2,3) by simp
  obtain e m' w' where r: "run h (RemoveCheckConditions L m) w = (Inr (e, m'), w')"
    and cw: "condition_write (\<lambda>t cs. remaining_conditions cs) (stored w) e (stored w')"
    using RemoveCheckConditions_run [where w = w, OF assms(1,4) nx] by blast
  with assms(2) show ?thesis by (auto simp: condition_write_def remaining_conditions_eq split: if_splits)
qed

lemma RemoveCheckConditions_stores_witness:
  "\<exists>e m' w'. run one_object_server (RemoveCheckConditions list_lib sample_check) (Some sample_check, 0) = (Inr (e, m'), w') \<and>
    stored_at ''web-check'' ''shop'' w' = Some (if e = None then with_conditions
      (filter (\<lambda>c. cond_Type c \<in> {ConditionTypeFinished, ConditionTypeAnalysis}) (conds sample_check)) sample_check else sample_check)"
  by (rule RemoveCheckConditions_stores [OF one_object_server_lawful, OF sample_stored(1,2,2)])

text \<open>What a condition question answers on a lawful server.\<close>

lemma ask_reason_run:
  assumes "conditions_library L" and srv: "whc_server h stored n ns"
    and x: "stored w = Some x" "named n ns x" and m: "named n ns m"
  shows "\<exists>w'. run h (ask_reason L ty st reasons m) w =
      (Inr (\<exists>c. lib_FindStatusCondition L (conds x) ty = Some c \<and> cond_Status c = st \<and> cond_Reason c \<in> set reasons, x), w') \<and>
    stored w' = Some x"
proof -
  obtain r w1 where get: "h (GetWhc n ns) w = (r, w1)" by (cases "h (GetWhc n ns) w")
  note g = server_get [OF srv get]
  obtain b where b: "reason_in L ty st reasons (conds x) = Inr b" using reason_in_total [OF assms(1)] by blast
  then have "b \<longleftrightarrow> (\<exists>c. lib_FindStatusCondition L (conds x) ty = Some c \<and> cond_Status c = st \<and> cond_Reason c \<in> set reasons)"
    using reason_in_iff [OF assms(1), of ty st reasons "conds x"] by auto
  with b g get x m show ?thesis
    by (simp add: ask_reason_def refreshWorkloadHardeningCheck_def run_pbind run_ask)
qed

text \<open>A recording is never at once finished and in progress. Asked one after the other of an unchanged
  check, \<open>CheckRecorded\<close> and \<open>CheckInProgress\<close> both answer, each with the check as it is stored,
  and at most one says yes; so do the two questions about the baseline.\<close>

theorem recorded_excludes_in_progress:
  assumes "conditions_library L" and "whc_server h stored n ns"
    and "stored w = Some x" and "named n ns x" and "named n ns m"
  shows "(\<exists>a b w1 w2. run h (CheckRecorded L ty m) w = (Inr (a, x), w1) \<and> run h (CheckInProgress L ty x) w1 = (Inr (b, x), w2) \<and> \<not> (a \<and> b)) \<and>
    (\<exists>a b w1 w2. run h (BaselineRecorded L m) w = (Inr (a, x), w1) \<and> run h (BaselineInProgress L x) w1 = (Inr (b, x), w2) \<and> \<not> (a \<and> b))"
proof -
  have two: "\<exists>a b w1 w2. run h (ask_reason L ty' ConditionTrue rs m) w = (Inr (a, x), w1) \<and>
      run h (ask_reason L ty' ConditionFalse rs' x) w1 = (Inr (b, x), w2) \<and> \<not> (a \<and> b)" for ty' rs rs'
  proof -
    obtain w1 where 1: "run h (ask_reason L ty' ConditionTrue rs m) w = (Inr (\<exists>c. lib_FindStatusCondition L (conds x) ty' = Some c \<and>
        cond_Status c = ConditionTrue \<and> cond_Reason c \<in> set rs, x), w1)" "stored w1 = Some x"
      using ask_reason_run [OF assms] by blast
    obtain w2 where 2: "run h (ask_reason L ty' ConditionFalse rs' x) w1 = (Inr (\<exists>c. lib_FindStatusCondition L (conds x) ty' = Some c \<and>
        cond_Status c = ConditionFalse \<and> cond_Reason c \<in> set rs', x), w2)"
      using ask_reason_run [OF assms(1,2) 1(2) assms(4,4)] by blast
    have "\<not> ((\<exists>c. lib_FindStatusCondition L (conds x) ty' = Some c \<and> cond_Status c = ConditionTrue \<and> cond_Reason c \<in> set rs) \<and>
        (\<exists>c. lib_FindStatusCondition L (conds x) ty' = Some c \<and> cond_Status c = ConditionFalse \<and> cond_Reason c \<in> set rs'))"
      by auto
    with 1(1) 2 show ?thesis by blast
  qed
  show ?thesis
    unfolding CheckRecorded_def CheckInProgress_def BaselineRecorded_def BaselineInProgress_def using two by blast
qed

lemma recorded_excludes_in_progress_witness:
  "\<exists>a b w1 w2. run one_object_server (CheckRecorded list_lib ''user'' sample_check) (Some sample_check, 0) = (Inr (a, sample_check), w1) \<and>
    run one_object_server (CheckInProgress list_lib ''user'' sample_check) w1 = (Inr (b, sample_check), w2) \<and> \<not> (a \<and> b)"
  by (rule recorded_excludes_in_progress [OF list_lib_conditions one_object_server_lawful, OF sample_stored(1,2,2), THEN conjunct1])

end
