(* ===== verification/Readiness.thy ===== *)
theory Readiness
  imports Effects
begin

text \<open>
  \<^verbatim>\<open>internal/workload/util.go\<close>: which workload kinds are supported, when a rollout is
  complete, and when a workload's pods are ready.
\<close>

section \<open>Supported kinds\<close>

definition supportedWorkloadKinds :: "string list" where
  "supportedWorkloadKinds = [''deployment'', ''statefulset'', ''daemonSet'']"

definition IsSupportedUnstructured :: "Unstructured \<Rightarrow> bool" where
  "IsSupportedUnstructured resource =
     (if u_Kind resource = '''' \<or> u_APIVersion resource = '''' then False
      else ToLower (u_Kind resource) \<in> set supportedWorkloadKinds)"

section \<open>Rollout\<close>

text \<open>The replica pointers are dereferenced as they are.\<close>

fun VerifyUpdated :: "workload \<Rightarrow> crash + (error + bool)" where
  "VerifyUpdated (WDeployment d) = (case dep_Replicas d of
     None \<Rightarrow> Inl NilDeref | Some n \<Rightarrow> Inr (Inr (n = dep_UpdatedReplicas d)))"
| "VerifyUpdated (WStatefulSet s) = (case sts_Replicas s of
     None \<Rightarrow> Inl NilDeref | Some n \<Rightarrow> Inr (Inr (n = sts_CurrentReplicas s)))"
| "VerifyUpdated (WDaemonSet d) = Inr (Inr (ds_DesiredNumberScheduled d = ds_UpdatedNumberScheduled d))"
| "VerifyUpdated (WOther ns n) = Inr (Inl (Errorf ''kind of workloadUnderTest not supported'' None))"

section \<open>Pods\<close>

definition GetPodsForWorkload :: "workload \<Rightarrow> (error + Pod list) io" where
  "GetPodsForWorkload w =
     pbind (as_label_selector (wl_Selector w)) (\<lambda>r. case r of
       Inl e \<Rightarrow> Ret (Inl (Errorf ''failed to get label selector'' (Some e)))
     | Inr sel \<Rightarrow> pbind (list_pods (wl_Namespace w) (Some sel)) (\<lambda>r. case r of
         Inl e \<Rightarrow> Ret (Inl (Errorf ''failed to list pods'' (Some e)))
       | Inr pods \<Rightarrow> Ret (Inr pods)))"

text \<open>The body of the two loops: the error the code returns at this container or pod, if any.\<close>

definition pod_path :: "Pod \<Rightarrow> string" where
  "pod_path pod = ''pod '' @ pod_Namespace pod @ ''/'' @ pod_Name pod"

definition container_problem :: "Pod \<Rightarrow> ContainerStatus \<Rightarrow> error option" where
  "container_problem pod s =
     (case cs_Waiting s of
        Some reason \<Rightarrow> Some (Errorf (pod_path pod @ '' container '' @ cs_Name s @ '' is waiting: '' @ reason) None)
      | None \<Rightarrow> (case cs_Terminated s of
          Some reason \<Rightarrow> Some (Errorf (pod_path pod @ '' container '' @ cs_Name s @ '' is terminated: '' @ reason) None)
        | None \<Rightarrow> if \<not> cs_Ready s
            then Some (Errorf (pod_path pod @ '' container '' @ cs_Name s @ '' is not ready'') None)
            else None))"

fun first_problem :: "('a \<Rightarrow> error option) \<Rightarrow> 'a list \<Rightarrow> error option" where
  "first_problem f [] = None"
| "first_problem f (x # xs) = (case f x of Some e \<Rightarrow> Some e | None \<Rightarrow> first_problem f xs)"

definition pod_problem :: "Pod \<Rightarrow> error option" where
  "pod_problem pod =
     (if pod_Phase pod \<noteq> PodRunning then Some (Errorf (pod_path pod @ '' is not running'') None)
      else if length (pod_ContainerStatuses pod) = 0
      then Some (Errorf (pod_path pod @ '' has no container statuses'') None)
      else first_problem (container_problem pod) (pod_ContainerStatuses pod))"

definition VerifyReadiness :: "workload \<Rightarrow> (error + bool) io" where
  "VerifyReadiness w =
     pbind (GetPodsForWorkload w) (\<lambda>r. case r of
       Inl e \<Rightarrow> Ret (Inl (Errorf ''failed to get pods for workload'' (Some e)))
     | Inr pods \<Rightarrow>
         if length pods = 0
         then Ret (Inl (Errorf (''no pods found for workload '' @ wl_Namespace w @ ''/'' @ wl_Name w) None))
         else (case first_problem pod_problem pods of
             Some e \<Rightarrow> Ret (Inl e)
           | None \<Rightarrow> Ret (Inr True)))"

text \<open>The answer as the callers that write \<open>ready, _ := VerifyReadiness(..)\<close> use it: false beside an error.\<close>

definition bool_of :: "error + bool \<Rightarrow> bool" where
  "bool_of r = (case r of Inl e \<Rightarrow> False | Inr b \<Rightarrow> b)"

lemma bool_of_simps [simp]: "bool_of (Inl e) = False" "bool_of (Inr b) = b"
  by (simp_all add: bool_of_def)

section \<open>What readiness means\<close>

text \<open>The specification: some pod is there, and every pod runs with every container ready.\<close>

definition container_ready :: "ContainerStatus \<Rightarrow> bool" where
  "container_ready s \<longleftrightarrow> cs_Waiting s = None \<and> cs_Terminated s = None \<and> cs_Ready s"

definition pod_ready :: "Pod \<Rightarrow> bool" where
  "pod_ready pod \<longleftrightarrow> pod_Phase pod = PodRunning \<and> pod_ContainerStatuses pod \<noteq> [] \<and>
     (\<forall>s \<in> set (pod_ContainerStatuses pod). container_ready s)"

definition all_ready :: "Pod list \<Rightarrow> bool" where
  "all_ready pods \<longleftrightarrow> pods \<noteq> [] \<and> (\<forall>pod \<in> set pods. pod_ready pod)"

lemma first_problem_None: "first_problem f xs = None \<longleftrightarrow> (\<forall>x \<in> set xs. f x = None)"
  by (induction xs) (auto split: option.splits)

lemma container_problem_None: "container_problem pod s = None \<longleftrightarrow> container_ready s"
  by (auto simp: container_problem_def container_ready_def split: option.splits)

lemma pod_problem_None: "pod_problem pod = None \<longleftrightarrow> pod_ready pod"
  by (auto simp: pod_problem_def pod_ready_def first_problem_None container_problem_None)

lemma no_pod_problem: "pods \<noteq> [] \<Longrightarrow> first_problem pod_problem pods = None \<longleftrightarrow> all_ready pods"
  by (auto simp: all_ready_def first_problem_None pod_problem_None)

lemma lower_daemonSet: "ToLower s \<noteq> ''daemonSet''"
proof
  assume "ToLower s = ''daemonSet''"
  then have "ToLower ''daemonSet'' = ''daemonSet''" by (metis ToLower_idem)
  then show False by (simp add: ToLower_def lower_char_def char_of_def)
qed

lemma VerifyReadiness_calls: "calls_only (\<lambda>c. \<exists>s ns sel. c = AsSelector s \<or> c = ListPods ns (Some sel)) (VerifyReadiness w)"
  unfolding VerifyReadiness_def GetPodsForWorkload_def by (auto intro!: calls_intros)

section \<open>Properties\<close>

text \<open>Whether a workload is ready, for the pods \<open>pods\<close> the API server lists under its selector: the answer is true
  exactly when there is at least one pod and every pod is in phase Running, reports its containers,
  and reports each of them neither waiting nor terminated and ready; otherwise it is an error.\<close>

theorem VerifyReadiness_iff:
  "\<exists>r. drive (VerifyReadiness w) [RSelector sel, RPods pods] =
      ([(AsSelector (wl_Selector w), RSelector sel), (ListPods (wl_Namespace w) (Some sel), RPods pods)], Returned r) \<and>
    (r = Inr True \<longleftrightarrow> all_ready pods) \<and> ((\<exists>e. r = Inl e) \<longleftrightarrow> \<not> all_ready pods)"
proof (cases "pods = []")
  case True
  then show ?thesis by (simp add: VerifyReadiness_def GetPodsForWorkload_def ask_def all_ready_def)
next
  case False
  then show ?thesis using no_pod_problem [OF False]
    by (cases "first_problem pod_problem pods") (auto simp: VerifyReadiness_def GetPodsForWorkload_def ask_def)
qed

text \<open>An unstructured object counts as a workload the operator supports when it has an API version and its kind
  is, in any case, deployment or statefulset. A DaemonSet never counts: the table spells it \<open>daemonSet\<close>
  and is searched for the lowercased kind.\<close>

theorem supported_iff:
  "IsSupportedUnstructured u \<longleftrightarrow> u_APIVersion u \<noteq> '''' \<and> ToLower (u_Kind u) \<in> {''deployment'', ''statefulset''}"
  using lower_daemonSet [of "u_Kind u"]
  by (auto simp: IsSupportedUnstructured_def supportedWorkloadKinds_def ToLower_def)

end
