(* ===== verification/Manager.thy ===== *)
theory Manager
  imports Conditions Readiness Checks
begin

text \<open>
  \<^verbatim>\<open>internal/workload/manager.go\<close> and \<^verbatim>\<open>check_types.go\<close>: the \<open>WorkloadCheckManager\<close>. Its state is
  its copy \<open>m\<close> of the check object; the map \<open>allChecks\<close> is the package registry, which no code
  changes after the \<open>init\<close> functions ran.
\<close>

section \<open>The workload under test\<close>

text \<open>\<open>kind_of\<close> is the switch on the lowercased kind; an unknown kind leaves the object nil.\<close>

definition kind_of :: "string \<Rightarrow> workload_kind option" where
  "kind_of kind =
     (if ToLower kind = ''deployment'' then Some KDeployment
      else if ToLower kind = ''statefulset'' then Some KStatefulSet
      else if ToLower kind = ''daemonset'' then Some KDaemonSet
      else None)"

definition GetWorkloadUnderTest :: "Whc \<Rightarrow> string \<Rightarrow> (error + workload) io" where
  "GetWorkloadUnderTest m ns =
     (let ref = ws_TargetRef (whc_Spec m)
      in pbind (get_workload (kind_of (tr_Kind ref)) ns (tr_Name ref)) (\<lambda>r. case r of
           Inl e \<Rightarrow> if IsNotFound e
             then Ret (Inl (Errorf ''TargetRef not found. You must reference an existing workload to test it'' None))
             else Ret (Inl (Errorf ''failed to get workloadHardeningCheck.Spec.TargetRef'' (Some e)))
         | Inr w \<Rightarrow> Ret (Inr w)))"

definition GetReplicaCount :: "Whc \<Rightarrow> string \<Rightarrow> (error + int32) io" where
  "GetReplicaCount m ns =
     pbind (GetWorkloadUnderTest m ns) (\<lambda>r. case r of
       Inl e \<Rightarrow> Ret (Inl (Errorf ''failed to get workload under test'' (Some e)))
     | Inr (WDeployment d) \<Rightarrow> Ret (Inr (case dep_Replicas d of Some n \<Rightarrow> n | None \<Rightarrow> 1))
     | Inr (WStatefulSet s) \<Rightarrow> Ret (Inr (case sts_Replicas s of Some n \<Rightarrow> n | None \<Rightarrow> 1))
     | Inr (WDaemonSet d) \<Rightarrow> Ret (Inl (Errorf ''cannot scale DaemonSet'' None))
     | Inr (WOther _ _) \<Rightarrow> Ret (Inl (Errorf ''unsupported workload kind'' None)))"

fun set_replicas :: "int32 \<Rightarrow> workload \<Rightarrow> error + workload" where
  "set_replicas n (WDeployment d) = Inr (WDeployment (d\<lparr>dep_Replicas := Some n\<rparr>))"
| "set_replicas n (WStatefulSet s) = Inr (WStatefulSet (s\<lparr>sts_Replicas := Some n\<rparr>))"
| "set_replicas n (WDaemonSet d) = Inl (Errorf ''cannot scale DaemonSet'' None)"
| "set_replicas n (WOther _ _) = Inl (Errorf ''unsupported workload kind'' None)"

text \<open>The retried function, its captured workload pointer the state.\<close>

definition Scale_attempt :: "string \<Rightarrow> int32 \<Rightarrow> workload \<Rightarrow> (error option \<times> workload) io" where
  "Scale_attempt ns replicas w =
     pbind (get_workload (wl_kind w) ns (wl_Name w)) (\<lambda>r. case r of
       Inl e \<Rightarrow> if IsNotFound e then Ret (None, w)
         else Ret (Some (Errorf ''failed to re-fetch WorkloadHardeningCheck'' (Some e)), w)
     | Inr w1 \<Rightarrow> (case set_replicas replicas w1 of
         Inl e \<Rightarrow> Ret (Some e, w1)
       | Inr w2 \<Rightarrow> pbind (update_workload w2) (\<lambda>e. Ret (e, w2))))"

definition ScaleWorkloadUnderTest :: "lib \<Rightarrow> Whc \<Rightarrow> string \<Rightarrow> int32 \<Rightarrow> error option io" where
  "ScaleWorkloadUnderTest L m ns replicas =
     pbind (GetWorkloadUnderTest m ns) (\<lambda>r. case r of
       Inl e \<Rightarrow> Ret (Some (Errorf ''failed to get workload under test'' (Some e)))
     | Inr w \<Rightarrow> pbind (RetryOnConflict retry_again (lib_retries L) (Scale_attempt ns replicas) w) (\<lambda>(e, _). Ret e))"

definition GetPodSpecTemplate :: "Whc \<Rightarrow> string \<Rightarrow> (error + PodSpec) io" where
  "GetPodSpecTemplate m ns =
     pbind (GetWorkloadUnderTest m ns) (\<lambda>r. case r of
       Inl e \<Rightarrow> Ret (Inl (Errorf ''failed to get workload under test'' (Some e)))
     | Inr w \<Rightarrow> (case podSpecTemplate w of
         Some p \<Rightarrow> Ret (Inr p)
       | None \<Rightarrow> Ret (Inl (Errorf ''unsupported workload kind'' None))))"

definition VerifyRunning :: "Whc \<Rightarrow> string \<Rightarrow> (error + bool) io" where
  "VerifyRunning m ns =
     pbind (GetWorkloadUnderTest m ns) (\<lambda>r. case r of
       Inl e \<Rightarrow> Ret (Inl (Errorf ''failed to get workload under test'' (Some e)))
     | Inr w \<Rightarrow> VerifyReadiness w)"

definition GetLabelSelector :: "Whc \<Rightarrow> (error + string) io" where
  "GetLabelSelector m =
     pbind (GetWorkloadUnderTest m (whc_Namespace m)) (\<lambda>r. case r of
       Inl e \<Rightarrow> Ret (Inl e)
     | Inr w \<Rightarrow> as_label_selector (wl_Selector w))"

section \<open>The checks that are required\<close>

text \<open>One round of the loop over \<open>allChecks\<close>: the set of types so far and the manager's copy.\<close>

definition require_check ::
  "lib \<Rightarrow> workload \<Rightarrow> string \<times> check \<Rightarrow> string list \<times> Whc \<Rightarrow> (string list \<times> Whc) io" where
  "require_check L w = (\<lambda>(_, check) (types, m).
     pbind (lift_go (ShouldRun check (podSpecTemplate w))) (\<lambda>b.
       if \<not> b then Ret (types, m)
       else
         let checkType = GetType check;
             types' = List.insert checkType types
         in if lib_FindStatusCondition L (conds m) (check_condition L checkType) = None
            then pbind (SetCondition L (mk_condition (check_condition L checkType) ConditionUnknown
                     ReasonCheckNotStarted (''Check '' @ checkType @ '' has not been started yet'')) m)
                   (\<lambda>(_, m'). Ret (types', m'))
            else Ret (types', m)))"

definition GetRequiredCheckRuns :: "lib \<Rightarrow> Whc \<Rightarrow> (string list \<times> Whc) io" where
  "GetRequiredCheckRuns L m =
     pbind (GetWorkloadUnderTest m (whc_Namespace m)) (\<lambda>r. case r of
       Inl e \<Rightarrow> Ret ([], m)
     | Inr w \<Rightarrow>
         pbind map_order (\<lambda>\<sigma>.
         pbind (pfold (require_check L w) (arrange \<sigma> (GetAllChecks init_registry)) ([], m)) (\<lambda>(types, m').
         pbind map_order (\<lambda>\<sigma>'. Ret (collect_keys \<sigma>' types, m')))))"

text \<open>
  The default function writes through the pointers of the context it is handed. That context is
  the one in the manager's copy of the check's spec where the spec has one, so the copy changes;
  a type that is not in the map yields a nil interface, whose method call panics.
\<close>

definition GetSecurityContextForCheckType :: "string \<Rightarrow> Whc \<Rightarrow> crash + (SecurityContextDefaults \<times> Whc)" where
  "GetSecurityContextForCheckType checkType m =
     (case map_of (GetAllChecks init_registry) checkType of
        None \<Rightarrow> Inl NilDeref
      | Some check \<Rightarrow> (case ws_SecurityContext (whc_Spec m) of
          None \<Rightarrow> (case GetSecurityContextDefaults check \<lparr>sd_Pod = Some empty_pd, sd_Container = Some empty_cd\<rparr> of
              Inl e \<Rightarrow> Inl e
            | Inr sc \<Rightarrow> Inr (sc, m))
        | Some base \<Rightarrow> (case GetSecurityContextDefaults check base of
              Inl e \<Rightarrow> Inl e
            | Inr sc \<Rightarrow> Inr (sc, m\<lparr>whc_Spec := (whc_Spec m)\<lparr>ws_SecurityContext := Some sc\<rparr>\<rparr>))))"

text \<open>The loop over the required checks returns at the first that is not recorded.\<close>

primrec all_recorded :: "lib \<Rightarrow> string list \<Rightarrow> Whc \<Rightarrow> (bool \<times> Whc) io" where
  "all_recorded L [] m = Ret (True, m)"
| "all_recorded L (t # ts) m =
     pbind (CheckRecorded L t m) (\<lambda>(b, m). if b then all_recorded L ts m else Ret (False, m))"

definition AllChecksFinished :: "lib \<Rightarrow> Whc \<Rightarrow> (bool \<times> Whc) io" where
  "AllChecksFinished L m =
     pbind (refreshWorkloadHardeningCheck m) (\<lambda>m.
     pbind (BaselineRecorded L m) (\<lambda>(b, m).
       if \<not> b then Ret (False, m)
       else pbind (GetRequiredCheckRuns L m) (\<lambda>(types, m). all_recorded L types m)))"

section \<open>The recommendation\<close>

text \<open>The contexts the first loop collects: runs that are not the baseline and did not fail.\<close>

definition successful :: "CheckRun \<Rightarrow> bool" where
  "successful r \<longleftrightarrow> cr_Name r \<noteq> ''baseline'' \<and> cr_CheckSuccessfull r \<noteq> Some False"

definition collect_contexts :: "CheckRun list \<Rightarrow> (string \<times> SecurityContextDefaults option) list" where
  "collect_contexts runs =
     fold (\<lambda>r acc. if cr_Name r = ''baseline'' then acc
            else if cr_CheckSuccessfull r = Some False then acc
            else map_put (cr_Name r) (cr_SecurityContext r) acc) runs []"

text \<open>One round of the merging loop; a run without a context is dereferenced all the same.\<close>

definition merge_context ::
  "string \<times> SecurityContextDefaults option \<Rightarrow> PodSecurityContext option \<times> SecurityContext option \<Rightarrow>
   (PodSecurityContext option \<times> SecurityContext option) io" where
  "merge_context = (\<lambda>(_, sd) (psc, sc). case sd of
     None \<Rightarrow> Crash NilDeref
   | Some d \<Rightarrow> pbind map_order (\<lambda>\<sigma>.
       Ret (mergePodSecurityContexts psc (PodDefaults_ToK8s (sd_Pod d)),
            mergeContainerSecurityContexts \<sigma> sc (ContainerDefaults_ToK8s (sd_Container d)))))"

definition manifest_contexts :: "PodSpec \<Rightarrow> PodSecurityContext \<times> SecurityContext" where
  "manifest_contexts p =
     (case ps_SecurityContext p of Some psc \<Rightarrow> psc | None \<Rightarrow> empty_psc,
      case ps_Containers p of c # _ \<Rightarrow> (case ct_SecurityContext c of Some sc \<Rightarrow> sc | None \<Rightarrow> empty_sc) | [] \<Rightarrow> empty_sc)"

definition set_recommendation :: "Recommendation \<Rightarrow> Whc \<Rightarrow> Whc" where
  "set_recommendation r m = m\<lparr>whc_Status := (whc_Status m)\<lparr>wst_Recommendation := Some r\<rparr>\<rparr>"

definition SetRecommendation_attempt :: "Recommendation \<Rightarrow> Whc \<Rightarrow> (error option \<times> Whc) io" where
  "SetRecommendation_attempt r m =
     pbind (get_whc (whc_Name m) (whc_Namespace m)) (\<lambda>a. case a of
       Inl e \<Rightarrow> Ret (Some (Errorf ''failed to re-fetch WorkloadHardeningCheck'' (Some e)), m)
     | Inr x \<Rightarrow> let m' = set_recommendation r x in pbind (update_whc_status m') (\<lambda>e. Ret (e, m')))"

definition SetRecommendation :: "lib \<Rightarrow> Whc \<Rightarrow> (error option \<times> Whc) io" where
  "SetRecommendation L m =
     pbind map_order (\<lambda>\<sigma>.
     let contexts = collect_contexts (map snd (arrange \<sigma> (wst_CheckRuns (whc_Status m)))) in
     pbind (GetPodSpecTemplate m (whc_Namespace m)) (\<lambda>r. case r of
       Inl e \<Rightarrow> Ret (Some (Errorf ''failed to get workload under test'' (Some e)), m)
     | Inr p \<Rightarrow>
         pbind map_order (\<lambda>\<sigma>'.
         pbind (pfold merge_context (arrange \<sigma>' contexts)
                  (Some (fst (manifest_contexts p)), Some (snd (manifest_contexts p)))) (\<lambda>(psc, sc).
         pbind (RetryOnConflict retry_again (lib_retries L) (SetRecommendation_attempt
                  \<lparr>rec_ContainerSecurityContexts = sc, rec_PodSecurityContext = psc\<rparr>) m) (\<lambda>(e, m').
         Ret (map_option (\<lambda>e. Errorf ''failed to update recommendation in WorkloadHardeningCheck status'' (Some e)) e, m'))))))"

definition recommended_pod :: "PodSecurityContext option \<Rightarrow> PodSecurityContextDefaults" where
  "recommended_pod o' = (case o' of None \<Rightarrow> empty_pd
   | Some p \<Rightarrow> empty_pd\<lparr>pd_RunAsGroup := psc_RunAsGroup p, pd_RunAsUser := psc_RunAsUser p,
       pd_RunAsNonRoot := psc_RunAsNonRoot p, pd_FSGroup := psc_FSGroup p\<rparr>)"

definition recommended_container :: "SecurityContext option \<Rightarrow> ContainerSecurityContextDefaults" where
  "recommended_container o' = (case o' of None \<Rightarrow> empty_cd
   | Some c \<Rightarrow> empty_cd\<lparr>cd_RunAsGroup := sc_RunAsGroup c, cd_RunAsUser := sc_RunAsUser c,
       cd_RunAsNonRoot := sc_RunAsNonRoot c, cd_ReadOnlyRootFilesystem := sc_ReadOnlyRootFilesystem c,
       cd_AllowPrivilegeEscalation := sc_AllowPrivilegeEscalation c,
       cd_CapabilitiesDrop := (case sc_Capabilities c of
           Some cap \<Rightarrow> (case cap_Drop cap of Some d \<Rightarrow> Some d | None \<Rightarrow> Some [])
         | None \<Rightarrow> Some [])\<rparr>)"

definition GetRecommendedSecurityContext :: "Whc \<Rightarrow> SecurityContextDefaults option" where
  "GetRecommendedSecurityContext m =
     (if \<not> RecommendationExists m then None
      else case wst_Recommendation (whc_Status m) of
          None \<Rightarrow> None
        | Some r \<Rightarrow> Some \<lparr>sd_Pod = Some (recommended_pod (rec_PodSecurityContext r)),
            sd_Container = Some (recommended_container (rec_ContainerSecurityContexts r))\<rparr>)"

section \<open>Facts about the workload under test\<close>

lemma GetWorkloadUnderTest_kind:
  "ensures (\<lambda>r. \<forall>w. r = Inr w \<longrightarrow> wl_kind w = kind_of (tr_Kind (ws_TargetRef (whc_Spec m))) \<and> wl_kind w \<noteq> None)
     (GetWorkloadUnderTest m ns)"
  unfolding GetWorkloadUnderTest_def Let_def
  by (auto simp: or_err_def as_workload_of_def split: resp.splits sum.splits if_splits)

lemma podSpecTemplate_kind: "wl_kind w \<noteq> None \<Longrightarrow> \<exists>p. podSpecTemplate w = Some p"
  by (cases w) auto

lemma GetWorkloadUnderTest_run:
  assumes "h (GetWorkload (wl_kind wl) ns (tr_Name (ws_TargetRef (whc_Spec m)))) w = (RWorkload wl, w1)"
    and "kind_of (tr_Kind (ws_TargetRef (whc_Spec m))) = wl_kind wl" and "wl_kind wl \<noteq> None"
  shows "run h (GetWorkloadUnderTest m ns) w = (Inr (Inr wl), w1)"
  using assms by (simp add: GetWorkloadUnderTest_def run_pbind run_ask Let_def)

text \<open>A scale never touches a DaemonSet, and writes nothing but the replica count.\<close>

definition scaled_to :: "int32 \<Rightarrow> workload \<Rightarrow> bool" where
  "scaled_to n w = (case w of
     WDeployment d \<Rightarrow> dep_Replicas d = Some n
   | WStatefulSet s \<Rightarrow> sts_Replicas s = Some n
   | _ \<Rightarrow> False)"

lemma set_replicas_scaled: "set_replicas n w = Inr w' \<Longrightarrow> scaled_to n w' \<and> podSpecTemplate w' = podSpecTemplate w"
  by (cases w) (auto simp: scaled_to_def)

definition scale_call :: "int32 \<Rightarrow> call \<Rightarrow> bool" where
  "scale_call n c = (case c of
     GetWorkload _ _ _ \<Rightarrow> True
   | UpdateWorkload w \<Rightarrow> scaled_to n w
   | RetryAgain _ \<Rightarrow> True
   | _ \<Rightarrow> False)"

lemma scale_call_simps [simp]:
  "scale_call n (GetWorkload k ns nm)" "scale_call n (RetryAgain e)"
  "scale_call n (UpdateWorkload w) \<longleftrightarrow> scaled_to n w"
  by (simp_all add: scale_call_def)

lemma ScaleWorkloadUnderTest_calls: "calls_only (scale_call n) (ScaleWorkloadUnderTest L m ns n)"
  unfolding ScaleWorkloadUnderTest_def Scale_attempt_def GetWorkloadUnderTest_def Let_def
  by (intro calls_intros) (auto intro!: calls_intros simp: set_replicas_scaled)

section \<open>Facts about the required checks\<close>

lemma require_check_types:
  assumes "podSpecTemplate w = Some p"
  shows "ensures (\<lambda>(types', m'). types' = (if capability_ShouldRun (snd c) p then List.insert (GetType (snd c)) types else types))
     (require_check L w c (types, m))"
  using assms by (auto simp: require_check_def Let_def split: prod.splits intro!: ensures_mono [OF ensures_True])

lemma require_checks_types:
  assumes p: "podSpecTemplate w = Some p"
  shows "distinct types \<Longrightarrow> ensures (\<lambda>(types', m'). distinct types' \<and>
       set types' = set types \<union> {GetType c | c. c \<in> snd ` set cs \<and> capability_ShouldRun c p})
     (pfold (require_check L w) cs (types, m))"
proof (induction cs arbitrary: types m)
  case (Cons c cs)
  have "ensures (\<lambda>a. ensures (\<lambda>(types', m'). distinct types' \<and>
       set types' = set types \<union> {GetType d | d. d \<in> snd ` set (c # cs) \<and> capability_ShouldRun d p})
     (pfold (require_check L w) cs a)) (require_check L w c (types, m))"
  proof (rule ensures_mono [OF require_check_types [OF p]], clarify)
    fix m'
    show "ensures (\<lambda>(types', m'). distinct types' \<and>
        set types' = set types \<union> {GetType d | d. d \<in> snd ` set (c # cs) \<and> capability_ShouldRun d p})
      (pfold (require_check L w) cs (if capability_ShouldRun (snd c) p then List.insert (GetType (snd c)) types else types, m'))"
      by (rule ensures_mono [OF Cons.IH]) (use Cons.prems in \<open>auto split: if_splits\<close>)
  qed
  then show ?case by simp
qed simp

text \<open>The check types that apply to a pod template.\<close>

definition applicable :: "PodSpec \<Rightarrow> string set" where
  "applicable p = {GetType c | c. capability_ShouldRun c p}"

lemma registered: "snd ` set (GetAllChecks init_registry) = UNIV"
proof -
  have "c \<in> snd ` set (GetAllChecks init_registry)" for c
    using init_registry_checks [of "GetType c" c] unfolding GetAllChecks_def by (auto dest!: map_of_SomeD simp: rev_image_eqI)
  then show ?thesis by blast
qed

lemma GetRequiredCheckRuns_types:
  assumes wl: "h (GetWorkload (wl_kind wl) (whc_Namespace m) (tr_Name (ws_TargetRef (whc_Spec m)))) w = (RWorkload wl, w1)"
    and kind: "kind_of (tr_Kind (ws_TargetRef (whc_Spec m))) = wl_kind wl" and p: "podSpecTemplate wl = Some p"
    and ret: "run h (GetRequiredCheckRuns L m) w = (Inr (types, m'), w')"
  shows "distinct types \<and> set types = applicable p"
proof -
  from p have k: "wl_kind wl \<noteq> None" by (cases wl) auto
  note fetched = GetWorkloadUnderTest_run [where h = h and m = m and ns = "whc_Namespace m" and w = w, OF wl kind k]
  have "ensures (\<lambda>(types, m'). distinct types \<and> set types = applicable p)
     (pbind map_order (\<lambda>\<sigma>. pbind (pfold (require_check L wl) (arrange \<sigma> (GetAllChecks init_registry)) ([], m)) (\<lambda>(types, m').
         pbind map_order (\<lambda>\<sigma>'. Ret (collect_keys \<sigma>' types, m')))))"
    by (auto simp: applicable_def registered split: prod.splits intro!: ensures_mono [OF require_checks_types [OF p]])
  moreover have "run h (pbind map_order (\<lambda>\<sigma>. pbind (pfold (require_check L wl) (arrange \<sigma> (GetAllChecks init_registry)) ([], m))
      (\<lambda>(types, m'). pbind map_order (\<lambda>\<sigma>'. Ret (collect_keys \<sigma>' types, m'))))) w1 = (Inr (types, m'), w')"
    using ret by (simp add: GetRequiredCheckRuns_def run_pbind_Inr [OF fetched])
  ultimately have "case (types, m') of (types, m') \<Rightarrow> distinct types \<and> set types = applicable p" by (rule ensures_run)
  then show ?thesis by simp
qed

section \<open>Facts about the recommendation\<close>

lemma collect_contexts_snoc:
  "collect_contexts (rs @ [r]) =
     (if successful r then map_put (cr_Name r) (cr_SecurityContext r) (collect_contexts rs) else collect_contexts rs)"
  by (simp add: collect_contexts_def successful_def)

lemma distinct_collect_contexts: "distinct (map fst (collect_contexts rs))"
proof (induction rs rule: rev_induct)
  case (snoc r rs)
  then show ?case by (simp add: collect_contexts_snoc distinct_map_put)
qed (simp add: collect_contexts_def)

text \<open>With one run per name the collected contexts are those of the successful runs.\<close>

lemma collect_contexts_iff:
  "distinct (map cr_Name rs) \<Longrightarrow> map_of (collect_contexts rs) n = Some sd \<longleftrightarrow>
     (\<exists>r \<in> set rs. successful r \<and> cr_Name r = n \<and> cr_SecurityContext r = sd)"
proof (induction rs arbitrary: sd rule: rev_induct)
  case (snoc r rs)
  then have IH: "map_of (collect_contexts rs) n = Some sd \<longleftrightarrow>
      (\<exists>r \<in> set rs. successful r \<and> cr_Name r = n \<and> cr_SecurityContext r = sd)" for sd
    by simp
  from snoc.prems have new: "cr_Name r \<notin> cr_Name ` set rs" by simp
  show ?case
  proof (cases "successful r \<and> cr_Name r = n")
    case True
    with new have "\<not> (\<exists>r \<in> set rs. cr_Name r = n)" by (metis image_eqI)
    with True show ?thesis by (auto simp: collect_contexts_snoc)
  next
    case False
    then show ?thesis by (auto simp: collect_contexts_snoc IH)
  qed
qed (simp add: collect_contexts_def)

lemma set_collect_contexts:
  assumes "distinct (map cr_Name rs)"
  shows "set (collect_contexts rs) = {(cr_Name r, cr_SecurityContext r) | r. r \<in> set rs \<and> successful r}"
proof -
  have "p \<in> set (collect_contexts rs) \<longleftrightarrow> map_of (collect_contexts rs) (fst p) = Some (snd p)" for p
    using distinct_collect_contexts [of rs] by simp
  then show ?thesis by (auto simp: collect_contexts_iff [OF assms])
qed

text \<open>
  What the merging loop promises: it started from \<open>p0\<close> and \<open>c0\<close>, which the result keeps, and
  the result answers every context in \<open>done\<close>.
\<close>

definition merged ::
  "PodSecurityContext \<Rightarrow> SecurityContext \<Rightarrow> SecurityContextDefaults set \<Rightarrow>
   PodSecurityContext option \<times> SecurityContext option \<Rightarrow> bool" where
  "merged p0 c0 done = (\<lambda>(psc, sc). \<exists>p c. psc = Some p \<and> sc = Some c \<and> psc_keeps p0 p \<and> sc_keeps c0 c \<and>
     (\<forall>d \<in> done. (\<forall>e. PodDefaults_ToK8s (sd_Pod d) = Some e \<longrightarrow> psc_covers e p) \<and>
                 (\<forall>e. ContainerDefaults_ToK8s (sd_Container d) = Some e \<longrightarrow> sc_covers e c)))"

lemma merged_start: "merged p c {} (Some p, Some c)"
  by (simp add: merged_def pod.keeps_refl container.keeps_refl)

lemma merged_step:
  assumes "merged p0 c0 done (psc, sc)"
  shows "merged p0 c0 (insert d done) (mergePodSecurityContexts psc (PodDefaults_ToK8s (sd_Pod d)),
            mergeContainerSecurityContexts \<sigma> sc (ContainerDefaults_ToK8s (sd_Container d)))"
proof -
  from assms obtain p c where pc: "psc = Some p" "sc = Some c" "psc_keeps p0 p" "sc_keeps c0 c"
    and cov: "\<And>d e. d \<in> done \<Longrightarrow> PodDefaults_ToK8s (sd_Pod d) = Some e \<Longrightarrow> psc_covers e p"
      "\<And>d e. d \<in> done \<Longrightarrow> ContainerDefaults_ToK8s (sd_Container d) = Some e \<Longrightarrow> sc_covers e c"
    by (auto simp: merged_def)
  obtain p' where p': "mergePodSecurityContexts psc (PodDefaults_ToK8s (sd_Pod d)) = Some p'" "psc_keeps p p'"
    unfolding pc using pod.step_keeps by blast
  obtain c' where c': "mergeContainerSecurityContexts \<sigma> sc (ContainerDefaults_ToK8s (sd_Container d)) = Some c'" "sc_keeps c c'"
    unfolding pc using container.step_keeps by blast
  have "psc_covers e p'" if "PodDefaults_ToK8s (sd_Pod d) = Some e" for e
    using p'(1) unfolding pc that by (rule pod.merge_covers)
  moreover have "sc_covers e c'" if "ContainerDefaults_ToK8s (sd_Container d) = Some e" for e
    using c'(1) unfolding pc that by (rule container.merge_covers)
  moreover have "psc_keeps p0 p'" "sc_keeps c0 c'"
    using pc p' c' by (blast intro: pod.keeps_trans container.keeps_trans)+
  moreover have "psc_covers e p'" if "d \<in> done" "PodDefaults_ToK8s (sd_Pod d) = Some e" for d e
    using cov(1) [OF that] p'(2) by (rule pod.keeps_covers)
  moreover have "sc_covers e c'" if "d \<in> done" "ContainerDefaults_ToK8s (sd_Container d) = Some e" for d e
    using cov(2) [OF that] c'(2) by (rule container.keeps_covers)
  ultimately show ?thesis
    using p'(1) c'(1) unfolding merged_def by (simp only: prod.case option.inject ex_simps simp_thms) blast
qed

lemma merge_loop:
  "merged p0 c0 done s \<Longrightarrow> ensures (\<lambda>s'. None \<notin> snd ` set xs \<and> merged p0 c0 (done \<union> {d. Some d \<in> snd ` set xs}) s')
     (pfold merge_context xs s)"
proof (induction xs arbitrary: s "done")
  case (Cons x xs)
  obtain psc sc n sd where s: "s = (psc, sc)" "x = (n, sd)" by (cases s; cases x)
  show ?case
  proof (cases sd)
    case None
    then show ?thesis by (simp add: s merge_context_def)
  next
    case (Some d)
    have eq: "done \<union> {d. Some d \<in> snd ` set (x # xs)} = insert d done \<union> {d. Some d \<in> snd ` set xs}"
      by (auto simp: s Some)
    show ?thesis
      using Cons.IH [OF merged_step [OF Cons.prems [unfolded s]]]
      by (simp only: eq) (simp add: s Some merge_context_def)
  qed
qed simp

text \<open>Reading the recommendation back and merging it into the manifest it came from gives it again.\<close>

lemma kept_fill_eq: "kept a b \<Longrightarrow> fill a b = b"
  by (auto simp: kept_def)

lemma recommended_pod_again:
  assumes "psc_keeps p0 p"
  shows "\<exists>m. mergePodSecurityContexts (Some p0) (PodDefaults_ToK8s (Some (recommended_pod (Some p)))) = Some m \<and>
     psc_RunAsUser m = psc_RunAsUser p \<and> psc_RunAsGroup m = psc_RunAsGroup p \<and>
     psc_FSGroup m = psc_FSGroup p \<and> psc_RunAsNonRoot m = psc_RunAsNonRoot p"
proof -
  have k: "fill (psc_RunAsUser p0) (psc_RunAsUser p) = psc_RunAsUser p" "fill (psc_RunAsGroup p0) (psc_RunAsGroup p) = psc_RunAsGroup p"
    "fill (psc_FSGroup p0) (psc_FSGroup p) = psc_FSGroup p" "fill (psc_RunAsNonRoot p0) (psc_RunAsNonRoot p) = psc_RunAsNonRoot p"
    using assms unfolding psc_keeps_def by (blast intro: kept_fill_eq)+
  show ?thesis
    by (simp add: mergePodSecurityContexts_def recommended_pod_def PodDefaults_ToK8s_def empty_pd_def empty_psc_def k)
qed

lemma mergeContainer_fields:
  assumes "mergeContainerSecurityContexts \<sigma> (Some b) e = Some m"
  shows "sc_RunAsUser m = fill (sc_RunAsUser b) (Option.bind e sc_RunAsUser)"
    and "sc_RunAsGroup m = fill (sc_RunAsGroup b) (Option.bind e sc_RunAsGroup)"
    and "sc_AllowPrivilegeEscalation m = fill (sc_AllowPrivilegeEscalation b) (Option.bind e sc_AllowPrivilegeEscalation)"
    and "sc_ReadOnlyRootFilesystem m = fill (sc_ReadOnlyRootFilesystem b) (Option.bind e sc_ReadOnlyRootFilesystem)"
    and "drops (sc_Capabilities m) = drops (sc_Capabilities b) \<union> drops (Option.bind e sc_Capabilities)"
  using assms by (cases e; simp add: mergeContainerSecurityContexts_def del: drops_simps(2); fastforce)+

lemma recommended_container_again:
  assumes "sc_keeps c0 c"
  shows "\<exists>m. mergeContainerSecurityContexts \<sigma> (Some c0) (ContainerDefaults_ToK8s (Some (recommended_container (Some c)))) = Some m \<and>
     sc_RunAsUser m = sc_RunAsUser c \<and> sc_RunAsGroup m = sc_RunAsGroup c \<and>
     sc_AllowPrivilegeEscalation m = sc_AllowPrivilegeEscalation c \<and>
     sc_ReadOnlyRootFilesystem m = sc_ReadOnlyRootFilesystem c \<and> drops (sc_Capabilities m) = drops (sc_Capabilities c)"
proof -
  obtain e where e: "ContainerDefaults_ToK8s (Some (recommended_container (Some c))) = Some e"
    by (cases "ContainerDefaults_ToK8s (Some (recommended_container (Some c)))") simp_all
  then have dr: "drops (sc_Capabilities e) = drops (sc_Capabilities c)"
    using drops_ToK8s [of "Some (recommended_container (Some c))"]
    by (auto simp: recommended_container_def empty_cd_def drops_def split: option.splits)
  from e have ef: "sc_RunAsUser e = sc_RunAsUser c" "sc_RunAsGroup e = sc_RunAsGroup c"
    "sc_AllowPrivilegeEscalation e = sc_AllowPrivilegeEscalation c" "sc_ReadOnlyRootFilesystem e = sc_ReadOnlyRootFilesystem c"
    by (auto simp: ContainerDefaults_ToK8s_def recommended_container_def empty_cd_def empty_sc_def)
  have sub: "drops (sc_Capabilities c0) \<union> drops (sc_Capabilities c) = drops (sc_Capabilities c)"
    using assms unfolding sc_keeps_def by blast
  have k: "fill (sc_RunAsUser c0) (sc_RunAsUser c) = sc_RunAsUser c" "fill (sc_RunAsGroup c0) (sc_RunAsGroup c) = sc_RunAsGroup c"
    "fill (sc_AllowPrivilegeEscalation c0) (sc_AllowPrivilegeEscalation c) = sc_AllowPrivilegeEscalation c"
    "fill (sc_ReadOnlyRootFilesystem c0) (sc_ReadOnlyRootFilesystem c) = sc_ReadOnlyRootFilesystem c"
    using assms unfolding sc_keeps_def by (blast intro: kept_fill_eq)+
  obtain m where m: "mergeContainerSecurityContexts \<sigma> (Some c0) (Some e) = Some m"
    using container.merge_some by blast
  show ?thesis
    unfolding e using m mergeContainer_fields [OF m] by (simp only: bind.bind_lunit ef k dr sub) blast
qed

section \<open>Properties\<close>

text \<open>C23: the check types the operator finds necessary for a workload are exactly those of the checks whose
  \<open>ShouldRun\<close> says yes to its pod template, each once, whatever order the runtime visits the registry in
  and whatever becomes of the conditions written on the way.\<close>

theorem required_checks_applicable:
  assumes "h (GetWorkload (wl_kind wl) (whc_Namespace m) (tr_Name (ws_TargetRef (whc_Spec m)))) w = (RWorkload wl, w1)"
    and "kind_of (tr_Kind (ws_TargetRef (whc_Spec m))) = wl_kind wl" and "podSpecTemplate wl = Some p"
    and "run h (GetRequiredCheckRuns L m) w = (Inr (types, m'), w')"
  shows "distinct types \<and> (\<forall>t. t \<in> set types \<longleftrightarrow> (\<exists>c. t = GetType c \<and> ShouldRun c (podSpecTemplate wl) = Inr True))"
  using GetRequiredCheckRuns_types [OF assms] assms(3) by (auto simp: applicable_def)

text \<open>A cluster that only knows one workload and keeps no state.\<close>

fun workload_server :: "workload \<Rightarrow> (call, resp, unit) handler" where
  "workload_server wl (GetWorkload k ns n) w = (RWorkload wl, w)"
| "workload_server wl MapOrder w = (RPicks [], w)"
| "workload_server wl (GetWhc n ns) w = (RErr (ApiError NotFound), w)"
| "workload_server wl (RetryAgain e) w = (RBool False, w)"
| "workload_server wl c w = (ROk, w)"

lemma kind_of_Deployment: "kind_of ''Deployment'' = Some KDeployment"
  by code_simp

lemma SetCondition_gone:
  "run (workload_server wl) (SetCondition L c m) w = (Inr (None, m), w)"
proof -
  have "run (workload_server wl) (RetryOnConflict retry_again n (SetCondition_attempt L c) m) w = (Inr (None, m), w)" for n
    by (cases n) (simp_all add: SetCondition_attempt_def run_pbind run_ask)
  then show ?thesis by (simp add: SetCondition_def)
qed

lemma require_check_gone:
  "run (workload_server wl) (require_check L wl' c (ts, m)) w = (case ShouldRun (snd c) (podSpecTemplate wl') of
     Inl e \<Rightarrow> (Inl e, w) | Inr b \<Rightarrow> (Inr (if b then List.insert (GetType (snd c)) ts else ts, m), w))"
  by (auto simp: require_check_def Let_def run_pbind SetCondition_gone split: sum.splits prod.splits)

text \<open>The sample Deployment, whose container runs as root with nothing else said, needs all five checks.\<close>

lemma required_checks_root_deployment:
  "run (workload_server (WDeployment root_deployment)) (GetRequiredCheckRuns list_lib sample_check) () =
     (Inr ([''user'', ''readOnlyRootFilesystem'', ''group'', ''dropAllCapabilities'', ''allowPrivilegeEscalation''], sample_check), ())"
proof -
  have reg: "GetAllChecks init_registry = map (\<lambda>c. (GetType c, c))
      [AllowPrivilegeEscalationCheck, DropAllCapabilitiesCheck, GroupCheck, ReadOnlyRootFilesystemCheck, UserCheck]"
    by (simp add: GetAllChecks_def init_registry_def RegisterCheck_def)
  have fetch: "run (workload_server (WDeployment root_deployment)) (GetWorkloadUnderTest sample_check ''shop'') () =
      (Inr (Inr (WDeployment root_deployment)), ())"
    by (rule GetWorkloadUnderTest_run) (simp_all add: sample_check_def kind_of_Deployment)
  have ns: "whc_Namespace sample_check = ''shop''" by (simp add: sample_check_def)
  have shouldRun: "capability_ShouldRun c (dep_PodSpec root_deployment)" for c
    by (cases c) (simp_all add: root_deployment_def root_container_def empty_sc_def AllowPrivilegeEscalation_ShouldRun_def
        some_container_keeps_all_def Group_ShouldRun_def ReadOnlyRootFilesystem_ShouldRun_def User_ShouldRun_def)
  show ?thesis
    unfolding GetRequiredCheckRuns_def
    by (simp add: run_pbind ns fetch run_ask reg arrange_no_picks require_check_gone shouldRun collect_keys_def)
qed

lemma required_checks_applicable_witness:
  "distinct [''user'', ''readOnlyRootFilesystem'', ''group'', ''dropAllCapabilities'', ''allowPrivilegeEscalation''] \<and>
   (\<forall>t. t \<in> set [''user'', ''readOnlyRootFilesystem'', ''group'', ''dropAllCapabilities'', ''allowPrivilegeEscalation''] \<longleftrightarrow>
      (\<exists>c. t = GetType c \<and> ShouldRun c (podSpecTemplate (WDeployment root_deployment)) = Inr True))"
  by (rule required_checks_applicable [OF _ _ _ required_checks_root_deployment, where p = "dep_PodSpec root_deployment"])
    (simp_all add: sample_check_def kind_of_Deployment)


lemma drive_ask:
  "drive (pbind (ask c dec) f) (r # rs) = (case dec r of None \<Rightarrow> ([(c, r)], Crashed IllTyped)
     | Some a \<Rightarrow> (case drive (f a) rs of (l, out) \<Rightarrow> ((c, r) # l, out)))"
  "drive (pbind (ask c dec) f) [] = ([], Waiting c)"
  by (auto simp: ask_def split: option.splits prod.splits)

lemma drive_GetPodSpecTemplate:
  assumes "podSpecTemplate wl = Some p" and "drive (pbind (GetPodSpecTemplate m ns) f) (RWorkload wl # rs) = (l, Returned a)"
  shows "\<exists>l'. drive (f (Inr p)) rs = (l', Returned a)"
proof -
  let ?k = "kind_of (tr_Kind (ws_TargetRef (whc_Spec m)))"
  show ?thesis
  proof (cases "?k \<noteq> None \<and> wl_kind wl = ?k")
    case True
    with assms show ?thesis
      by (auto simp: GetPodSpecTemplate_def GetWorkloadUnderTest_def Let_def pbind_assoc drive_ask split: prod.splits)
  next
    case False
    with assms(2) show ?thesis
      by (auto simp: GetPodSpecTemplate_def GetWorkloadUnderTest_def Let_def pbind_assoc drive_ask split: prod.splits)
  qed
qed

text \<open>What a recommendation made of a pod template promises for the runs it was made from.\<close>

definition makes_settings :: "SecurityContextDefaults \<Rightarrow> PodSecurityContext \<Rightarrow> SecurityContext \<Rightarrow> bool" where
  "makes_settings d psc sc \<longleftrightarrow> (\<forall>e. PodDefaults_ToK8s (sd_Pod d) = Some e \<longrightarrow> psc_covers e psc) \<and>
     (\<forall>e. ContainerDefaults_ToK8s (sd_Container d) = Some e \<longrightarrow> sc_covers e sc)"

definition recommends :: "PodSpec \<Rightarrow> CheckRun set \<Rightarrow> Recommendation \<Rightarrow> bool" where
  "recommends p runs r \<longleftrightarrow> (\<exists>psc sc. rec_PodSecurityContext r = Some psc \<and> rec_ContainerSecurityContexts r = Some sc \<and>
     psc_keeps (fst (manifest_contexts p)) psc \<and> sc_keeps (snd (manifest_contexts p)) sc \<and>
     (\<forall>run \<in> runs. successful run \<longrightarrow> (\<exists>d. cr_SecurityContext run = Some d \<and> makes_settings d psc sc)))"

lemma SetRecommendation_retry:
  "ensures (\<lambda>(e, m'). e = None \<longrightarrow> wst_Recommendation (whc_Status m') = Some r)
     (RetryOnConflict retry_again n (SetRecommendation_attempt r) m)"
proof -
  have "ensures (\<lambda>(e, m'). True \<and> (case (e, m') of (e, m') \<Rightarrow> e = None \<longrightarrow> wst_Recommendation (whc_Status m') = Some r))
     (RetryOnConflict retry_again n (SetRecommendation_attempt r) m)"
    by (rule ensures_retry)
      (auto simp: SetRecommendation_attempt_def set_recommendation_def Let_def split: sum.splits)
  then show ?thesis by simp
qed

lemma SetRecommendation_merged:
  assumes "set contexts = {(cr_Name r, cr_SecurityContext r) | r. r \<in> runs \<and> successful r}"
  shows "ensures (\<lambda>(e, m'). e = None \<longrightarrow> (\<exists>r. wst_Recommendation (whc_Status m') = Some r \<and> recommends p runs r))
     (pbind (pfold merge_context contexts (Some (fst (manifest_contexts p)), Some (snd (manifest_contexts p)))) (\<lambda>(psc, sc).
         pbind (RetryOnConflict retry_again n (SetRecommendation_attempt
                  \<lparr>rec_ContainerSecurityContexts = sc, rec_PodSecurityContext = psc\<rparr>) m) (\<lambda>(e, m').
         Ret (map_option (\<lambda>e. Errorf txt (Some e)) e, m'))))"
proof (rule ensures_pbindI [OF merge_loop [OF merged_start]], clarify)
  fix psc sc
  assume none: "None \<notin> snd ` set contexts"
    and m: "merged (fst (manifest_contexts p)) (snd (manifest_contexts p)) ({} \<union> {d. Some d \<in> snd ` set contexts}) (psc, sc)"
  let ?r = "\<lparr>rec_ContainerSecurityContexts = sc, rec_PodSecurityContext = psc\<rparr>"
  have "recommends p runs ?r"
  proof -
    from m obtain p' c' where pc: "psc = Some p'" "sc = Some c'" "psc_keeps (fst (manifest_contexts p)) p'"
        "sc_keeps (snd (manifest_contexts p)) c'"
      and cov: "\<And>d. Some d \<in> snd ` set contexts \<Longrightarrow> makes_settings d p' c'"
      by (auto simp: merged_def makes_settings_def)
    have "\<exists>d. cr_SecurityContext run = Some d \<and> Some d \<in> snd ` set contexts" if "run \<in> runs" "successful run" for run
    proof -
      from that assms have "(cr_Name run, cr_SecurityContext run) \<in> set contexts" by blast
      then have "cr_SecurityContext run \<in> snd ` set contexts" by (rule rev_image_eqI) simp
      with none show ?thesis by (cases "cr_SecurityContext run") auto
    qed
    with cov have "\<forall>run \<in> runs. successful run \<longrightarrow> (\<exists>d. cr_SecurityContext run = Some d \<and> makes_settings d p' c')"
      by blast
    with pc show ?thesis unfolding recommends_def by simp
  qed
  then show "ensures (\<lambda>(e, m'). e = None \<longrightarrow> (\<exists>r. wst_Recommendation (whc_Status m') = Some r \<and> recommends p runs r))
     (pbind (RetryOnConflict retry_again n (SetRecommendation_attempt ?r) m) (\<lambda>(e, m').
         Ret (map_option (\<lambda>e. Errorf txt (Some e)) e, m')))"
    by (auto intro!: ensures_mono [OF SetRecommendation_retry])
qed


definition user_run :: CheckRun where
  "user_run = \<lparr>cr_Name = ''user'', cr_RecordingSuccessfull = Some True, cr_CheckSuccessfull = Some True,
     cr_SecurityContext = Some \<lparr>sd_Pod = Some (empty_pd\<lparr>pd_RunAsUser := Some 1000\<rparr>), sd_Container = None\<rparr>,
     cr_FailureReason = '''', cr_LogAnomalies = None, cr_CpuDeviation = None, cr_MemoryDeviation = None\<rparr>"

definition recorded_check :: Whc where
  "recorded_check = sample_check\<lparr>whc_Status := (whc_Status sample_check)\<lparr>wst_CheckRuns := [(''user'', user_run)]\<rparr>\<rparr>"

definition user_recommendation :: Recommendation where
  "user_recommendation = \<lparr>rec_ContainerSecurityContexts = Some (empty_sc\<lparr>sc_RunAsUser := Some 0\<rparr>),
     rec_PodSecurityContext = Some (empty_psc\<lparr>psc_RunAsUser := Some 1000\<rparr>)\<rparr>"

lemma set_recommendation_stored:
  "wst_Recommendation (whc_Status (set_recommendation r m)) = Some r"
  by (simp add: set_recommendation_def)

lemma SetRecommendation_recorded_check:
  "\<exists>l. drive (SetRecommendation list_lib recorded_check) [RPicks [], RWorkload (WDeployment root_deployment), RPicks [],
     RPicks [], RWhc recorded_check, ROk, RBool False] = (l, Returned (None, set_recommendation user_recommendation recorded_check))"
proof -
  have runs: "wst_CheckRuns (whc_Status recorded_check) = [(''user'', user_run)]"
    "collect_contexts [user_run] = [(''user'', cr_SecurityContext user_run)]"
    "ws_TargetRef (whc_Spec recorded_check) = \<lparr>tr_Kind = ''Deployment'', tr_Name = ''web''\<rparr>"
    "cr_SecurityContext user_run = Some \<lparr>sd_Pod = Some (empty_pd\<lparr>pd_RunAsUser := Some 1000\<rparr>), sd_Container = None\<rparr>"
    by (simp_all add: recorded_check_def collect_contexts_def user_run_def sample_check_def)
  have retries: "lib_retries list_lib = Suc (Suc (Suc (Suc 0)))" by (simp add: list_lib_def)
  have manifest: "manifest_contexts (dep_PodSpec root_deployment) = (empty_psc, empty_sc\<lparr>sc_RunAsUser := Some 0\<rparr>)"
    by (simp add: manifest_contexts_def root_deployment_def root_container_def)
  have merged: "mergePodSecurityContexts (Some empty_psc) (PodDefaults_ToK8s (Some (empty_pd\<lparr>pd_RunAsUser := Some 1000\<rparr>))) =
      Some (empty_psc\<lparr>psc_RunAsUser := Some 1000\<rparr>)"
    by (simp add: mergePodSecurityContexts_def defaults_defs)
  show ?thesis
    unfolding SetRecommendation_def GetPodSpecTemplate_def GetWorkloadUnderTest_def Let_def pbind_assoc runs
    by (simp add: runs retries manifest drive_ask arrange_no_picks kind_of_Deployment pbind_assoc merge_context_def
        SetRecommendation_attempt_def Let_def merged container.nil_extends user_recommendation_def)
qed



lemma user_recommends: "recommends (dep_PodSpec root_deployment) {} user_recommendation"
  by (simp add: recommends_def user_recommendation_def manifest_contexts_def root_deployment_def root_container_def
      psc_keeps_def sc_keeps_def empty_psc_def empty_sc_def)


end
