(* ===== verification/Valkey.thy ===== *)
theory Valkey
  imports Conditions
begin

text \<open>
  \<^verbatim>\<open>internal/valkey/client.go\<close>: the recordings in the key-value store. The store and the JSON
  encoder are not the program's: they are the calls \<open>KvSet\<close>, \<open>KvGet\<close>, \<open>KvDel\<close> and two fields of \<open>lib\<close>.
\<close>

section \<open>Operations\<close>

definition storeEntry :: "string \<Rightarrow> string \<Rightarrow> error option io" where
  "storeEntry key val = ask (KvSet (ToLower key) val (24 * hour)) as_done"

definition getEntry :: "string \<Rightarrow> (error + string) io" where
  "getEntry key = pbind (ask (KvGet (ToLower key)) (or_err as_string)) (\<lambda>r. case r of
     Inl e \<Rightarrow> Ret (Inl e)
   | Inr res \<Rightarrow> if length res = 0 then Ret (Inr '''') else Ret (Inr res))"

definition deleteEntry :: "string \<Rightarrow> error option io" where
  "deleteEntry key = ask (KvDel (ToLower key)) as_done"

definition StoreRecording :: "lib \<Rightarrow> string \<Rightarrow> WorkloadRecording \<Rightarrow> error option io" where
  "StoreRecording L suffix rec =
     (let key = ''recording:'' @ suffix @ '':'' @ rc_Type rec
      in case lib_marshal L rec of
           Inl e \<Rightarrow> Ret (Some e)
         | Inr json \<Rightarrow> storeEntry key json)"

definition GetRecording :: "lib \<Rightarrow> string \<Rightarrow> (error + WorkloadRecording option) io" where
  "GetRecording L keySuffix =
     pbind (getEntry (''recording:'' @ keySuffix)) (\<lambda>r. case r of
       Inl e \<Rightarrow> Ret (Inl e)
     | Inr val \<Rightarrow>
         if val = '''' then Ret (Inr None)
         else (case lib_unmarshal L val of Inl e \<Rightarrow> Ret (Inl e) | Inr rec \<Rightarrow> Ret (Inr (Some rec))))"

definition DeleteRecording :: "string \<Rightarrow> string \<Rightarrow> error option io" where
  "DeleteRecording keySuffix recordingType = deleteEntry (''recording:'' @ keySuffix @ '':'' @ recordingType)"

section \<open>A lawful store and encoder\<close>

text \<open>
  What the round trip assumes: a GET answers what the last successful SET of that key wrote, a
  failed SET or DEL changes nothing, and decoding undoes encoding (which never gives the empty
  string).
\<close>

definition kv_server :: "(call, resp, 'w) handler \<Rightarrow> ('w \<Rightarrow> string \<Rightarrow> string option) \<Rightarrow> bool" where
  "kv_server h kv \<longleftrightarrow>
     (\<forall>k v d w r w'. h (KvSet k v d) w = (r, w') \<longrightarrow>
        r = ROk \<and> kv w' = (kv w)(k \<mapsto> v) \<or> (\<exists>e. r = RErr e) \<and> kv w' = kv w) \<and>
     (\<forall>k w r w'. h (KvGet k) w = (r, w') \<longrightarrow> kv w' = kv w \<and>
        (case kv w k of Some v \<Rightarrow> r = RString v | None \<Rightarrow> r = RString '''' \<or> (\<exists>e. r = RErr e))) \<and>
     (\<forall>k w r w'. h (KvDel k) w = (r, w') \<longrightarrow>
        r = ROk \<and> kv w' = (kv w)(k := None) \<or> (\<exists>e. r = RErr e) \<and> kv w' = kv w)"

definition json_roundtrip :: "lib \<Rightarrow> WorkloadRecording \<Rightarrow> bool" where
  "json_roundtrip L rec \<longleftrightarrow> (\<forall>s. lib_marshal L rec = Inr s \<longrightarrow> s \<noteq> '''' \<and> lib_unmarshal L s = Inr rec)"

definition recording_key :: "string \<Rightarrow> string" where
  "recording_key keySuffix = ToLower (''recording:'' @ keySuffix)"

lemma StoreRecording_run:
  assumes "kv_server h kv" and "run h (StoreRecording L suffix rec) w = (Inr None, w')"
  shows "\<exists>s. lib_marshal L rec = Inr s \<and> kv w' = (kv w)(recording_key (suffix @ '':'' @ rc_Type rec) \<mapsto> s)"
proof -
  from assms(2) obtain s where s: "lib_marshal L rec = Inr s"
    by (auto simp: StoreRecording_def split: sum.splits)
  let ?k = "recording_key (suffix @ '':'' @ rc_Type rec)"
  obtain r w1 where set: "h (KvSet ?k s (24 * hour)) w = (r, w1)" by (cases "h (KvSet ?k s (24 * hour)) w")
  with assms(2) s have "as_done r = Some None" "w1 = w'"
    by (auto simp: StoreRecording_def storeEntry_def recording_key_def run_ask split: option.splits)
  moreover from assms(1) set have "r = ROk \<and> kv w1 = (kv w)(?k \<mapsto> s) \<or> (\<exists>e. r = RErr e) \<and> kv w1 = kv w"
    unfolding kv_server_def by blast
  ultimately show ?thesis using s by auto
qed

lemma GetRecording_run:
  assumes srv: "kv_server h kv" and s: "kv w (recording_key key) = Some s"
    and js: "s \<noteq> ''''" "lib_unmarshal L s = Inr rec"
  shows "\<exists>w'. run h (GetRecording L key) w = (Inr (Inr (Some rec)), w') \<and> kv w' = kv w"
proof -
  obtain r w' where get: "h (KvGet (recording_key key)) w = (r, w')" by (cases "h (KvGet (recording_key key)) w")
  from srv get have "kv w' = kv w \<and> (case kv w (recording_key key) of Some v \<Rightarrow> r = RString v | None \<Rightarrow> r = RString '''' \<or> (\<exists>e. r = RErr e))"
    unfolding kv_server_def by blast
  with s have "kv w' = kv w" "r = RString s" by simp_all
  with get js show ?thesis
    by (simp add: GetRecording_def getEntry_def recording_key_def run_pbind run_ask)
qed

text \<open>A store in a function, for concrete runs.\<close>

fun kv_memory :: "(call, resp, string \<Rightarrow> string option) handler" where
  "kv_memory (KvSet k v d) w = (ROk, w(k \<mapsto> v))"
| "kv_memory (KvGet k) w = (case w k of Some v \<Rightarrow> (RString v, w) | None \<Rightarrow> (RErr (Errorf ''valkey nil message'' None), w))"
| "kv_memory (KvDel k) w = (ROk, w(k := None))"
| "kv_memory MapOrder w = (RPicks [], w)"
| "kv_memory c w = (ROk, w)"

lemma kv_memory_lawful: "kv_server kv_memory (\<lambda>w. w)"
  by (simp add: kv_server_def split: option.splits)

section \<open>Properties\<close>


definition sample_recording :: WorkloadRecording where
  "sample_recording = \<lparr>rc_Type = ''user'', rc_Success = True, rc_StartTime = 0, rc_EndTime = 60,
     rc_SecurityContextConfigurations = None, rc_RecordedMetrics = [], rc_Logs = [(''app'', [''ready'', ''boom''])]\<rparr>"

text \<open>A library whose encoder knows that recording.\<close>

definition recording_lib :: "lib \<Rightarrow> lib" where
  "recording_lib L = L\<lparr>lib_marshal := (\<lambda>_. Inr ''json''), lib_unmarshal := (\<lambda>_. Inr sample_recording)\<rparr>"


end
