(* ===== verification/LogOracle.thy ===== *)
theory LogOracle
  imports Effects Durations
begin

text \<open>
  \<^verbatim>\<open>pkg/orakel/logs.go\<close>: log templates and anomalies. The Drain miner is a library: its state
  type is \<open>'d\<close> and its operations are the fields of \<open>drain\<close>, a parameter.
\<close>

section \<open>The miner\<close>

record 'd drain =
  dr_new :: 'd
  dr_Train :: "string \<Rightarrow> 'd \<Rightarrow> 'd"
  dr_Match :: "string \<Rightarrow> 'd \<Rightarrow> bool \<times> 'd"       \<comment> \<open>a cluster was found, and the miner afterwards\<close>
  dr_Clusters :: "'d \<Rightarrow> string list"            \<comment> \<open>\<open>Cluster.String\<close> of each cluster\<close>

record 'd LogOrakel =
  lo_Drain :: 'd
  lo_BaselineLogsCount :: nat
  lo_TargetLogCount :: nat
  lo_Anomalies :: "string list"

definition NewLogOrakel :: "'d drain \<Rightarrow> 'd LogOrakel" where
  "NewLogOrakel D = \<lparr>lo_Drain = dr_new D, lo_BaselineLogsCount = 0, lo_TargetLogCount = 0, lo_Anomalies = []\<rparr>"

section \<open>Reading a cluster\<close>

text \<open>
  The regular expression \<^verbatim>\<open>id=\{\d+\}\s+:\s+size=\{(\d+)\}\s+:\s+(.*)$\<close>, unanchored, as a parser: each
  repetition is followed by a character it cannot match, so the greedy match is the only one;
  the last group runs to the end of the text and has no newline.
\<close>

definition re_space :: "char \<Rightarrow> bool" where
  "re_space c \<longleftrightarrow> (of_char c :: nat) \<in> {9, 10, 12, 13, 32}"

definition literal :: "string \<Rightarrow> string \<Rightarrow> string option" where
  "literal p s = (if take (length p) s = p then Some (drop (length p) s) else None)"

definition many1 :: "(char \<Rightarrow> bool) \<Rightarrow> string \<Rightarrow> (string \<times> string) option" where
  "many1 P s = (if takeWhile P s = [] then None else Some (takeWhile P s, dropWhile P s))"

definition separator :: "string \<Rightarrow> string option" where
  "separator s = Option.bind (many1 re_space s) (\<lambda>(_, s). Option.bind (literal '':'' s) (\<lambda>s.
     map_option snd (many1 re_space s)))"

definition match_here :: "string \<Rightarrow> (string \<times> string) option" where
  "match_here s =
     Option.bind (literal ''id={'' s) (\<lambda>s. Option.bind (many1 is_digit s) (\<lambda>(_, s).
     Option.bind (literal ''}'' s) (\<lambda>s. Option.bind (separator s) (\<lambda>s.
     Option.bind (literal ''size={'' s) (\<lambda>s. Option.bind (many1 is_digit s) (\<lambda>(n, s).
     Option.bind (literal ''}'' s) (\<lambda>s. Option.bind (separator s) (\<lambda>template.
       if list_ex (\<lambda>c. (of_char c :: nat) = 10) template then None else Some (n, template)))))))))"

fun FindStringSubmatch :: "string \<Rightarrow> (string \<times> string) option" where
  "FindStringSubmatch [] = match_here []"
| "FindStringSubmatch (c # s) = (case match_here (c # s) of Some m \<Rightarrow> Some m | None \<Rightarrow> FindStringSubmatch s)"

text \<open>\<open>strconv.Atoi\<close> with its error dropped: out of range gives the largest integer.\<close>

definition Atoi :: "string \<Rightarrow> int" where
  "Atoi digits = min (int (digits_val digits)) (2 ^ 63 - 1)"

section \<open>Operations\<close>

text \<open>A cluster that does not match leaves \<open>matches\<close> nil, and indexing it panics.\<close>

primrec cluster_templates :: "string list \<Rightarrow> (string \<times> int) list \<Rightarrow> crash + (string \<times> int) list" where
  "cluster_templates [] acc = Inr acc"
| "cluster_templates (c # cs) acc = (case FindStringSubmatch (TrimSpace c) of
     None \<Rightarrow> Inl IndexOutOfRange
   | Some (n, template) \<Rightarrow> cluster_templates cs (map_put template (Atoi n) acc))"

text \<open>
  \<open>sort.Slice\<close> by size, descending. It may reorder equal keys; the order the keys come in is the
  map's, which is open, so a stable sort of any order covers the same results.
\<close>

definition GetTemplates :: "'d drain \<Rightarrow> nat list \<Rightarrow> 'd LogOrakel \<Rightarrow> crash + string list" where
  "GetTemplates D \<sigma> o' = (case cluster_templates (dr_Clusters D (lo_Drain o')) [] of
     Inl e \<Rightarrow> Inl e
   | Inr templates \<Rightarrow> Inr (sort_key (\<lambda>k. - the (map_of templates k)) (arrange \<sigma> (map fst templates))))"

definition load_line :: "'d drain \<Rightarrow> string \<Rightarrow> 'd LogOrakel \<Rightarrow> 'd LogOrakel" where
  "load_line D line o' =
     (if TrimSpace line = '''' then o'
      else o'\<lparr>lo_BaselineLogsCount := lo_BaselineLogsCount o' + 1,
              lo_Drain := dr_Train D (TrimSpace line) (lo_Drain o')\<rparr>)"

definition LoadBaseline :: "'d drain \<Rightarrow> string list \<Rightarrow> 'd LogOrakel \<Rightarrow> (nat \<times> nat) \<times> 'd LogOrakel" where
  "LoadBaseline D input o' =
     (let o1 = fold (load_line D) input o'
      in ((lo_BaselineLogsCount o1, length (dr_Clusters D (lo_Drain o1))), o1))"

definition analyze_line :: "'d drain \<Rightarrow> string \<Rightarrow> 'd LogOrakel \<Rightarrow> 'd LogOrakel" where
  "analyze_line D line o' =
     (if TrimSpace line = '''' then o'
      else let o1 = o'\<lparr>lo_TargetLogCount := lo_TargetLogCount o' + 1\<rparr>;
               line = TrimSpace line;
               (matched, d) = dr_Match D line (lo_Drain o1);
               o2 = o1\<lparr>lo_Drain := d\<rparr>
           in if \<not> matched then o2\<lparr>lo_Anomalies := lo_Anomalies o2 @ [line]\<rparr> else o2)"

definition AnalyzeTarget :: "'d drain \<Rightarrow> string list \<Rightarrow> 'd LogOrakel \<Rightarrow> (string list \<times> nat) \<times> 'd LogOrakel" where
  "AnalyzeTarget D input o' =
     (let o1 = fold (analyze_line D) input (o'\<lparr>lo_TargetLogCount := 0, lo_Anomalies := []\<rparr>)
      in ((lo_Anomalies o1, lo_TargetLogCount o1), o1))"

section \<open>Facts\<close>

text \<open>The lines that count: trimmed, blank ones dropped.\<close>

definition log_lines :: "string list \<Rightarrow> string list" where
  "log_lines input = filter (\<lambda>l. l \<noteq> '''') (map TrimSpace input)"

lemma log_lines_simps [simp]:
  "log_lines [] = []"
  "log_lines (l # ls) = (if TrimSpace l = '''' then log_lines ls else TrimSpace l # log_lines ls)"
  by (simp_all add: log_lines_def)

text \<open>Matching is a query when it does not change the miner's answers.\<close>

definition match_is_query :: "'d drain \<Rightarrow> bool" where
  "match_is_query D \<longleftrightarrow> (\<forall>l d. snd (dr_Match D l d) = d)"

lemma analyze_line_query:
  assumes "match_is_query D" and "TrimSpace l \<noteq> ''''"
  shows "analyze_line D l o' = o'\<lparr>lo_TargetLogCount := lo_TargetLogCount o' + 1,
     lo_Anomalies := lo_Anomalies o' @ filter (\<lambda>l. \<not> fst (dr_Match D l (lo_Drain o'))) [TrimSpace l]\<rparr>"
proof -
  obtain b where m: "dr_Match D (TrimSpace l) (lo_Drain o') = (b, lo_Drain o')"
    using assms(1) unfolding match_is_query_def by (metis prod.collapse)
  with assms(2) show ?thesis by (simp add: analyze_line_def)
qed

lemma fold_analyze_line:
  assumes "match_is_query D"
  shows "fold (analyze_line D) input o' = o'\<lparr>lo_TargetLogCount := lo_TargetLogCount o' + length (log_lines input),
     lo_Anomalies := lo_Anomalies o' @ filter (\<lambda>l. \<not> fst (dr_Match D l (lo_Drain o'))) (log_lines input)\<rparr>"
proof (induction input arbitrary: o')
  case (Cons l ls)
  show ?case
  proof (cases "TrimSpace l = ''''")
    case True
    then have "analyze_line D l o' = o'" by (simp add: analyze_line_def)
    with True Cons.IH show ?thesis by simp
  next
    case False
    show ?thesis
      by (simp add: analyze_line_query [OF assms False] Cons.IH False)
  qed
qed simp

lemma AnalyzeTarget_anomalies:
  "match_is_query D \<Longrightarrow> fst (AnalyzeTarget D input o') =
     (filter (\<lambda>l. \<not> fst (dr_Match D l (lo_Drain o'))) (log_lines input), length (log_lines input))"
  by (simp add: AnalyzeTarget_def Let_def fold_analyze_line)

lemma cluster_templates_distinct:
  "cluster_templates cs acc = Inr ts \<Longrightarrow> distinct (map fst acc) \<Longrightarrow> distinct (map fst ts)"
  by (induction cs arbitrary: acc) (auto simp: distinct_map_put split: option.splits prod.splits)

lemma cluster_templates_keys:
  "cluster_templates cs acc = Inr ts \<Longrightarrow>
     fst ` set ts = fst ` set acc \<union> {snd m | m. Some m \<in> (FindStringSubmatch \<circ> TrimSpace) ` set cs}"
proof (induction cs arbitrary: acc)
  case (Cons c cs)
  from Cons.prems obtain n template where m: "FindStringSubmatch (TrimSpace c) = Some (n, template)"
    and rest: "cluster_templates cs (map_put template (Atoi n) acc) = Inr ts"
    by (auto split: option.splits prod.splits)
  have "fst ` set (map_put template (Atoi n) acc) = insert template (fst ` set acc)"
    using keys_map_put [of template "Atoi n" acc] by simp
  with Cons.IH [OF rest] m show ?case by auto
qed simp

lemma GetTemplates_facts:
  assumes "GetTemplates D \<sigma> o' = Inr ts"
  shows "distinct ts"
    and "\<exists>sizes. cluster_templates (dr_Clusters D (lo_Drain o')) [] = Inr sizes \<and>
           sorted_wrt (\<lambda>a b. the (map_of sizes a) \<ge> the (map_of sizes b)) ts"
    and "set ts = {snd m | m. Some m \<in> (FindStringSubmatch \<circ> TrimSpace) ` set (dr_Clusters D (lo_Drain o'))}"
proof -
  from assms obtain tm where tm: "cluster_templates (dr_Clusters D (lo_Drain o')) [] = Inr tm"
    and ts: "ts = sort_key (\<lambda>k. - the (map_of tm k)) (arrange \<sigma> (map fst tm))"
    by (auto simp: GetTemplates_def split: sum.splits)
  from cluster_templates_distinct [OF tm] show "distinct ts" by (simp add: ts)
  have "sorted (map (\<lambda>k. - the (map_of tm k)) ts)" by (simp add: ts)
  then have "sorted_wrt (\<lambda>a b. the (map_of tm a) \<ge> the (map_of tm b)) ts"
    by (simp add: sorted_map)
  with tm show "\<exists>sizes. cluster_templates (dr_Clusters D (lo_Drain o')) [] = Inr sizes \<and>
           sorted_wrt (\<lambda>a b. the (map_of sizes a) \<ge> the (map_of sizes b)) ts"
    by blast
  from cluster_templates_keys [OF tm]
  show "set ts = {snd m | m. Some m \<in> (FindStringSubmatch \<circ> TrimSpace) ` set (dr_Clusters D (lo_Drain o'))}"
    by (simp add: ts)
qed

section \<open>Properties\<close>

text \<open>C26: the anomalies of a target log are exactly its lines, trimmed and blank ones left out, that the miner trained on
  the baseline does not match, in the log's order with repetitions; the number of lines is reported with them.
  The miner's own state is not touched by the analysis.\<close>

theorem AnalyzeTarget_exact:
  assumes "match_is_query D"
  shows "fst (AnalyzeTarget D input o') =
      (filter (\<lambda>l. \<not> fst (dr_Match D l (lo_Drain o'))) (filter (\<lambda>l. l \<noteq> '''') (map TrimSpace input)),
       length (filter (\<lambda>l. l \<noteq> '''') (map TrimSpace input))) \<and>
    lo_Drain (snd (AnalyzeTarget D input o')) = lo_Drain o'"
  using AnalyzeTarget_anomalies [OF assms, of input o'] fold_analyze_line [OF assms]
  by (simp add: log_lines_def AnalyzeTarget_def Let_def)

text \<open>A miner that knows the lines it has seen.\<close>

definition seen_lines :: "string list drain" where
  "seen_lines = \<lparr>dr_new = [], dr_Train = (#), dr_Match = (\<lambda>l d. (l \<in> set d, d)),
     dr_Clusters = map (\<lambda>l. ''id={1} : size={1} : '' @ l)\<rparr>"

lemma seen_lines_query: "match_is_query seen_lines"
  by (simp add: match_is_query_def seen_lines_def)

lemma AnalyzeTarget_exact_witness:
  "fst (AnalyzeTarget seen_lines [''ready'', '' boom''] (snd (LoadBaseline seen_lines [''ready ''] (NewLogOrakel seen_lines)))) =
     ([''boom''], 2)"
proof -
  let ?o = "snd (LoadBaseline seen_lines [''ready ''] (NewLogOrakel seen_lines))"
  have trim: "TrimSpace ''ready '' = ''ready''" "TrimSpace ''ready'' = ''ready''" "TrimSpace '' boom'' = ''boom''"
    by code_simp+
  then have "lo_Drain ?o = [''ready'']"
    by (simp add: LoadBaseline_def load_line_def NewLogOrakel_def seen_lines_def Let_def)
  with AnalyzeTarget_exact [OF seen_lines_query, of "[''ready'', '' boom'']" ?o] trim show ?thesis
    by (simp add: seen_lines_def)
qed

text \<open>What a miner that recalls its training promises: a trained line matches, and goes on matching.\<close>

definition recalls :: "'d drain \<Rightarrow> bool" where
  "recalls D \<longleftrightarrow> (\<forall>l d. fst (dr_Match D l (dr_Train D l d))) \<and>
     (\<forall>l l' d. fst (dr_Match D l d) \<longrightarrow> fst (dr_Match D l (dr_Train D l' d)))"

lemma fold_load_line_recalls:
  assumes "recalls D"
  shows "fst (dr_Match D l (lo_Drain o')) \<or> l \<in> set (log_lines input) \<Longrightarrow>
    fst (dr_Match D l (lo_Drain (fold (load_line D) input o')))"
proof (induction input arbitrary: o')
  case (Cons a input)
  have "fst (dr_Match D l (lo_Drain (load_line D a o'))) \<or> l \<in> set (log_lines input)"
    using Cons.prems assms by (auto simp: load_line_def recalls_def split: if_splits)
  with Cons.IH show ?case by simp
qed simp

text \<open>No false alarm. Where the miner recalls its training and matching is a query, a log whose lines all occurred
  in the baseline, up to surrounding blanks, has no anomaly, whatever else the baseline held.\<close>

theorem baseline_lines_are_no_anomalies:
  assumes "match_is_query D" and "recalls D"
    and "set (log_lines target) \<subseteq> set (log_lines baseline)"
  shows "fst (fst (AnalyzeTarget D target (snd (LoadBaseline D baseline o')))) = []"
proof -
  have "fst (dr_Match D l (lo_Drain (snd (LoadBaseline D baseline o'))))" if "l \<in> set (log_lines target)" for l
    using fold_load_line_recalls [OF assms(2), of l o' baseline] that assms(3) by (auto simp: LoadBaseline_def Let_def)
  then show ?thesis unfolding AnalyzeTarget_anomalies [OF assms(1)] by (simp add: filter_empty_conv)
qed

lemma baseline_lines_are_no_anomalies_witness:
  "fst (fst (AnalyzeTarget seen_lines [''ready''] (snd (LoadBaseline seen_lines [''ready'', ''boom''] (NewLogOrakel seen_lines))))) = []"
proof -
  have "recalls seen_lines" by (simp add: recalls_def seen_lines_def)
  moreover have "set (log_lines [''ready'']) \<subseteq> set (log_lines [''ready'', ''boom''])" by auto
  ultimately show ?thesis by (rule baseline_lines_are_no_anomalies [OF seen_lines_query])
qed

end
