(* ===== verification/MetricsOracle.thy ===== *)
theory MetricsOracle
  imports ApiTypes
begin

text \<open>
  \<^verbatim>\<open>pkg/orakel/metrics.go\<close>: summaries of the recorded resource usage and the test for a
  deviation from the baseline. Go's IEEE arithmetic on \<open>float64\<close> and the two functions of
  \<^verbatim>\<open>gonum.org/v1/gonum/stat\<close> are the fields of \<open>float64\<close>, a parameter: nothing is assumed of how
  they round.
\<close>

section \<open>Summaries\<close>

record 'f float64 =
  fl_of_int :: "int \<Rightarrow> 'f"
  fl_add :: "'f \<Rightarrow> 'f \<Rightarrow> 'f"
  fl_sub :: "'f \<Rightarrow> 'f \<Rightarrow> 'f"
  fl_mul :: "'f \<Rightarrow> 'f \<Rightarrow> 'f"
  fl_div :: "'f \<Rightarrow> 'f \<Rightarrow> 'f"
  fl_less :: "'f \<Rightarrow> 'f \<Rightarrow> bool"
  fl_StdDev :: "'f list \<Rightarrow> 'f"
  fl_Variance :: "'f list \<Rightarrow> 'f"

record 'f MetricsSummary =
  ms_originalValues :: "int64 list"
  ms_normalizedValues :: "'f list"
  ms_Min :: int64
  ms_Max :: int64
  ms_Avg :: 'f
  ms_Median :: 'f
  ms_StdDev :: 'f
  ms_Variance :: 'f

definition zero_summary :: "'f float64 \<Rightarrow> 'f MetricsSummary" where
  "zero_summary F = (let z = fl_of_int F 0 in
     \<lparr>ms_originalValues = [], ms_normalizedValues = [], ms_Min = 0, ms_Max = 0, ms_Avg = z, ms_Median = z,
      ms_StdDev = z, ms_Variance = z\<rparr>)"

text \<open>\<open>slices.Sort\<close> on \<open>int64\<close>; the sum wraps.\<close>

definition normalize :: "'f float64 \<Rightarrow> int64 \<Rightarrow> int64 \<Rightarrow> int64 \<Rightarrow> 'f" where
  "normalize F lo hi v =
     (if hi = lo then fl_of_int F 0
      else fl_div F (fl_sub F (fl_of_int F (sint v)) (fl_of_int F (sint lo)))
                    (fl_sub F (fl_of_int F (sint hi)) (fl_of_int F (sint lo))))"

definition median :: "'f float64 \<Rightarrow> 'f list \<Rightarrow> 'f" where
  "median F nv =
     (if length nv mod 2 = 0
      then fl_div F (fl_add F (nv ! (length nv div 2 - 1)) (nv ! (length nv div 2))) (fl_of_int F 2)
      else nv ! (length nv div 2))"

definition updateSummary :: "'f float64 \<Rightarrow> 'f MetricsSummary \<Rightarrow> 'f MetricsSummary" where
  "updateSummary F ms =
     (if length (ms_originalValues ms) = 0 then ms
      else
        let vs = sort_key sint (ms_originalValues ms);
            lo = vs ! 0;
            hi = vs ! (length vs - 1);
            total = foldl (\<lambda>t v. t + v) 0 vs;
            nv = map (normalize F lo hi) vs
        in ms\<lparr>ms_originalValues := vs, ms_Min := lo, ms_Max := hi,
              ms_Avg := fl_div F (fl_of_int F (sint total)) (fl_of_int F (int (length vs))),
              ms_normalizedValues := nv, ms_Median := median F nv,
              ms_StdDev := fl_StdDev F nv, ms_Variance := fl_Variance F nv\<rparr>)"

record 'f CheckMetricsSummary =
  cms_CpuSummary :: "'f MetricsSummary"
  cms_MemorySummary :: "'f MetricsSummary"

definition updateValues :: "int64 \<Rightarrow> int64 \<Rightarrow> 'f CheckMetricsSummary \<Rightarrow> 'f CheckMetricsSummary" where
  "updateValues cpu memory cms = cms\<lparr>
     cms_CpuSummary := (cms_CpuSummary cms)\<lparr>ms_originalValues := ms_originalValues (cms_CpuSummary cms) @ [cpu]\<rparr>,
     cms_MemorySummary := (cms_MemorySummary cms)\<lparr>ms_originalValues := ms_originalValues (cms_MemorySummary cms) @ [memory]\<rparr>\<rparr>"

definition loadRecords :: "ResourceUsageRecord list \<Rightarrow> 'f CheckMetricsSummary \<Rightarrow> 'f CheckMetricsSummary" where
  "loadRecords metrics cms = fold (\<lambda>r. updateValues (ru_CpuNanoCores r) (ru_MemoryBytes r)) metrics cms"

definition updateSummaries :: "'f float64 \<Rightarrow> 'f CheckMetricsSummary \<Rightarrow> 'f CheckMetricsSummary" where
  "updateSummaries F cms = cms\<lparr>cms_CpuSummary := updateSummary F (cms_CpuSummary cms),
     cms_MemorySummary := updateSummary F (cms_MemorySummary cms)\<rparr>"

definition NewCheckMetricsSummary :: "'f float64 \<Rightarrow> ResourceUsageRecord list \<Rightarrow> 'f CheckMetricsSummary" where
  "NewCheckMetricsSummary F metrics =
     updateSummaries F (loadRecords metrics \<lparr>cms_CpuSummary = zero_summary F, cms_MemorySummary = zero_summary F\<rparr>)"

section \<open>The oracle\<close>

text \<open>The only field of \<open>MetricsOrakel\<close>, a pointer.\<close>

type_synonym 'f MetricsOrakel = "'f CheckMetricsSummary option"

definition NewMetricsOrakel :: "'f float64 \<Rightarrow> 'f MetricsOrakel" where
  "NewMetricsOrakel F = Some \<lparr>cms_CpuSummary = zero_summary F, cms_MemorySummary = zero_summary F\<rparr>"

definition Metrics_LoadBaseline :: "'f float64 \<Rightarrow> WorkloadRecording \<Rightarrow> 'f MetricsOrakel \<Rightarrow> 'f MetricsOrakel" where
  "Metrics_LoadBaseline F rec mo = (case mo of
     None \<Rightarrow> Some (NewCheckMetricsSummary F (rc_RecordedMetrics rec))
   | Some cms \<Rightarrow> Some (updateSummaries F (loadRecords (rc_RecordedMetrics rec) cms)))"

definition deviates :: "'f float64 \<Rightarrow> 'f MetricsSummary \<Rightarrow> 'f MetricsSummary \<Rightarrow> bool" where
  "deviates F baseline target =
     (let upper = fl_mul F (ms_Avg baseline) (fl_add F (fl_of_int F 1) (ms_StdDev baseline));
          lower = fl_mul F (ms_Avg baseline) (fl_sub F (fl_of_int F 1) (ms_StdDev baseline))
      in fl_less F upper (ms_Avg target) \<or> fl_less F (ms_Avg target) lower)"

definition Metrics_AnalyzeTarget :: "'f float64 \<Rightarrow> WorkloadRecording \<Rightarrow> 'f MetricsOrakel \<Rightarrow> crash + (bool \<times> bool)" where
  "Metrics_AnalyzeTarget F rec mo =
     (let target = NewCheckMetricsSummary F (rc_RecordedMetrics rec)
      in case mo of
           None \<Rightarrow> Inl NilDeref
         | Some baseline \<Rightarrow> Inr (deviates F (cms_CpuSummary baseline) (cms_CpuSummary target),
                                deviates F (cms_MemorySummary baseline) (cms_MemorySummary target)))"

section \<open>Facts\<close>

lemma sort_key_sint_mset:
  fixes xs ys :: "int64 list"
  assumes "mset xs = mset ys"
  shows "sort_key sint xs = sort_key sint ys"
  by (rule sort_key_inj_key_eq) (auto simp: assms inj_on_def signed_word_eqI)

text \<open>With at least one value every field is computed afresh from the multiset of the values.\<close>

lemma updateSummary_mset:
  assumes "mset (ms_originalValues a) = mset (ms_originalValues b)" and "ms_originalValues a \<noteq> []"
  shows "updateSummary F a = updateSummary F b"
proof -
  from assms have "ms_originalValues b \<noteq> []" by auto
  with assms sort_key_sint_mset [OF assms(1)] show ?thesis
    by (simp add: updateSummary_def Let_def)
qed

lemma updateSummary_values: "mset (ms_originalValues (updateSummary F ms)) = mset (ms_originalValues ms)"
  by (simp add: updateSummary_def Let_def)

lemma updateSummary_empty: "ms_originalValues ms = [] \<Longrightarrow> updateSummary F ms = ms"
  by (simp add: updateSummary_def)

lemma updateSummary_extremes:
  assumes "v \<in> set (ms_originalValues ms)"
  shows "ms_Min (updateSummary F ms) \<in> set (ms_originalValues ms)" and "ms_Max (updateSummary F ms) \<in> set (ms_originalValues ms)"
    and "sint (ms_Min (updateSummary F ms)) \<le> sint v" and "sint v \<le> sint (ms_Max (updateSummary F ms))"
proof -
  let ?vs = "sort_key sint (ms_originalValues ms)"
  from assms have ne': "ms_originalValues ms \<noteq> []" by auto
  then have len: "0 < length ?vs" by simp
  have lo: "ms_Min (updateSummary F ms) = ?vs ! 0" and hi: "ms_Max (updateSummary F ms) = ?vs ! (length ?vs - 1)"
    using ne' by (simp_all add: updateSummary_def Let_def)
  show "ms_Min (updateSummary F ms) \<in> set (ms_originalValues ms)" unfolding lo
    using nth_mem [OF len] by simp
  show "ms_Max (updateSummary F ms) \<in> set (ms_originalValues ms)" unfolding hi
    using nth_mem [of "length ?vs - 1" ?vs] len by simp
  from assms obtain i where i: "i < length ?vs" "?vs ! i = v" by (metis in_set_conv_nth set_sort)
  have sorted: "sorted (map sint ?vs)" by simp
  show "sint (ms_Min (updateSummary F ms)) \<le> sint v"
    unfolding lo using sorted_nth_mono [OF sorted, of 0 i] i len by simp
  show "sint v \<le> sint (ms_Max (updateSummary F ms))"
    unfolding hi using sorted_nth_mono [OF sorted, of i "length ?vs - 1"] i len by simp
qed

abbreviation cpu_values :: "'f CheckMetricsSummary \<Rightarrow> int64 list" where
  "cpu_values cms \<equiv> ms_originalValues (cms_CpuSummary cms)"

abbreviation memory_values :: "'f CheckMetricsSummary \<Rightarrow> int64 list" where
  "memory_values cms \<equiv> ms_originalValues (cms_MemorySummary cms)"

lemma loadRecords_eq:
  "loadRecords rs cms = cms\<lparr>
     cms_CpuSummary := (cms_CpuSummary cms)\<lparr>ms_originalValues := cpu_values cms @ map ru_CpuNanoCores rs\<rparr>,
     cms_MemorySummary := (cms_MemorySummary cms)\<lparr>ms_originalValues := memory_values cms @ map ru_MemoryBytes rs\<rparr>\<rparr>"
proof (induction rs arbitrary: cms)
  case (Cons r rs)
  have "loadRecords (r # rs) cms = loadRecords rs (updateValues (ru_CpuNanoCores r) (ru_MemoryBytes r) cms)"
    by (simp add: loadRecords_def)
  then show ?case by (simp only: Cons.IH) (simp add: updateValues_def)
qed (simp add: loadRecords_def)

text \<open>
  One round of loading a summary, as a function of the values: idle where there are none, else
  afresh from all of them.
\<close>

definition reload :: "'f float64 \<Rightarrow> int64 list \<Rightarrow> 'f MetricsSummary \<Rightarrow> 'f MetricsSummary" where
  "reload F vs ms = updateSummary F (ms\<lparr>ms_originalValues := ms_originalValues ms @ vs\<rparr>)"

lemma reload_values [simp]: "mset (ms_originalValues (reload F vs ms)) = mset (ms_originalValues ms) + mset vs"
  by (simp add: reload_def updateSummary_values)

lemma reload_twice:
  assumes "ms_originalValues ms = []"
  shows "reload F ys (reload F xs ms) = reload F (xs @ ys) ms"
proof (cases "xs @ ys = []")
  case True
  with assms show ?thesis by (simp add: reload_def updateSummary_empty)
next
  case False
  have "mset (ms_originalValues (reload F xs ms)) = mset xs" using assms by simp
  then have "ms_originalValues (reload F xs ms) = [] \<longleftrightarrow> xs = []" by (metis mset_zero_iff)
  with False show ?thesis
    using assms unfolding reload_def [of F ys] reload_def [of F "xs @ ys"] by (intro updateSummary_mset) auto
qed

lemma reload_mset:
  assumes "mset xs = mset ys"
  shows "reload F xs ms = reload F ys ms"
proof (cases "ms_originalValues ms @ xs = []")
  case True
  with assms show ?thesis by simp
next
  case False
  with assms show ?thesis unfolding reload_def by (intro updateSummary_mset) auto
qed

lemma updateSummaries_load:
  "updateSummaries F (loadRecords rs cms) = cms\<lparr>
     cms_CpuSummary := reload F (map ru_CpuNanoCores rs) (cms_CpuSummary cms),
     cms_MemorySummary := reload F (map ru_MemoryBytes rs) (cms_MemorySummary cms)\<rparr>"
  by (simp add: updateSummaries_def loadRecords_eq reload_def)

lemma NewCheckMetricsSummary_mset:
  assumes "mset rs = mset rs'"
  shows "NewCheckMetricsSummary F rs = NewCheckMetricsSummary F rs'"
proof -
  have m: "mset (map f rs) = mset (map f rs')" for f :: "ResourceUsageRecord \<Rightarrow> int64"
    using assms by simp
  show ?thesis
    unfolding NewCheckMetricsSummary_def updateSummaries_load reload_mset [OF m] ..
qed

lemma load_baselines_mset:
  assumes "mset (rc_RecordedMetrics a @ rc_RecordedMetrics b) = mset (rc_RecordedMetrics c @ rc_RecordedMetrics d)"
  shows "Metrics_LoadBaseline F b (Metrics_LoadBaseline F a (NewMetricsOrakel F)) =
     Metrics_LoadBaseline F d (Metrics_LoadBaseline F c (NewMetricsOrakel F))"
proof -
  have z: "ms_originalValues (zero_summary F) = []" by (simp add: zero_summary_def Let_def)
  have m: "mset (map f (rc_RecordedMetrics a) @ map f (rc_RecordedMetrics b)) =
      mset (map f (rc_RecordedMetrics c) @ map f (rc_RecordedMetrics d))" for f :: "ResourceUsageRecord \<Rightarrow> int64"
    using assms by (metis map_append mset_map)
  show ?thesis
    by (simp add: Metrics_LoadBaseline_def NewMetricsOrakel_def updateSummaries_load reload_twice [OF z])
      (simp add: reload_mset [OF m])
qed

section \<open>Properties\<close>

text \<open>An instance of the arithmetic, for concrete runs.\<close>

definition int_floats :: "int float64" where
  "int_floats = \<lparr>fl_of_int = id, fl_add = (+), fl_sub = (-), fl_mul = (*), fl_div = (div), fl_less = (<),
     fl_StdDev = (\<lambda>_. 1), fl_Variance = (\<lambda>_. 1)\<rparr>"

text \<open>C38: the metrics verdict does not depend on the order in which samples were recorded, nor on which of the two baseline
  recordings a sample is in: the same samples over both baselines and the same samples of the target give the
  same answer, whatever the floating-point operations do.\<close>

theorem Metrics_AnalyzeTarget_order:
  assumes "mset (rc_RecordedMetrics a @ rc_RecordedMetrics b) = mset (rc_RecordedMetrics c @ rc_RecordedMetrics d)"
    and "mset (rc_RecordedMetrics t) = mset (rc_RecordedMetrics u)"
  shows "Metrics_AnalyzeTarget F t (Metrics_LoadBaseline F b (Metrics_LoadBaseline F a (NewMetricsOrakel F))) =
    Metrics_AnalyzeTarget F u (Metrics_LoadBaseline F d (Metrics_LoadBaseline F c (NewMetricsOrakel F)))"
  unfolding load_baselines_mset [OF assms(1)] Metrics_AnalyzeTarget_def NewCheckMetricsSummary_mset [OF assms(2)] ..

definition usage :: "nat \<Rightarrow> ResourceUsageRecord" where
  "usage n = \<lparr>ru_Time = 0, ru_CpuNanoCores = of_nat n, ru_MemoryBytes = of_nat (2 * n)\<rparr>"

definition usage_recording :: "nat list \<Rightarrow> WorkloadRecording" where
  "usage_recording ns = \<lparr>rc_Type = ''baseline'', rc_Success = True, rc_StartTime = 0, rc_EndTime = 1,
     rc_SecurityContextConfigurations = None, rc_RecordedMetrics = map usage ns, rc_Logs = []\<rparr>"

lemma Metrics_AnalyzeTarget_order_witness:
  "Metrics_AnalyzeTarget int_floats (usage_recording [5, 6])
     (Metrics_LoadBaseline int_floats (usage_recording [3]) (Metrics_LoadBaseline int_floats (usage_recording [1, 2]) (NewMetricsOrakel int_floats))) =
   Metrics_AnalyzeTarget int_floats (usage_recording [6, 5])
     (Metrics_LoadBaseline int_floats (usage_recording [1]) (Metrics_LoadBaseline int_floats (usage_recording [2, 3]) (NewMetricsOrakel int_floats)))"
  by (rule Metrics_AnalyzeTarget_order) (simp_all add: usage_recording_def add_mset_commute)

text \<open>The minimum and maximum a summary reports are samples, and they bound every sample as signed 64-bit numbers.\<close>

theorem updateSummary_bounds:
  assumes "v \<in> set (ms_originalValues ms)"
  shows "ms_Min (updateSummary F ms) \<in> set (ms_originalValues ms) \<and> ms_Max (updateSummary F ms) \<in> set (ms_originalValues ms) \<and>
    sint (ms_Min (updateSummary F ms)) \<le> sint v \<and> sint v \<le> sint (ms_Max (updateSummary F ms))"
  using updateSummary_extremes [OF assms] by blast

lemma updateSummary_bounds_witness:
  "sint (ms_Min (updateSummary int_floats ((zero_summary int_floats)\<lparr>ms_originalValues := [3, - 1, 2]\<rparr>))) \<le> - 1"
  using updateSummary_bounds [of "- 1" "(zero_summary int_floats)\<lparr>ms_originalValues := [3, - 1, 2]\<rparr>" int_floats] by simp

end
