(* ===== verification/Analysis.thy ===== *)
theory Analysis
  imports Manager Valkey LogOracle MetricsOracle
begin

text \<open>
  \<open>AnalyzeCheckRuns\<close> of \<^verbatim>\<open>internal/workload/manager.go\<close>: the recordings of the check runs compared
  with the two baseline recordings.
\<close>

section \<open>Loading the baselines\<close>

type_synonym 'd oracles = "(string \<times> 'd LogOrakel) list"

definition load_container :: "'d drain \<Rightarrow> string \<times> string list \<Rightarrow> 'd oracles \<Rightarrow> 'd oracles" where
  "load_container D = (\<lambda>(containerName, logs) oracles.
     let miner = (case map_of oracles containerName of Some o' \<Rightarrow> o' | None \<Rightarrow> NewLogOrakel D)
     in map_put containerName (snd (LoadBaseline D logs miner)) oracles)"

text \<open>The keys the manager reads: namespace, suffix and type of the recording.\<close>

definition manager_key :: "Whc \<Rightarrow> string \<Rightarrow> string" where
  "manager_key m recordingType = whc_Namespace m @ '':'' @ ws_Suffix (whc_Spec m) @ '':'' @ recordingType"

text \<open>One round of the loop over the baselines: an error, a missing recording (None), or the oracles.\<close>

definition load_baseline ::
  "'d drain \<Rightarrow> 'f float64 \<Rightarrow> lib \<Rightarrow> Whc \<Rightarrow> string \<Rightarrow> 'd oracles \<times> 'f MetricsOrakel \<Rightarrow>
   (error + ('d oracles \<times> 'f MetricsOrakel) option) io" where
  "load_baseline D F L m baseline = (\<lambda>(oracles, mo).
     pbind (GetRecording L (manager_key m baseline)) (\<lambda>r. case r of
       Inl e \<Rightarrow> Ret (Inl (Errorf ''failed to get baseline recording from ValKey'' (Some e)))
     | Inr None \<Rightarrow> Ret (Inr None)
     | Inr (Some rec) \<Rightarrow> pbind map_order (\<lambda>\<sigma>.
         Ret (Inr (Some (fold (load_container D) (arrange \<sigma> (rc_Logs rec)) oracles, Metrics_LoadBaseline F rec mo))))))"

section \<open>Analyzing a run\<close>

definition anomaly_message :: "string \<Rightarrow> string" where
  "anomaly_message containerName = ''Anomalies found in logs of container '' @ containerName"

text \<open>The variables of the loop over the containers of a check recording.\<close>

type_synonym 'd analysis = "'d oracles \<times> CheckRun \<times> bool"

definition put_anomalies :: "string \<Rightarrow> string list \<Rightarrow> CheckRun \<Rightarrow> CheckRun" where
  "put_anomalies containerName lines r = r\<lparr>cr_LogAnomalies :=
     Some (map_put containerName lines (case cr_LogAnomalies r of Some m \<Rightarrow> m | None \<Rightarrow> []))\<rparr>"

text \<open>Above ten anomalies the templates of all the container's lines are stored instead, at most five.\<close>

definition anomaly_lines :: "'d drain \<Rightarrow> string list \<Rightarrow> string list \<Rightarrow> string list io" where
  "anomaly_lines D logs anomalies =
     (if length anomalies \<le> 10 then Ret anomalies
      else pbind map_order (\<lambda>\<sigma>.
        pbind (lift_go (GetTemplates D \<sigma> (snd (LoadBaseline D logs (NewLogOrakel D))))) (\<lambda>templates.
          if length templates > 5 then Ret (take 5 templates) else Ret templates)))"

definition analyze_container :: "'d drain \<Rightarrow> string \<times> string list \<Rightarrow> 'd analysis \<Rightarrow> 'd analysis io" where
  "analyze_container D = (\<lambda>(containerName, logs) (oracles, checkRun, successful).
     case map_of oracles containerName of
       None \<Rightarrow> Ret (oracles, checkRun, successful)
     | Some miner \<Rightarrow>
         let ((anomalies, _), miner') = AnalyzeTarget D logs miner;
             oracles' = map_put containerName miner' oracles
         in if length anomalies > 0
            then
              let reason = (if cr_FailureReason checkRun = '''' then anomaly_message containerName
                            else cr_FailureReason checkRun @ '', '' @ anomaly_message containerName);
                  checkRun1 = checkRun\<lparr>cr_FailureReason := reason\<rparr>
              in pbind (anomaly_lines D logs anomalies) (\<lambda>lines.
                   Ret (oracles', put_anomalies containerName lines checkRun1, False))
            else Ret (oracles', checkRun, successful))"

text \<open>One round of the loop over the check runs: the oracles and the updated runs so far, or the error.\<close>

type_synonym 'd round_result = "error + ('d oracles \<times> (string \<times> CheckRun) list)"

definition analyze_run ::
  "'d drain \<Rightarrow> 'f float64 \<Rightarrow> lib \<Rightarrow> Whc \<Rightarrow> 'f MetricsOrakel \<Rightarrow> CheckRun \<Rightarrow>
   'd oracles \<times> (string \<times> CheckRun) list \<Rightarrow> 'd round_result io" where
  "analyze_run D F L m mo checkRun = (\<lambda>(oracles, updated).
     pbind (GetRecording L (manager_key m (cr_Name checkRun))) (\<lambda>r. case r of
       Inl e \<Rightarrow> Ret (Inl (Errorf ''failed to get recording for check run from ValKey'' (Some e)))
     | Inr None \<Rightarrow> Ret (Inl (Errorf (''no recording found for check run '' @ cr_Name checkRun) None))
     | Inr (Some rec) \<Rightarrow>
         let successful = (case cr_CheckSuccessfull checkRun of Some b \<Rightarrow> b | None \<Rightarrow> rc_Success rec)
         in pbind map_order (\<lambda>\<sigma>.
            pbind (pfold (analyze_container D) (arrange \<sigma> (rc_Logs rec)) (oracles, checkRun, successful))
              (\<lambda>(oracles, checkRun, successful).
            pbind (lift_go (Metrics_AnalyzeTarget F rec mo)) (\<lambda>(cpu, memory).
              let checkRun = checkRun\<lparr>cr_CheckSuccessfull := Some successful, cr_CpuDeviation := Some cpu,
                                cr_MemoryDeviation := Some memory\<rparr>
              in Ret (Inr (oracles, map_put (cr_Name checkRun) checkRun updated)))))))"

primrec analyze_runs ::
  "'d drain \<Rightarrow> 'f float64 \<Rightarrow> lib \<Rightarrow> Whc \<Rightarrow> 'f MetricsOrakel \<Rightarrow> CheckRun list \<Rightarrow>
   'd oracles \<times> (string \<times> CheckRun) list \<Rightarrow> (error + (string \<times> CheckRun) list) io" where
  "analyze_runs D F L m mo [] = (\<lambda>(oracles, updated). Ret (Inr updated))"
| "analyze_runs D F L m mo (r # rs) = (\<lambda>st. pbind (analyze_run D F L m mo r st) (\<lambda>res. case res of
     Inl e \<Rightarrow> Ret (Inl e)
   | Inr st' \<Rightarrow> analyze_runs D F L m mo rs st'))"

section \<open>The whole analysis\<close>

definition set_check_runs :: "(string \<times> CheckRun) list \<Rightarrow> Whc \<Rightarrow> Whc" where
  "set_check_runs runs m = m\<lparr>whc_Status := (whc_Status m)\<lparr>wst_CheckRuns := runs\<rparr>\<rparr>"

definition UpdateCheckRuns_attempt :: "(string \<times> CheckRun) list \<Rightarrow> Whc \<Rightarrow> (error option \<times> Whc) io" where
  "UpdateCheckRuns_attempt updated m =
     pbind (get_whc (whc_Name m) (whc_Namespace m)) (\<lambda>r. case r of
       Inl e \<Rightarrow> if IsNotFound e then Ret (None, m)
         else Ret (Some (Errorf ''failed to re-fetch WorkloadHardeningCheck'' (Some e)), m)
     | Inr x \<Rightarrow> let m' = set_check_runs updated x in pbind (update_whc_status m') (\<lambda>e. Ret (e, m')))"

definition AnalyzeCheckRuns :: "'d drain \<Rightarrow> 'f float64 \<Rightarrow> lib \<Rightarrow> Whc \<Rightarrow> (error option \<times> Whc) io" where
  "AnalyzeCheckRuns D F L m =
     pbind (load_baseline D F L m ''baseline'' ([], NewMetricsOrakel F)) (\<lambda>r. case r of
       Inl e \<Rightarrow> Ret (Some e, m)
     | Inr None \<Rightarrow> Ret (None, m)
     | Inr (Some st1) \<Rightarrow> pbind (load_baseline D F L m ''baseline-2'' st1) (\<lambda>r. case r of
         Inl e \<Rightarrow> Ret (Some e, m)
       | Inr None \<Rightarrow> Ret (None, m)
       | Inr (Some (oracles, mo)) \<Rightarrow>
           (let checkRuns = wst_CheckRuns (whc_Status m)
            in if length checkRuns = 0 then Ret (None, m)
               else pbind map_order (\<lambda>\<sigma>.
                 pbind (analyze_runs D F L m mo (map snd (arrange \<sigma> checkRuns)) (oracles, [])) (\<lambda>r. case r of
                   Inl e \<Rightarrow> Ret (Some e, m)
                 | Inr updated \<Rightarrow> RetryOnConflict retry_again (lib_retries L) (UpdateCheckRuns_attempt updated) m)))))"

section \<open>What an analysis does to a run\<close>

text \<open>
  \<open>judged r r'\<close>: the run keeps its name, has a verdict that never turns failure into success, a
  failure by analysis has a reason, and what is stored per container is at most ten lines
  unless it was there before.
\<close>

definition anomalies_of :: "CheckRun \<Rightarrow> string \<Rightarrow> string list option" where
  "anomalies_of r = (case cr_LogAnomalies r of None \<Rightarrow> Map.empty | Some m \<Rightarrow> map_of m)"

definition trimmed :: "CheckRun \<Rightarrow> CheckRun \<Rightarrow> bool" where
  "trimmed r r' \<longleftrightarrow> (\<forall>k v. anomalies_of r' k = Some v \<longrightarrow> anomalies_of r k = Some v \<or> length v \<le> 10)"

definition judged :: "CheckRun \<Rightarrow> CheckRun \<Rightarrow> bool" where
  "judged r r' \<longleftrightarrow> cr_Name r' = cr_Name r \<and> cr_CheckSuccessfull r' \<noteq> None \<and>
     (cr_CheckSuccessfull r = Some False \<longrightarrow> cr_CheckSuccessfull r' = Some False) \<and>
     (cr_CheckSuccessfull r = Some True \<and> cr_CheckSuccessfull r' = Some False \<longrightarrow> cr_FailureReason r' \<noteq> '''') \<and>
     (cr_CheckSuccessfull r' = Some True \<longrightarrow> cr_FailureReason r' = cr_FailureReason r \<and> cr_LogAnomalies r' = cr_LogAnomalies r) \<and>
     trimmed r r'"

lemma put_anomalies_simps [simp]:
  "cr_Name (put_anomalies k ls r) = cr_Name r" "cr_FailureReason (put_anomalies k ls r) = cr_FailureReason r"
  "cr_CheckSuccessfull (put_anomalies k ls r) = cr_CheckSuccessfull r"
  "anomalies_of (put_anomalies k ls r) = (anomalies_of r)(k \<mapsto> ls)"
  by (auto simp: put_anomalies_def anomalies_of_def split: option.splits)

lemma anomaly_lines_le: "ensures (\<lambda>ls. length ls \<le> 10) (anomaly_lines D logs anomalies)"
  by (auto simp: anomaly_lines_def)

lemma anomalies_of_update [simp]:
  "anomalies_of (r\<lparr>cr_FailureReason := x\<rparr>) = anomalies_of r"
  "anomalies_of (r\<lparr>cr_CheckSuccessfull := b\<rparr>) = anomalies_of r"
  "anomalies_of (r\<lparr>cr_CpuDeviation := b\<rparr>) = anomalies_of r"
  "anomalies_of (r\<lparr>cr_MemoryDeviation := b\<rparr>) = anomalies_of r"
  by (simp_all add: anomalies_of_def)

text \<open>The invariant of the loop over the containers, for the run \<open>r\<close> and its verdict so far \<open>s\<close>.\<close>

definition analyzing :: "CheckRun \<Rightarrow> bool \<Rightarrow> CheckRun \<times> bool \<Rightarrow> bool" where
  "analyzing r s = (\<lambda>(r', s'). cr_Name r' = cr_Name r \<and> cr_CheckSuccessfull r' = cr_CheckSuccessfull r \<and>
     (s' \<longrightarrow> s \<and> r' = r) \<and> (s \<and> \<not> s' \<longrightarrow> cr_FailureReason r' \<noteq> '''') \<and> trimmed r r')"

lemma analyzing_start: "analyzing r s (r, s)"
  by (simp add: analyzing_def trimmed_def)

lemma analyzing_step:
  assumes "analyzing r s (r1, s1)" and "length ls \<le> 10" and "reason \<noteq> ''''"
  shows "analyzing r s (put_anomalies k ls (r1\<lparr>cr_FailureReason := reason\<rparr>), False)"
  using assms by (auto simp: analyzing_def trimmed_def split: if_splits)

lemma analyze_container_keeps:
  assumes "analyzing r s (r1, s1)"
  shows "ensures (\<lambda>(_, rs). analyzing r s rs) (analyze_container D (cn, logs) (oracles, r1, s1))"
proof -
  have ne: "anomaly_message cn \<noteq> ''''" "\<And>t. t @ '', '' @ anomaly_message cn \<noteq> ''''" by (simp_all add: anomaly_message_def)
  show ?thesis
    using assms ne
    by (auto simp: analyze_container_def Let_def split: option.splits prod.splits
        intro!: ensures_mono [OF anomaly_lines_le] analyzing_step)
qed

lemma analyze_containers_keep:
  "ensures (\<lambda>(_, rs). analyzing r s rs) (pfold (analyze_container D) cs (oracles, r, s))"
  by (rule ensures_pfold) (use analyze_container_keeps analyzing_start in fastforce)+

lemma judged_verdict:
  assumes "analyzing r (case cr_CheckSuccessfull r of Some b \<Rightarrow> b | None \<Rightarrow> s) (r1, s1)"
  shows "judged r (r1\<lparr>cr_CheckSuccessfull := Some s1, cr_CpuDeviation := c, cr_MemoryDeviation := d\<rparr>)"
  using assms by (cases "cr_CheckSuccessfull r") (auto simp: judged_def analyzing_def trimmed_def)

definition judged_all :: "CheckRun set \<Rightarrow> (string \<times> CheckRun) list \<Rightarrow> bool" where
  "judged_all runs updated \<longleftrightarrow> (\<forall>(k, r') \<in> set updated. k = cr_Name r' \<and> (\<exists>r \<in> runs. judged r r'))"

lemma judged_all_put:
  "judged_all runs updated \<Longrightarrow> r \<in> runs \<Longrightarrow> judged r r' \<Longrightarrow> k = cr_Name r' \<Longrightarrow> judged_all runs (map_put k r' updated)"
  unfolding judged_all_def
proof (induction updated)
  case (Cons p updated)
  then show ?case by (cases p) auto
qed auto

lemma analyze_run_judges:
  assumes "judged_all runs updated" and "r \<in> runs"
  shows "ensures (\<lambda>res. \<forall>o' updated'. res = Inr (o', updated') \<longrightarrow> judged_all runs updated')
     (analyze_run D F L m mo r (oracles, updated))"
  unfolding analyze_run_def using assms
  by (auto simp: Let_def split: sum.splits option.splits prod.splits
      intro!: ensures_mono [OF ensures_True] ensures_mono [OF analyze_containers_keep] judged_all_put judged_verdict)

lemma analyze_runs_judge:
  "judged_all runs updated \<Longrightarrow> set rs \<subseteq> runs \<Longrightarrow>
   ensures (\<lambda>res. \<forall>updated'. res = Inr updated' \<longrightarrow> judged_all runs updated') (analyze_runs D F L m mo rs (oracles, updated))"
proof (induction rs arbitrary: oracles updated)
  case (Cons r rs)
  then have r: "r \<in> runs" and rs: "set rs \<subseteq> runs" by auto
  show ?case
    by (simp, rule ensures_mono [OF analyze_run_judges [OF Cons.prems(1) r]])
      (auto split: sum.splits intro: Cons.IH [OF _ rs])
qed simp

text \<open>The calls of the analysis; the runs it stores are judged runs of the object it analyzed.\<close>

definition analysis_call :: "CheckRun set \<Rightarrow> call \<Rightarrow> bool" where
  "analysis_call runs c = (case c of
     KvGet _ \<Rightarrow> True | MapOrder \<Rightarrow> True | GetWhc _ _ \<Rightarrow> True | RetryAgain _ \<Rightarrow> True
   | UpdateWhcStatus x \<Rightarrow> judged_all runs (wst_CheckRuns (whc_Status x))
   | _ \<Rightarrow> False)"

lemma analysis_call_simps [simp]:
  "analysis_call runs (KvGet k)" "analysis_call runs MapOrder" "analysis_call runs (GetWhc n ns)"
  "analysis_call runs (RetryAgain e)"
  "analysis_call runs (UpdateWhcStatus x) \<longleftrightarrow> judged_all runs (wst_CheckRuns (whc_Status x))"
  by (simp_all add: analysis_call_def)

lemma GetRecording_calls: "calls_only (analysis_call runs) (GetRecording L key)"
  unfolding GetRecording_def getEntry_def by (intro calls_intros) (auto intro!: calls_intros)

lemma load_baseline_calls: "calls_only (analysis_call runs) (load_baseline D F L m b st)"
  unfolding load_baseline_def by (auto intro!: calls_intros GetRecording_calls split: prod.splits sum.splits option.splits)

lemma analyze_container_calls: "calls_only (analysis_call runs) (analyze_container D c st)"
  unfolding analyze_container_def anomaly_lines_def Let_def
  by (auto intro!: calls_intros split: prod.splits option.splits)

lemma analyze_runs_calls: "calls_only (analysis_call runs) (analyze_runs D F L m mo rs st)"
proof (induction rs arbitrary: st)
  case (Cons r rs)
  have "calls_only (analysis_call runs) (analyze_run D F L m mo r st)"
    unfolding analyze_run_def Let_def
    by (auto intro!: calls_intros GetRecording_calls analyze_container_calls split: prod.splits sum.splits option.splits)
  with Cons.IH show ?case by (auto intro!: calls_intros)
qed (simp add: case_prod_beta)

lemma UpdateCheckRuns_calls:
  "judged_all runs updated \<Longrightarrow> calls_only (analysis_call runs) (RetryOnConflict retry_again n (UpdateCheckRuns_attempt updated) m)"
  unfolding UpdateCheckRuns_attempt_def Let_def by (intro calls_intros) (auto intro!: calls_intros simp: set_check_runs_def)

lemma analysis_stores_judged:
  "calls_only (analysis_call (snd ` set (wst_CheckRuns (whc_Status m)))) (AnalyzeCheckRuns D F L m)"
proof -
  let ?runs = "snd ` set (wst_CheckRuns (whc_Status m))"
  have rest: "calls_only (analysis_call ?runs) (pbind (analyze_runs D F L m mo (map snd (arrange \<sigma> (wst_CheckRuns (whc_Status m)))) (oracles, []))
      (\<lambda>r. case r of Inl e \<Rightarrow> Ret (Some e, m)
       | Inr updated \<Rightarrow> RetryOnConflict retry_again (lib_retries L) (UpdateCheckRuns_attempt updated) m))" for mo \<sigma> oracles
    by (rule calls_only_after [OF analyze_runs_calls analyze_runs_judge [where runs = ?runs]])
      (auto simp: judged_all_def [of _ "[]"] intro: UpdateCheckRuns_calls split: sum.splits)
  show ?thesis
    unfolding AnalyzeCheckRuns_def Let_def
    by (auto intro!: calls_only_pbind load_baseline_calls rest split: sum.splits option.splits prod.splits)
qed

section \<open>The verdict, exactly\<close>

text \<open>Some line of the container is unknown to the miner of that container's baseline.\<close>

definition unmatched :: "'d drain \<Rightarrow> 'd oracles \<Rightarrow> string \<times> string list \<Rightarrow> bool" where
  "unmatched D oracles c = (case map_of oracles (fst c) of
     None \<Rightarrow> False
   | Some miner \<Rightarrow> list_ex (\<lambda>l. \<not> fst (dr_Match D l (lo_Drain miner))) (log_lines (snd c)))"

definition same_miners :: "'d oracles \<Rightarrow> 'd oracles \<Rightarrow> bool" where
  "same_miners o1 o2 \<longleftrightarrow> (\<forall>k. map_option lo_Drain (map_of o1 k) = map_option lo_Drain (map_of o2 k))"

lemma unmatched_same: "same_miners o1 o2 \<Longrightarrow> unmatched D o1 c = unmatched D o2 c"
proof -
  assume "same_miners o1 o2"
  then have "map_option lo_Drain (map_of o1 (fst c)) = map_option lo_Drain (map_of o2 (fst c))"
    unfolding same_miners_def by blast
  then show ?thesis by (auto simp: unmatched_def split: option.splits)
qed

lemma AnalyzeTarget_drain: "match_is_query D \<Longrightarrow> lo_Drain (snd (AnalyzeTarget D logs o')) = lo_Drain o'"
  by (simp add: AnalyzeTarget_def Let_def fold_analyze_line)

lemma analyze_container_verdict:
  assumes D: "match_is_query D"
  shows "ensures (\<lambda>(o1, _, s'). same_miners o1 oracles \<and> s' = (s \<and> \<not> unmatched D oracles c))
     (analyze_container D c (oracles, r, s))"
proof -
  obtain cn logs where c: "c = (cn, logs)" by (cases c)
  show ?thesis
  proof (cases "map_of oracles cn")
    case None
    then show ?thesis by (simp add: c analyze_container_def unmatched_def same_miners_def)
  next
    case (Some miner)
    obtain an n miner' where t: "AnalyzeTarget D logs miner = ((an, n), miner')" by (metis prod.collapse)
    with AnalyzeTarget_anomalies [OF D, of logs miner] AnalyzeTarget_drain [OF D, of logs miner]
    have an: "an = filter (\<lambda>l. \<not> fst (dr_Match D l (lo_Drain miner))) (log_lines logs)" "lo_Drain miner' = lo_Drain miner"
      by simp_all
    then have u: "an \<noteq> [] \<longleftrightarrow> unmatched D oracles c"
      by (auto simp: unmatched_def c Some list_ex_iff filter_empty_conv)
    have sm: "same_miners (map_put cn miner' oracles) oracles"
      using an(2) Some by (auto simp: same_miners_def)
    show ?thesis
      using u sm by (auto simp: c analyze_container_def Some t Let_def intro!: ensures_mono [OF anomaly_lines_le])
  qed
qed

lemma same_miners_trans: "same_miners a b \<Longrightarrow> same_miners b c \<Longrightarrow> same_miners a c"
  by (simp add: same_miners_def)

lemma analyze_containers_verdict:
  assumes D: "match_is_query D"
  shows "ensures (\<lambda>(o1, _, s'). same_miners o1 oracles \<and> s' = (s \<and> \<not> list_ex (unmatched D oracles) cs))
     (pfold (analyze_container D) cs (oracles, r, s))"
proof (induction cs arbitrary: oracles r s)
  case Nil
  show ?case by (simp add: same_miners_def)
next
  case (Cons c cs)
  have "ensures (\<lambda>(o1, _, s'). same_miners o1 oracles \<and> s' = (s \<and> \<not> list_ex (unmatched D oracles) (c # cs)))
      (pfold (analyze_container D) cs (o1, r1, s1))" if "same_miners o1 oracles" "s1 = (s \<and> \<not> unmatched D oracles c)" for o1 r1 s1
    by (rule ensures_mono [OF Cons.IH])
      (use that unmatched_same [OF that(1)] in \<open>auto simp: list_ex_iff intro: same_miners_trans\<close>)
  then show ?case
    by (simp, intro ensures_mono [OF analyze_container_verdict [OF D]]) auto
qed

lemma analyze_run_verdict:
  assumes D: "match_is_query D" and srv: "kv_server h kv"
    and s: "kv w (recording_key (manager_key m (cr_Name r))) = Some s"
    and js: "s \<noteq> ''''" "lib_unmarshal L s = Inr rec"
    and ret: "run h (analyze_run D F L m mo r (oracles, updated)) w = (Inr res, w')"
  shows "\<exists>oracles' r'. res = Inr (oracles', map_put (cr_Name r) r' updated) \<and> judged r r' \<and>
     cr_CheckSuccessfull r' =
       Some ((case cr_CheckSuccessfull r of Some b \<Rightarrow> b | None \<Rightarrow> rc_Success rec) \<and>
             \<not> list_ex (unmatched D oracles) (rc_Logs rec))"
proof -
  let ?s = "case cr_CheckSuccessfull r of Some b \<Rightarrow> b | None \<Rightarrow> rc_Success rec"
  let ?post = "\<lambda>res. \<exists>oracles' r'. res = Inr (oracles', map_put (cr_Name r) r' updated) \<and> judged r r' \<and>
     cr_CheckSuccessfull r' = Some (?s \<and> \<not> list_ex (unmatched D oracles) (rc_Logs rec))"
  obtain w1 where got: "run h (GetRecording L (manager_key m (cr_Name r))) w = (Inr (Inr (Some rec)), w1)"
    using GetRecording_run [OF srv s js] by blast
  let ?conclude = "\<lambda>(oracles, checkRun, successful).
      pbind (lift_go (Metrics_AnalyzeTarget F rec mo)) (\<lambda>(cpu, memory).
        let checkRun = checkRun\<lparr>cr_CheckSuccessfull := Some successful, cr_CpuDeviation := Some cpu, cr_MemoryDeviation := Some memory\<rparr>
        in Ret (Inr (oracles, map_put (cr_Name checkRun) checkRun updated)))"
  let ?rest = "pbind map_order (\<lambda>\<sigma>. pbind (pfold (analyze_container D) (arrange \<sigma> (rc_Logs rec)) (oracles, r, ?s)) ?conclude)"
  have r: "run h ?rest w1 = (Inr res, w')"
    using ret unfolding analyze_run_def by (simp add: run_pbind_Inr [OF got] Let_def)
  have e: "ensures ?post ?rest"
  proof -
    have concl: "ensures ?post (?conclude (o1, r1, s1))"
      if a: "analyzing r ?s (r1, s1)" and s1: "s1 = (?s \<and> \<not> list_ex (unmatched D oracles) (rc_Logs rec))" for o1 r1 s1
    proof -
      have "cr_Name r1 = cr_Name r" using a by (simp add: analyzing_def)
      then show ?thesis using judged_verdict [OF a] s1 by (auto simp: Let_def split: prod.splits)
    qed
    have "list_ex (unmatched D oracles) (arrange \<sigma> (rc_Logs rec)) = list_ex (unmatched D oracles) (rc_Logs rec)" for \<sigma>
      by (simp add: list_ex_iff)
    then have all: "ensures (\<lambda>(o1, r1, s1). analyzing r ?s (r1, s1) \<and> s1 = (?s \<and> \<not> list_ex (unmatched D oracles) (rc_Logs rec)))
        (pfold (analyze_container D) (arrange \<sigma> (rc_Logs rec)) (oracles, r, ?s))" for \<sigma>
      using ensures_conj [OF analyze_containers_keep [where D = D and r = r and s = ?s and oracles = oracles and cs = "arrange \<sigma> (rc_Logs rec)"]
          analyze_containers_verdict [OF D, where r = r and s = ?s and oracles = oracles and cs = "arrange \<sigma> (rc_Logs rec)"]]
      by (auto elim!: ensures_mono)
    show ?thesis
    proof (rule ensures_pbindI [OF ensures_True], rule ensures_pbindI [OF all])
      fix a
      assume post: "case a of (o1, r1, s1) \<Rightarrow> analyzing r ?s (r1, s1) \<and> s1 = (?s \<and> \<not> list_ex (unmatched D oracles) (rc_Logs rec))"
      obtain o1 r1 s1 where a: "a = (o1, r1, s1)" by (cases a)
      show "ensures ?post (?conclude a)"
        unfolding a by (rule concl) (use post [unfolded a prod.case] in \<open>blast+\<close>)
    qed
  qed
  from ensures_run [OF e r] show ?thesis .
qed

section \<open>Properties\<close>

text \<open>C21: what an analysis may do. Whatever the store and the API server answer, it reads recordings and the check, and a
  status it writes holds in \<open>CheckRuns\<close> only runs of the analyzed check, filed under their names and judged: the
  verdict is set, a run that had failed stays failed, one that fails by the analysis has a reason, one that
  passes is otherwise unchanged, and no container gains more than ten stored lines.\<close>

theorem AnalyzeCheckRuns_stores_judged_runs:
  "list_all (analysis_call (snd ` set (wst_CheckRuns (whc_Status m)))) (issued (AnalyzeCheckRuns D F L m) rs)"
  by (rule calls_only_issued [OF analysis_stores_judged])

text \<open>C14: the verdict on one run. Where the recording \<open>rec\<close> of the run is in the store, the analysis of the run returns it with
  the verdict true exactly when it was not already known to have failed, its recording reports success, and no container
  with a baseline logged a line unknown to that baseline's miner; in whatever order the containers are visited.\<close>

theorem analyze_run_exact:
  assumes "match_is_query D" and "kv_server h kv"
    and "kv w (recording_key (manager_key m (cr_Name r))) = Some s"
    and "s \<noteq> ''''" and "lib_unmarshal L s = Inr rec"
    and "run h (analyze_run D F L m mo r (oracles, updated)) w = (Inr res, w')"
  shows "\<exists>oracles' r'. res = Inr (oracles', map_put (cr_Name r) r' updated) \<and> judged r r' \<and>
     cr_CheckSuccessfull r' =
       Some ((case cr_CheckSuccessfull r of Some b \<Rightarrow> b | None \<Rightarrow> rc_Success rec) \<and>
             \<not> list_ex (unmatched D oracles) (rc_Logs rec))"
  by (rule analyze_run_verdict [OF assms])

definition unjudged_run :: CheckRun where
  "unjudged_run = user_run\<lparr>cr_CheckSuccessfull := None\<rparr>"

text \<open>The recording logs a line the baseline never logged, so the run fails.\<close>

lemma analyze_run_exact_witness:
  "\<exists>res w' oracles' r'. run kv_memory (analyze_run seen_lines int_floats (recording_lib list_lib) sample_check (NewMetricsOrakel int_floats)
      unjudged_run ([(''app'', NewLogOrakel seen_lines)], [])) (\<lambda>_. Some ''json'') = (Inr res, w') \<and>
    res = Inr (oracles', [(''user'', r')]) \<and> cr_CheckSuccessfull r' = Some False"
proof -
  have rec: "lib_unmarshal (recording_lib list_lib) ''json'' = Inr sample_recording" by (simp add: recording_lib_def)
  have got: "run kv_memory (GetRecording (recording_lib list_lib) k) (\<lambda>_. Some ''json'') = (Inr (Inr (Some sample_recording)), \<lambda>_. Some ''json'')" for k
    by (simp add: GetRecording_def getEntry_def run_pbind run_ask recording_lib_def)
  have trim: "TrimSpace ''ready'' = ''ready''" "TrimSpace ''boom'' = ''boom''" by code_simp+
  have logs: "rc_Logs sample_recording = [(''app'', [''ready'', ''boom''])]" "rc_Success sample_recording"
      "rc_RecordedMetrics sample_recording = []"
    by (simp_all add: sample_recording_def)
  have run: "cr_CheckSuccessfull unjudged_run = None" "cr_Name unjudged_run = ''user''"
    by (simp_all add: unjudged_run_def user_run_def)
  have "\<exists>res w'. run kv_memory (analyze_run seen_lines int_floats (recording_lib list_lib) sample_check (NewMetricsOrakel int_floats)
      unjudged_run ([(''app'', NewLogOrakel seen_lines)], [])) (\<lambda>_. Some ''json'') = (Inr res, w')"
    unfolding analyze_run_def
    by (simp add: run_pbind got run_ask logs run Let_def arrange_no_picks analyze_container_def anomaly_lines_def
        AnalyzeTarget_def analyze_line_def trim NewLogOrakel_def seen_lines_def Metrics_AnalyzeTarget_def NewMetricsOrakel_def
        split: prod.splits)
  then obtain res w' where r: "run kv_memory (analyze_run seen_lines int_floats (recording_lib list_lib) sample_check (NewMetricsOrakel int_floats)
      unjudged_run ([(''app'', NewLogOrakel seen_lines)], [])) (\<lambda>_. Some ''json'') = (Inr res, w')" by blast
  have "unmatched seen_lines [(''app'', NewLogOrakel seen_lines)] (''app'', [''ready'', ''boom''])"
    by (simp add: unmatched_def seen_lines_def NewLogOrakel_def trim)
  with analyze_run_exact [OF seen_lines_query kv_memory_lawful _ _ rec r] r run logs show ?thesis by auto
qed

end
