(* ===== verification/Recording.thy ===== *)
theory Recording
  imports Effects
begin

text \<open>
  \<^verbatim>\<open>internal/recording/logs.go\<close>: the log recorder. Its goroutines, one per pod, each fetch the logs
  of the pod's containers in order and append them to a shared map under a mutex; their
  interleaving is a schedule the runtime picks.
\<close>

section \<open>Waiting for pods\<close>

text \<open>
  The loop that lists the pods until there are some and all are assigned to a node. It has no
  timeout: \<open>fuel\<close> bounds its rounds. A round that found unassigned pods sleeps; a round that found
  no pods does not.
\<close>

primrec await_pods :: "nat \<Rightarrow> string \<Rightarrow> string option \<Rightarrow> (error + Pod list) io" where
  "await_pods 0 ns sel = Crash OutOfFuel"
| "await_pods (Suc fuel) ns sel =
     pbind (list_pods ns sel) (\<lambda>r. case r of
       Inl e \<Rightarrow> Ret (Inl e)
     | Inr pods \<Rightarrow>
         if length pods > 0
         then if list_all (\<lambda>p. pod_NodeName p \<noteq> '''') pods then Ret (Inr pods)
              else pbind (sleep (1 * second)) (\<lambda>_. await_pods fuel ns sel)
         else await_pods fuel ns sel)"

section \<open>Interleaving\<close>

text \<open>
  Each goroutine is the list of its steps. A schedule is a list of picks: each takes the next step
  of one of the goroutines that have steps left.
\<close>

definition pick :: "nat list \<Rightarrow> 'a list \<Rightarrow> nat" where
  "pick \<sigma> live = (case \<sigma> of [] \<Rightarrow> 0 | n # _ \<Rightarrow> n mod length live)"

lemma pick_less: "live \<noteq> [] \<Longrightarrow> pick \<sigma> live < length live"
  by (cases \<sigma>) (auto simp: pick_def)

lemma sum_list_take_step:
  "i < length live \<Longrightarrow> live ! i \<noteq> [] \<Longrightarrow> sum_list (map length (live[i := tl (live ! i)])) < sum_list (map length live)"
proof (induction live arbitrary: i)
  case (Cons t ts)
  show ?case
  proof (cases i)
    case 0
    with Cons.prems show ?thesis by (cases t) auto
  next
    case (Suc j)
    with Cons show ?thesis by auto
  qed
qed simp

lemma live_pick:
  assumes "live = filter (\<lambda>t. t \<noteq> []) ts" and "live \<noteq> []"
  shows "pick \<sigma> live < length live" and "live ! pick \<sigma> live \<noteq> []"
  using pick_less [OF assms(2), of \<sigma>] nth_mem [of "pick \<sigma> live" live] by (simp_all add: assms(1))

lemma interleave_measure:
  assumes "live = filter (\<lambda>t. t \<noteq> []) ts" and "live \<noteq> []"
  shows "sum_list (map length (live[pick \<sigma> live := tl (live ! pick \<sigma> live)])) < sum_list (map length ts)"
proof -
  have "sum_list (map length live) = sum_list (map length ts)"
    unfolding assms(1) by (induction ts) auto
  with sum_list_take_step [OF live_pick [OF assms, of \<sigma>]] show ?thesis by simp
qed

function interleave :: "nat list \<Rightarrow> 'a list list \<Rightarrow> 'a list" where
  "interleave \<sigma> ts =
     (let live = filter (\<lambda>t. t \<noteq> []) ts
      in if live = [] then []
         else let t = live ! pick \<sigma> live in hd t # interleave (tl \<sigma>) (live[pick \<sigma> live := tl t]))"
  by pat_completeness auto
termination
  by (relation "measure (\<lambda>(\<sigma>, ts). sum_list (map length ts))") (simp_all add: interleave_measure [OF refl])

declare interleave.simps [simp del]

section \<open>Recording\<close>

text \<open>\<open>strings.Split(s, "\n")\<close>.\<close>

fun split_lines :: "string \<Rightarrow> string list" where
  "split_lines [] = [[]]"
| "split_lines (c # s) = (if (of_char c :: nat) = 10 then [] # split_lines s
     else (case split_lines s of l # ls \<Rightarrow> (c # l) # ls | [] \<Rightarrow> [[c]]))"

text \<open>The steps of one goroutine: the pod, the container asked for, and the key its lines go under.\<close>

definition log_steps :: "Pod \<Rightarrow> (Pod \<times> string \<times> string) list" where
  "log_steps pod = map (\<lambda>c. (pod, c, c)) (pod_Containers pod) @ map (\<lambda>c. (pod, c, ''init:'' @ c)) (pod_InitContainers pod)"

definition GetLogs :: "Pod \<Rightarrow> string \<Rightarrow> bool \<Rightarrow> (error + string) io" where
  "GetLogs pod containerName previous = pod_logs (pod_Namespace pod) (pod_Name pod) containerName previous"

definition log_step ::
  "bool \<Rightarrow> Pod \<times> string \<times> string \<Rightarrow> (string \<times> string list) list \<Rightarrow> (string \<times> string list) list io" where
  "log_step previous = (\<lambda>(pod, containerName, key) logMap.
     pbind (GetLogs pod containerName previous) (\<lambda>r. case r of
       Inl e \<Rightarrow> Ret logMap
     | Inr containerLog \<Rightarrow> Ret (map_put key
         ((case map_of logMap key of Some ls \<Rightarrow> ls | None \<Rightarrow> []) @ split_lines containerLog) logMap)))"

definition RecordLogs :: "nat \<Rightarrow> string \<Rightarrow> string option \<Rightarrow> bool \<Rightarrow> (error + (string \<times> string list) list) io" where
  "RecordLogs fuel targetNamespace labelSelector previous =
     pbind (await_pods fuel targetNamespace labelSelector) (\<lambda>r. case r of
       Inl e \<Rightarrow> Ret (Inl e)
     | Inr pods \<Rightarrow> pbind map_order (\<lambda>\<sigma>.
         pbind (pfold (log_step previous) (interleave \<sigma> (map log_steps pods)) []) (\<lambda>logMap. Ret (Inr logMap))))"

section \<open>Facts\<close>

text \<open>Every step of every goroutine happens exactly once, whatever the schedule.\<close>

lemma mset_concat_filter: "mset (concat (filter (\<lambda>t. t \<noteq> []) ts)) = mset (concat ts)"
  by (induction ts) auto

lemma mset_concat_take_step:
  "i < length live \<Longrightarrow> live ! i \<noteq> [] \<Longrightarrow> add_mset (hd (live ! i)) (mset (concat (live[i := tl (live ! i)]))) = mset (concat live)"
proof (induction live arbitrary: i)
  case (Cons t ts)
  show ?case
  proof (cases i)
    case 0
    with Cons.prems show ?thesis by (cases t) auto
  next
    case (Suc j)
    with Cons show ?thesis by auto
  qed
qed simp

lemma mset_interleave: "mset (interleave \<sigma> ts) = mset (concat ts)"
proof (induction \<sigma> ts rule: interleave.induct)
  case (1 \<sigma> ts)
  define live where "live = filter (\<lambda>t. t \<noteq> []) ts"
  show ?case
  proof (cases "live = []")
    case True
    then have "mset (concat ts) = {#}" using mset_concat_filter [of ts] by (simp add: live_def)
    with True show ?thesis by (simp add: interleave.simps [of \<sigma> ts] live_def)
  next
    case False
    let ?rest = "live[pick \<sigma> live := tl (live ! pick \<sigma> live)]"
    have eq: "interleave \<sigma> ts = hd (live ! pick \<sigma> live) # interleave (tl \<sigma>) ?rest"
      using False by (simp add: interleave.simps [of \<sigma> ts] Let_def live_def)
    have "mset (interleave (tl \<sigma>) ?rest) = mset (concat ?rest)"
      using "1.IH" [OF live_def False refl] .
    with mset_concat_take_step [OF live_pick [OF live_def False, of \<sigma>]] show ?thesis
      by (simp add: eq live_def mset_concat_filter)
  qed
qed

lemma split_lines_nonempty: "split_lines s \<noteq> []"
  by (induction s rule: split_lines.induct) (auto split: list.splits)

section \<open>Properties\<close>

text \<open>A log server: the text of a container's log depends on the pod and the container only.\<close>

definition log_server :: "(call, resp, 'w) handler \<Rightarrow> (string \<Rightarrow> string \<Rightarrow> string \<Rightarrow> bool \<Rightarrow> string) \<Rightarrow> bool" where
  "log_server h text \<longleftrightarrow> (\<forall>ns p c b w. fst (h (PodLogs ns p c b) w) = RString (text ns p c b))"

abbreviation lines_of :: "(string \<times> string list) list \<Rightarrow> string \<Rightarrow> string list" where
  "lines_of m k \<equiv> case map_of m k of Some ls \<Rightarrow> ls | None \<Rightarrow> []"

text \<open>The lines one step adds under a key.\<close>

definition step_lines :: "(string \<Rightarrow> string \<Rightarrow> string \<Rightarrow> bool \<Rightarrow> string) \<Rightarrow> bool \<Rightarrow> string \<Rightarrow> Pod \<times> string \<times> string \<Rightarrow> string list" where
  "step_lines text previous k = (\<lambda>(pod, c, key).
     if key = k then split_lines (text (pod_Namespace pod) (pod_Name pod) c previous) else [])"

lemma log_step_run:
  assumes "log_server h text"
  shows "\<exists>m' w'. run h (log_step previous s m) w = (Inr m', w') \<and> (\<forall>k. lines_of m' k = lines_of m k @ step_lines text previous k s)"
proof -
  obtain pod c key where s: "s = (pod, c, key)" by (cases s)
  obtain r w' where r: "h (PodLogs (pod_Namespace pod) (pod_Name pod) c previous) w = (r, w')" by (metis prod.collapse)
  with assms have "r = RString (text (pod_Namespace pod) (pod_Name pod) c previous)" by (metis fst_conv log_server_def)
  with r show ?thesis by (simp add: s log_step_def GetLogs_def run_pbind run_ask step_lines_def)
qed

lemma log_steps_run:
  assumes "log_server h text"
  shows "\<exists>m' w'. run h (pfold (log_step previous) ss m) w = (Inr m', w') \<and>
    (\<forall>k. lines_of m' k = lines_of m k @ concat (map (step_lines text previous k) ss))"
proof (induction ss arbitrary: m w)
  case (Cons s ss)
  obtain m1 w1 where 1: "run h (log_step previous s m) w = (Inr m1, w1)"
    "\<forall>k. lines_of m1 k = lines_of m k @ step_lines text previous k s"
    using log_step_run [OF assms] by blast
  obtain m2 w2 where "run h (pfold (log_step previous) ss m1) w1 = (Inr m2, w2)"
    "\<forall>k. lines_of m2 k = lines_of m1 k @ concat (map (step_lines text previous k) ss)"
    using Cons.IH by blast
  with 1 show ?case by (simp add: run_pbind)
qed simp

lemma mset_concat_steps: "mset (concat (map f ss)) = (\<Sum>s\<in>#mset ss. mset (f s))"
  by (induction ss) simp_all


definition web_pod :: "string \<Rightarrow> Pod" where
  "web_pod n = \<lparr>pod_Name = n, pod_Namespace = ''shop'', pod_UID = n, pod_NodeName = ''node-1'', pod_Phase = PodRunning,
     pod_DeletionTimestamp = None, pod_ContainerStatuses = [], pod_Containers = [''app''], pod_InitContainers = [''setup'']\<rparr>"

fun two_pods_server :: "(call, resp, unit) handler" where
  "two_pods_server (ListPods ns sel) w = (RPods [web_pod ''web-0'', web_pod ''web-1''], w)"
| "two_pods_server MapOrder w = (RPicks [1, 0, 0], w)"
| "two_pods_server (PodLogs ns p c b) w = (RString (p @ c), w)"
| "two_pods_server c w = (ROk, w)"


end
