(* ===== verification/NamespaceOps.thy ===== *)
theory NamespaceOps
  imports Conditions
begin

text \<open>
  \<^verbatim>\<open>internal/namespace\<close>: listing the resources of a namespace (\<open>resources.go\<close>), cloning a namespace
  (\<open>clone.go\<close>) and deleting a clone (\<open>delete.go\<close>).
\<close>

section \<open>Resources of a namespace\<close>

definition resourcesToSkip :: "string list" where
  "resourcesToSkip = [''bindings'', ''localsubjectaccessreviews'', ''endpointslices'', ''endpoints'', ''events'',
     ''ingresses'', ''httproutes'', ''gateways'', ''podmetrics'', ''controllerrevisions'',
     ''workloadhardeningchecks'', ''namespacehardeningchecks'']"

definition skipped_type :: "APIResource \<Rightarrow> bool" where
  "skipped_type t \<longleftrightarrow> ToLower (ar_Kind t) \<in> set resourcesToSkip \<or> Contains (ar_Name t) ''/''"

text \<open>One round of the inner loop: the map from resource type names to the objects found so far.\<close>

definition list_type ::
  "lib \<Rightarrow> string \<Rightarrow> string \<Rightarrow> APIResource \<Rightarrow> (string \<times> Unstructured list) list \<Rightarrow> (string \<times> Unstructured list) list io" where
  "list_type L namespace groupVersion t resources =
     (if \<not> ar_Namespaced t then Ret resources
      else if Contains (ar_Group t) ''metrics'' then Ret resources
      else if skipped_type t then Ret resources
      else case lib_ParseGroupVersion L groupVersion of
          Inl e \<Rightarrow> Ret resources
        | Inr (grp, ver) \<Rightarrow>
            pbind (list_resources grp ver (ar_Name t) namespace) (\<lambda>r. case r of
              Inl e \<Rightarrow> Ret resources
            | Inr items \<Rightarrow>
                if length items = 0 then Ret resources
                else Ret (map_put (ar_Name t)
                  ((case map_of resources (ar_Name t) of Some xs \<Rightarrow> xs | None \<Rightarrow> []) @ items) resources)))"

definition getAllResources :: "lib \<Rightarrow> string \<Rightarrow> (string \<times> Unstructured list) list io" where
  "getAllResources L namespace =
     pfold (\<lambda>rl resources.
         if length (al_APIResources rl) = 0 then Ret resources
         else pfold (list_type L namespace (al_GroupVersion rl)) (al_APIResources rl) resources)
       (lib_namespacedResources L) []"

definition GetTopLevelResources :: "lib \<Rightarrow> string \<Rightarrow> Unstructured list io" where
  "GetTopLevelResources L namespace =
     pbind (getAllResources L namespace) (\<lambda>allResources.
     pbind map_order (\<lambda>\<sigma>.
       Ret (concat (map (\<lambda>(_, items). filter (\<lambda>r. length (u_OwnerReferences r) = 0) items) (arrange \<sigma> allResources)))))"

section \<open>Cloning one resource\<close>

definition clone_pvc :: "Unstructured \<Rightarrow> crash + Unstructured" where
  "clone_pvc c =
     (if u_Kind c = ''PersistentVolumeClaim''
      then (case map_of (u_fields c) ''spec'' of
          Some (JObj spec) \<Rightarrow> Inr (c\<lparr>u_Annotations := [],
             u_fields := map_put ''spec'' (JObj (map_put ''volumeName'' (JStr '''') spec)) (u_fields c)\<rparr>)
        | _ \<Rightarrow> Inl TypeAssertion)
      else Inr c)"

definition clear_service :: "Service \<Rightarrow> Service" where
  "clear_service svc = svc\<lparr>svc_ClusterIP := '''', svc_ClusterIPs := [], svc_ExternalIPs := [], svc_LoadBalancerIP := ''''\<rparr>"

definition clone_service :: "lib \<Rightarrow> Unstructured \<Rightarrow> crash + Unstructured" where
  "clone_service L c =
     (if u_Kind c = ''Service''
      then (case lib_FromUnstructured L c of
          None \<Rightarrow> Inl NilDeref
        | Some svc \<Rightarrow> Inr (lib_ToUnstructured L (clear_service svc)))
      else Inr c)"

definition rebind_subject :: "string \<Rightarrow> string \<Rightarrow> json \<Rightarrow> crash + json" where
  "rebind_subject source target subject = (case subject of
     JObj m \<Rightarrow>
       if map_of m ''kind'' = Some (JStr ''ServiceAccount'') \<and> map_of m ''namespace'' = Some (JStr source)
       then Inr (JObj (map_put ''namespace'' (JStr target) m))
       else Inr subject
   | _ \<Rightarrow> Inl TypeAssertion)"

definition clone_rolebinding :: "string \<Rightarrow> string \<Rightarrow> Unstructured \<Rightarrow> crash + Unstructured" where
  "clone_rolebinding source target c =
     (if u_Kind c = ''RoleBinding''
      then (case map_of (u_fields c) ''subjects'' of
          Some (JArr subjects) \<Rightarrow> go_bind (go_map (rebind_subject source target) subjects) (\<lambda>subjects'.
            Inr (c\<lparr>u_fields := map_put ''subjects'' (JArr subjects') (u_fields c)\<rparr>))
        | _ \<Rightarrow> Inl TypeAssertion)
      else Inr c)"

definition clone_resource :: "lib \<Rightarrow> string \<Rightarrow> string \<Rightarrow> Unstructured \<Rightarrow> crash + Unstructured" where
  "clone_resource L source target r =
     (let c = r\<lparr>u_ResourceVersion := '''', u_SelfLink := '''', u_Generation := 0, u_UID := '''', u_Namespace := target\<rparr>
      in go_bind (clone_pvc c) (\<lambda>c. go_bind (clone_service L c) (clone_rolebinding source target)))"

text \<open>Resources every namespace gets by itself.\<close>

definition automatic :: "Unstructured \<Rightarrow> bool" where
  "automatic r \<longleftrightarrow> (u_Kind r = ''ServiceAccount'' \<and> u_Name r = ''default'') \<or>
     (u_Kind r = ''ConfigMap'' \<and> u_Name r = ''kube-root-ca.crt'')"

text \<open>One round of the loop: the counts of cloned and of failed resources.\<close>

definition clone_one :: "lib \<Rightarrow> string \<Rightarrow> string \<Rightarrow> Unstructured \<Rightarrow> nat \<times> nat \<Rightarrow> (nat \<times> nat) io" where
  "clone_one L source target r = (\<lambda>(cloned, failed).
     if automatic r then Ret (cloned, failed)
     else pbind (lift_go (clone_resource L source target r)) (\<lambda>c.
       pbind (create_resource c) (\<lambda>e. Ret (case e of Some _ \<Rightarrow> (cloned, failed + 1) | None \<Rightarrow> (cloned + 1, failed)))))"

section \<open>Cluster role bindings\<close>

definition binds :: "string \<Rightarrow> Subject \<Rightarrow> bool" where
  "binds source s \<longleftrightarrow> sub_Kind s = ''ServiceAccount'' \<and> sub_Namespace s = source"

definition clone_binding_name :: "string \<Rightarrow> string \<Rightarrow> string io" where
  "clone_binding_name name target =
     (let roleBindingName = name @ ''-'' @ target
      in if length roleBindingName > 250
         then let suffixLength = (if length name > 245 then 253 - int (length name) else 10)
              in pbind (rand_string suffixLength) (\<lambda>s.
                   let roleBindingName = name @ ''-'' @ s
                   in Ret (if length roleBindingName > 253 then take 253 roleBindingName else roleBindingName))
         else Ret roleBindingName)"

definition clone_binding :: "string \<Rightarrow> string \<Rightarrow> string \<Rightarrow> string \<Rightarrow> ClusterRoleBinding \<Rightarrow> ClusterRoleBinding" where
  "clone_binding source target suffix name b = b\<lparr>crb_ResourceVersion := '''', crb_SelfLink := '''', crb_UID := '''',
     crb_Generation := 0, crb_Name := name,
     crb_Labels := map_put ''orakel.fhnw.ch/suffix'' suffix (map_put ''orakel.fhnw.ch/target-namespace'' target
       (map_put ''orakel.fhnw.ch/source-namespace'' source
       (map_put ''app.kubernetes.io/managed-by'' ''oracle-of-funk'' (crb_Labels b)))),
     crb_Subjects := map (\<lambda>s. if binds source s then s\<lparr>sub_Namespace := target\<rparr> else s) (crb_Subjects b)\<rparr>"

primrec clone_bindings :: "string \<Rightarrow> string \<Rightarrow> string \<Rightarrow> ClusterRoleBinding list \<Rightarrow> nat \<Rightarrow> (nat \<times> error option) io" where
  "clone_bindings source target suffix [] n = Ret (n, None)"
| "clone_bindings source target suffix (b # bs) n =
     (if list_ex (binds source) (crb_Subjects b)
      then pbind (clone_binding_name (crb_Name b) target) (\<lambda>name.
           pbind (create_binding (clone_binding source target suffix name b)) (\<lambda>e. case e of
             Some err \<Rightarrow> Ret (n + 1, Some (Errorf (''error creating cluster role binding '' @ crb_Name b) (Some err)))
           | None \<Rightarrow> clone_bindings source target suffix bs (n + 1)))
      else clone_bindings source target suffix bs n)"

text \<open>A failed list leaves the empty list.\<close>

definition items_of :: "error + 'a list \<Rightarrow> 'a list" where
  "items_of r = (case r of Inl e \<Rightarrow> [] | Inr xs \<Rightarrow> xs)"

definition cloneClusterRoleBindings :: "string \<Rightarrow> string \<Rightarrow> string \<Rightarrow> (nat \<times> error option) io" where
  "cloneClusterRoleBindings source target suffix =
     pbind list_bindings (\<lambda>r.
       let items = items_of r
       in if length items > 0 then clone_bindings source target suffix items 0 else Ret (0, None))"

section \<open>Clone and Delete\<close>

definition clone_labels :: "string \<Rightarrow> string \<Rightarrow> string \<Rightarrow> (string \<times> string) list" where
  "clone_labels source target suffix =
     [(''app.kubernetes.io/name'', target), (''app.kubernetes.io/managed-by'', ''oracle-of-funk''),
      (''orakel.fhnw.ch/source-namespace'', source), (''orakel.fhnw.ch/suffix'', suffix)]"

definition Clone :: "lib \<Rightarrow> string \<Rightarrow> string \<Rightarrow> string \<Rightarrow> error option io" where
  "Clone L source target suffix =
     pbind (get_namespace target) (\<lambda>r. case r of
       Inr ns \<Rightarrow> Ret (Some (Errorf (''target namespace already exists '' @ target) None))
     | Inl err \<Rightarrow>
         if \<not> IsNotFound err then Ret (Some (Errorf ''error fetching namespace'' (Some err)))
         else pbind (GetTopLevelResources L source) (\<lambda>topLevelResources.
           pbind (create_namespace \<lparr>nsp_Name = target, nsp_Labels = clone_labels source target suffix\<rparr>) (\<lambda>e. case e of
             Some err \<Rightarrow> Ret (Some (Errorf ''error creating target namespace'' (Some err)))
           | None \<Rightarrow> pbind (cloneClusterRoleBindings source target suffix) (\<lambda>(_, e). case e of
               Some err \<Rightarrow> Ret (Some (Errorf ''error cloning cluster role bindings'' (Some err)))
             | None \<Rightarrow> pbind (pfold (clone_one L source target) topLevelResources (0, 0)) (\<lambda>_. Ret None)))))"

definition target_label :: "ClusterRoleBinding \<Rightarrow> string" where
  "target_label b = (case map_of (crb_Labels b) ''orakel.fhnw.ch/target-namespace'' of Some v \<Rightarrow> v | None \<Rightarrow> '''')"

definition delete_bindings :: "string \<Rightarrow> ClusterRoleBinding list \<Rightarrow> unit io" where
  "delete_bindings target bs =
     pfold (\<lambda>b _. if target_label b = target then pbind (delete_binding (crb_Name b)) (\<lambda>_. Ret ()) else Ret ()) bs ()"

text \<open>The object handed to the client's Delete is the one fetched under the name \<open>target\<close>.\<close>

definition Delete :: "string \<Rightarrow> error option io" where
  "Delete target =
     pbind (get_namespace target) (\<lambda>r. case r of
       Inl err \<Rightarrow> if IsNotFound err then Ret None else Ret (Some err)
     | Inr ns \<Rightarrow> pbind (delete_namespace target) (\<lambda>e. case e of
         Some err \<Rightarrow> Ret (Some err)
       | None \<Rightarrow> pbind list_bindings (\<lambda>r. pbind (delete_bindings target (items_of r)) (\<lambda>_. Ret None))))"

section \<open>What cloning and deleting may touch\<close>

text \<open>
  The laws of the Service conversion that cloning relies on: clearing addresses of the converted
  object leaves its metadata as it was.
\<close>

definition service_conversion :: "lib \<Rightarrow> bool" where
  "service_conversion L \<longleftrightarrow> (\<forall>u svc. lib_FromUnstructured L u = Some svc \<longrightarrow>
     (let u' = lib_ToUnstructured L (clear_service svc)
      in u_Kind u' = u_Kind u \<and> u_Name u' = u_Name u \<and> u_Namespace u' = u_Namespace u \<and>
         u_ResourceVersion u' = u_ResourceVersion u \<and> u_UID u' = u_UID u \<and> u_OwnerReferences u' = u_OwnerReferences u))"

definition fresh_in :: "string \<Rightarrow> Unstructured \<Rightarrow> bool" where
  "fresh_in target u \<longleftrightarrow> u_Namespace u = target \<and> u_ResourceVersion u = '''' \<and> u_UID u = ''''"

lemma clone_resource_fresh:
  assumes "service_conversion L" and "clone_resource L source target r = Inr c"
  shows "fresh_in target c" and "u_Name c = u_Name r" and "u_Kind c = u_Kind r" and "u_OwnerReferences c = u_OwnerReferences r"
proof -
  from assms(2) obtain c1 c2 where
    1: "clone_pvc (r\<lparr>u_ResourceVersion := '''', u_SelfLink := '''', u_Generation := 0, u_UID := '''', u_Namespace := target\<rparr>) = Inr c1"
    and 2: "clone_service L c1 = Inr c2" and 3: "clone_rolebinding source target c2 = Inr c"
    by (auto simp: clone_resource_def Let_def go_bind_Inr)
  from 1 have "fresh_in target c1 \<and> u_Name c1 = u_Name r \<and> u_Kind c1 = u_Kind r \<and> u_OwnerReferences c1 = u_OwnerReferences r"
    by (auto simp: clone_pvc_def fresh_in_def split: if_splits option.splits json.splits)
  moreover from 2 assms(1) have "fresh_in target c1 \<longrightarrow> fresh_in target c2" "u_Name c2 = u_Name c1" "u_Kind c2 = u_Kind c1"
    "u_OwnerReferences c2 = u_OwnerReferences c1"
    by (auto simp: clone_service_def service_conversion_def fresh_in_def Let_def split: if_splits option.splits)
  moreover from 3 have "fresh_in target c2 \<longrightarrow> fresh_in target c" "u_Name c = u_Name c2" "u_Kind c = u_Kind c2"
    "u_OwnerReferences c = u_OwnerReferences c2"
    by (auto simp: clone_rolebinding_def fresh_in_def go_bind_Inr split: if_splits option.splits json.splits)
  ultimately show "fresh_in target c" "u_Name c = u_Name r" "u_Kind c = u_Kind r" "u_OwnerReferences c = u_OwnerReferences r"
    by simp_all
qed

text \<open>No service account of the source namespace is bound by the clone of a role binding.\<close>

definition json_binds :: "string \<Rightarrow> json \<Rightarrow> bool" where
  "json_binds source s = (case s of
     JObj m \<Rightarrow> map_of m ''kind'' = Some (JStr ''ServiceAccount'') \<and> map_of m ''namespace'' = Some (JStr source)
   | _ \<Rightarrow> False)"

lemma rebind_subject_moves:
  "rebind_subject source target s = Inr s' \<Longrightarrow> source \<noteq> target \<Longrightarrow> \<not> json_binds source s'"
  by (auto simp: rebind_subject_def json_binds_def split: json.splits if_splits)

lemma clone_rolebinding_moves:
  assumes "clone_rolebinding source target c = Inr c'" and "u_Kind c = ''RoleBinding''" and "source \<noteq> target"
  shows "\<exists>ss. map_of (u_fields c') ''subjects'' = Some (JArr ss) \<and> (\<forall>s \<in> set ss. \<not> json_binds source s)"
proof -
  from assms obtain ss ss' where "go_map (rebind_subject source target) ss = Inr ss'"
    and c': "c' = c\<lparr>u_fields := map_put ''subjects'' (JArr ss') (u_fields c)\<rparr>"
    by (auto simp: clone_rolebinding_def go_bind_Inr split: option.splits json.splits)
  then have "list_all2 (\<lambda>s s'. rebind_subject source target s = Inr s') ss ss'" by (simp add: go_map_Inr)
  then have "\<forall>s' \<in> set ss'. \<exists>s. rebind_subject source target s = Inr s'"
    by (auto simp: list_all2_conv_all_nth in_set_conv_nth) blast
  with assms(3) have "\<forall>s \<in> set ss'. \<not> json_binds source s" by (metis rebind_subject_moves)
  then show ?thesis by (simp add: c')
qed

lemma clone_binding_moves: "source \<noteq> target \<Longrightarrow> \<not> list_ex (binds source) (crb_Subjects (clone_binding source target suffix name b))"
  by (auto simp: clone_binding_def list_ex_iff binds_def)

lemma target_label_clone [simp]: "target_label (clone_binding source target suffix name b) = target"
  by (simp add: target_label_def clone_binding_def)

lemma clone_binding_name_le: "ensures (\<lambda>n. length n \<le> 253) (clone_binding_name name target)"
  by (auto simp: clone_binding_name_def Let_def)

text \<open>The calls of a clone: it reads, and it creates in the target namespace only.\<close>

definition clone_call :: "string \<Rightarrow> string \<Rightarrow> call \<Rightarrow> bool" where
  "clone_call source target c = (case c of
     GetNamespace n \<Rightarrow> n = target
   | ListResources _ _ _ ns \<Rightarrow> ns = source
   | MapOrder \<Rightarrow> True
   | RandString _ \<Rightarrow> True
   | ListClusterRoleBindings \<Rightarrow> True
   | CreateNamespace n \<Rightarrow> nsp_Name n = target \<and> map_of (nsp_Labels n) ''orakel.fhnw.ch/source-namespace'' = Some source
   | CreateClusterRoleBinding b \<Rightarrow> length (crb_Name b) \<le> 253 \<and> target_label b = target \<and>
       (source \<noteq> target \<longrightarrow> \<not> list_ex (binds source) (crb_Subjects b))
   | CreateResource u \<Rightarrow> fresh_in target u \<and> \<not> automatic u
   | _ \<Rightarrow> False)"

lemma clone_call_simps [simp]:
  "clone_call source target (GetNamespace n) \<longleftrightarrow> n = target"
  "clone_call source target (ListResources g v r ns) \<longleftrightarrow> ns = source"
  "clone_call source target MapOrder" "clone_call source target (RandString i)"
  "clone_call source target ListClusterRoleBindings"
  "clone_call source target (CreateNamespace n') \<longleftrightarrow>
     nsp_Name n' = target \<and> map_of (nsp_Labels n') ''orakel.fhnw.ch/source-namespace'' = Some source"
  "clone_call source target (CreateClusterRoleBinding b) \<longleftrightarrow> length (crb_Name b) \<le> 253 \<and> target_label b = target \<and>
       (source \<noteq> target \<longrightarrow> \<not> list_ex (binds source) (crb_Subjects b))"
  "clone_call source target (CreateResource u) \<longleftrightarrow> fresh_in target u \<and> \<not> automatic u"
  by (simp_all add: clone_call_def)

lemma GetTopLevelResources_calls: "calls_only (clone_call source target) (GetTopLevelResources L source)"
  unfolding GetTopLevelResources_def getAllResources_def list_type_def
  by (auto intro!: calls_intros split: prod.splits)

lemma clone_binding_name_calls: "calls_only (clone_call source target) (clone_binding_name name t)"
  unfolding clone_binding_name_def Let_def by (auto intro!: calls_intros)

lemma clone_bindings_calls: "calls_only (clone_call source target) (clone_bindings source target suffix bs n)"
proof (induction bs arbitrary: n)
  case (Cons b bs)
  then show ?case
    by (auto intro!: calls_only_after [OF clone_binding_name_calls clone_binding_name_le] calls_only_pbind
        simp: clone_binding_moves clone_binding_def [THEN arg_cong [where f = crb_Name]])
qed simp

lemma Clone_calls:
  assumes "service_conversion L"
  shows "calls_only (clone_call source target) (Clone L source target suffix)"
proof -
  have one: "calls_only (clone_call source target) (clone_one L source target r st)" for r st
  proof -
    have "fresh_in target c \<and> \<not> automatic c" if "clone_resource L source target r = Inr c" "\<not> automatic r" for c
      using clone_resource_fresh [OF assms that(1)] that(2) by (simp add: automatic_def)
    then show ?thesis
      unfolding clone_one_def
      by (cases "clone_resource L source target r") (auto intro!: calls_only_pbind split: prod.splits)
  qed
  show ?thesis
    unfolding Clone_def cloneClusterRoleBindings_def Let_def
    by (auto intro!: calls_intros GetTopLevelResources_calls clone_bindings_calls one simp: clone_labels_def)
qed

text \<open>An existing target is left alone.\<close>

lemma Clone_existing:
  "h (GetNamespace target) w = (RNamespace ns, w') \<Longrightarrow>
     run h (Clone L source target suffix) w = (Inr (Some (Errorf (''target namespace already exists '' @ target) None)), w')"
  by (simp add: Clone_def run_pbind run_ask)

text \<open>
  Deleting: the namespace itself, and the bindings whose label says they were made for it. The
  ghost state is the set of the names of those among the bindings that were listed last.
\<close>

definition delete_contract :: "string \<Rightarrow> (string set, call, resp) contract" where
  "delete_contract target = \<lparr>
     rg_may = (\<lambda>names c. case c of
        GetNamespace n \<Rightarrow> True
      | ListClusterRoleBindings \<Rightarrow> True
      | DeleteNamespace n \<Rightarrow> n = target
      | DeleteClusterRoleBinding n \<Rightarrow> n \<in> names
      | _ \<Rightarrow> False),
     rg_ans = (\<lambda>_ _ _. True),
     rg_next = (\<lambda>names c r. case c of
        ListClusterRoleBindings \<Rightarrow> (case r of RBindings bs \<Rightarrow> crb_Name ` {b \<in> set bs. target_label b = target} | _ \<Rightarrow> names)
      | _ \<Rightarrow> names),
     rg_crash = (\<lambda>e. e = IllTyped)\<rparr>"

lemma delete_contract_simps [simp]:
  "rg_may (delete_contract t) s (GetNamespace n)" "rg_may (delete_contract t) s ListClusterRoleBindings"
  "rg_may (delete_contract t) s (DeleteNamespace n) \<longleftrightarrow> n = t"
  "rg_may (delete_contract t) s (DeleteClusterRoleBinding n) \<longleftrightarrow> n \<in> s"
  "rg_ans (delete_contract t) s c r" "rg_crash (delete_contract t) e \<longleftrightarrow> e = IllTyped"
  "rg_next (delete_contract t) s (GetNamespace n) r = s" "rg_next (delete_contract t) s (DeleteNamespace n) r = s"
  "rg_next (delete_contract t) s (DeleteClusterRoleBinding n) r = s"
  "rg_next (delete_contract t) s ListClusterRoleBindings r =
     (case r of RBindings bs \<Rightarrow> crb_Name ` {b \<in> set bs. target_label b = t} | _ \<Rightarrow> s)"
  by (simp_all add: delete_contract_def)

lemma delete_bindings_meets:
  assumes "\<And>b. b \<in> set bs \<Longrightarrow> target_label b = target \<Longrightarrow> crb_Name b \<in> names" and "Q names ()"
  shows "meets (delete_contract target) (delete_bindings target bs) Q names"
  using assms(1)
proof (induction bs)
  case Nil
  then show ?case by (simp add: delete_bindings_def assms(2))
next
  case (Cons b bs)
  have "meets (delete_contract target) (delete_bindings target bs) Q names" by (rule Cons.IH) (use Cons.prems in auto)
  then show ?case
    using Cons.prems by (auto simp: delete_bindings_def meets_ask split: option.splits)
qed

lemma Delete_meets: "meets (delete_contract target) (Delete target) (\<lambda>_ _. True) names"
  unfolding Delete_def
  by (auto simp: meets_ask items_of_def or_err_def as_bindings_def
      intro!: delete_bindings_meets split: option.splits sum.splits resp.splits)

section \<open>Properties\<close>


text \<open>A library with one namespaced type; the Service conversion keeps the object.\<close>

definition configmap_lib :: "lib \<Rightarrow> lib" where
  "configmap_lib L = L\<lparr>
     lib_namespacedResources := [\<lparr>al_GroupVersion = ''v1'', al_APIResources =
        [\<lparr>ar_Name = ''configmaps'', ar_Kind = ''ConfigMap'', ar_Group = '''', ar_Namespaced = True\<rparr>]\<rparr>],
     lib_ParseGroupVersion := (\<lambda>gv. Inr ('''', gv)),
     lib_FromUnstructured := (\<lambda>u. Some \<lparr>svc_ClusterIP = '''', svc_ClusterIPs = [], svc_ExternalIPs = [],
        svc_LoadBalancerIP = '''', svc_others = u\<rparr>),
     lib_ToUnstructured := svc_others\<rparr>"

lemma configmap_lib_conversion: "service_conversion (configmap_lib list_lib)"
  by (simp add: service_conversion_def configmap_lib_def clear_service_def Let_def)

definition sample_object :: Unstructured where
  "sample_object = \<lparr>u_Kind = ''ConfigMap'', u_APIVersion = ''v1'', u_Name = ''settings'', u_Namespace = ''shop'',
     u_ResourceVersion = ''7'', u_SelfLink = '''', u_UID = ''1'', u_Generation = 1, u_Annotations = [],
     u_OwnerReferences = [], u_fields = []\<rparr>"


text \<open>An existing target namespace is never cloned into: the clone reports an error and has issued no call but the
  one that fetched it. The error is not one \<open>IsAlreadyExists\<close> recognizes.\<close>

theorem Clone_refuses_existing:
  "\<exists>e. drive (Clone L source target suffix) (RNamespace ns # rs) = ([(GetNamespace target, RNamespace ns)], Returned (Some e)) \<and>
     \<not> IsAlreadyExists e"
  by (simp add: Clone_def ask_def)

text \<open>A cloned role binding gives the source's service accounts no access. Cloning a \<open>RoleBinding\<close> from one namespace
  into another either panics, for subjects of an unexpected shape, or gives an object of the target namespace with
  the same name and no identity, none of whose subjects is a service account of the source.\<close>

theorem clone_rolebinding_redirects:
  assumes "service_conversion L" and "u_Kind r = ''RoleBinding''" and "source \<noteq> target"
    and "clone_resource L source target r = Inr c"
  shows "fresh_in target c \<and> u_Name c = u_Name r \<and>
    (\<exists>ss. map_of (u_fields c) ''subjects'' = Some (JArr ss) \<and> (\<forall>s \<in> set ss. \<not> json_binds source s))"
proof -
  from assms(4) obtain c1 c2 where
    1: "clone_pvc (r\<lparr>u_ResourceVersion := '''', u_SelfLink := '''', u_Generation := 0, u_UID := '''', u_Namespace := target\<rparr>) = Inr c1"
    and 2: "clone_service L c1 = Inr c2" and 3: "clone_rolebinding source target c2 = Inr c"
    by (auto simp: clone_resource_def Let_def go_bind_Inr)
  from 1 2 assms(2) have "u_Kind c2 = ''RoleBinding''" by (auto simp: clone_pvc_def clone_service_def)
  from clone_rolebinding_moves [OF 3 this assms(3)] clone_resource_fresh [OF assms(1,4)] show ?thesis by blast
qed

definition admin_binding :: Unstructured where
  "admin_binding = sample_object\<lparr>u_Kind := ''RoleBinding'', u_fields := [(''subjects'', JArr [JObj
     [(''kind'', JStr ''ServiceAccount''), (''name'', JStr ''web''), (''namespace'', JStr ''shop'')]])]\<rparr>"

lemma clone_rolebinding_redirects_witness:
  "\<exists>c ss. clone_resource (configmap_lib list_lib) ''shop'' ''shop-copy'' admin_binding = Inr c \<and>
     map_of (u_fields c) ''subjects'' = Some (JArr ss) \<and> (\<forall>s \<in> set ss. \<not> json_binds ''shop'' s)"
proof -
  have "\<exists>c. clone_resource (configmap_lib list_lib) ''shop'' ''shop-copy'' admin_binding = Inr c"
    by (simp add: clone_resource_def admin_binding_def sample_object_def clone_pvc_def clone_service_def clone_rolebinding_def
        rebind_subject_def Let_def)
  then obtain c where c: "clone_resource (configmap_lib list_lib) ''shop'' ''shop-copy'' admin_binding = Inr c" by blast
  have k: "u_Kind admin_binding = ''RoleBinding''" by (simp add: admin_binding_def)
  have n: "''shop'' \<noteq> ''shop-copy''" by simp
  from clone_rolebinding_redirects [OF configmap_lib_conversion k n c] c show ?thesis by blast
qed

text \<open>An object a log shows to be in the namespace.\<close>

definition was_listed :: "string \<Rightarrow> (call \<times> resp) list \<Rightarrow> Unstructured \<Rightarrow> bool" where
  "was_listed namespace l u \<longleftrightarrow> (\<exists>g v t items. (ListResources g v t namespace, RResources items) \<in> set l \<and> u \<in> set items)"

lemma was_listed_append: "was_listed ns l u \<Longrightarrow> was_listed ns (l @ l') u"
  by (auto simp: was_listed_def)

definition all_listed :: "string \<Rightarrow> (call \<times> resp) list \<Rightarrow> (string \<times> Unstructured list) list \<Rightarrow> bool" where
  "all_listed namespace l resources \<longleftrightarrow> (\<forall>k us. (k, us) \<in> set resources \<longrightarrow> (\<forall>u \<in> set us. was_listed namespace l u))"

lemma all_listed_put:
  "all_listed ns l m \<Longrightarrow> (\<And>u. u \<in> set us \<Longrightarrow> was_listed ns l u) \<Longrightarrow> all_listed ns l (map_put k us m)"
  unfolding all_listed_def
proof (induction m)
  case (Cons p m)
  then show ?case by (cases p) auto
qed auto

lemma list_type_listed: "all_listed ns l m \<Longrightarrow> meets logged (list_type L ns gv t m) (all_listed ns) l"
proof -
  assume m: "all_listed ns l m"
  have app: "all_listed ns (l @ l') m" for l' using m by (auto simp: all_listed_def intro: was_listed_append)
  have old: "was_listed ns (l @ l') u" if "map_of m k = Some xs" "u \<in> set xs" for l' u k xs
    using that m by (auto dest!: map_of_SomeD simp: all_listed_def intro: was_listed_append)
  have new: "was_listed ns (l @ [(ListResources g v (ar_Name t) ns, r)]) u"
    if "or_err as_resources r = Some (Inr items)" "u \<in> set items" for g v r items u
    using that by (cases r) (auto simp: was_listed_def or_err_def as_resources_def)
  from m app show ?thesis
    by (auto simp: list_type_def meets_ask split: sum.splits option.splits intro!: all_listed_put intro: old new)
qed

lemma GetTopLevelResources_listed:
  "meets logged (GetTopLevelResources L ns) (\<lambda>l us. \<forall>u \<in> set us. u_OwnerReferences u = [] \<and> was_listed ns l u) []"
proof -
  have types: "meets logged (pfold (list_type L ns gv) ts m) (all_listed ns) l" if "all_listed ns l m" for gv ts m l
    by (rule meets_pfold [where I = "all_listed ns"]) (use that list_type_listed in auto)
  have "meets logged (getAllResources L ns) (all_listed ns) []"
    unfolding getAllResources_def
    by (rule meets_pfold [where I = "all_listed ns"]) (auto intro: types simp: all_listed_def)
  then show ?thesis
    unfolding GetTopLevelResources_def
    by (auto simp: meets_ask all_listed_def split: option.splits elim!: meets_mono intro!: was_listed_append)
qed

text \<open>Only resources that nothing owns are cloned: whatever is listed, \<open>GetTopLevelResources\<close> returns objects without
  owner references, each of them listed in this namespace.\<close>

theorem GetTopLevelResources_unowned:
  assumes "drive (GetTopLevelResources L namespace) rs = (l, Returned us)" and "u \<in> set us"
  shows "u_OwnerReferences u = [] \<and>
    (\<exists>g v t items. (ListResources g v t namespace, RResources items) \<in> set l \<and> u \<in> set items)"
  using logged_drive [OF GetTopLevelResources_listed assms(1)] assms(2) by (auto simp: was_listed_def)

lemma GetTopLevelResources_unowned_witness:
  "u_OwnerReferences sample_object = [] \<and> (\<exists>g v t items. (ListResources g v t ''shop'', RResources items) \<in>
     set [(ListResources '''' ''v1'' ''configmaps'' ''shop'', RResources [sample_object]), (MapOrder, RPicks [])] \<and> sample_object \<in> set items)"
proof (rule GetTopLevelResources_unowned)
  have "\<not> skipped_type \<lparr>ar_Name = ''configmaps'', ar_Kind = ''ConfigMap'', ar_Group = '''', ar_Namespaced = True\<rparr>"
    by code_simp
  then show "drive (GetTopLevelResources (configmap_lib list_lib) ''shop'') [RResources [sample_object], RPicks []] =
      ([(ListResources '''' ''v1'' ''configmaps'' ''shop'', RResources [sample_object]), (MapOrder, RPicks [])], Returned [sample_object])"
    by (simp add: GetTopLevelResources_def getAllResources_def list_type_def configmap_lib_def ask_def
        sample_object_def arrange_no_picks)
qed simp

text \<open>What a deletion may know of the bindings after a log.\<close>

lemma delete_follow:
  "follow (delete_contract target) names l = Some t \<Longrightarrow> n \<in> t \<Longrightarrow> n \<in> names \<or>
     (\<exists>bs b. (ListClusterRoleBindings, RBindings bs) \<in> set l \<and> b \<in> set bs \<and> crb_Name b = n \<and> target_label b = target)"
proof (induction l arbitrary: names)
  case (Cons p l)
  obtain c r where p: "p = (c, r)" by (cases p)
  from Cons have "n \<in> rg_next (delete_contract target) names c r \<or>
     (\<exists>bs b. (ListClusterRoleBindings, RBindings bs) \<in> set l \<and> b \<in> set bs \<and> crb_Name b = n \<and> target_label b = target)"
    by (auto simp: p)
  then show ?case
    by (cases c; cases r) (auto simp: p delete_contract_def)
qed simp

lemma delete_follow_total: "\<exists>t. follow (delete_contract target) names l = Some t"
  by (induction l arbitrary: names) auto

text \<open>C17: deleting a clone removes nothing else. In every log of \<open>Delete target\<close> the only namespace deleted is the target, and
  a cluster role binding is deleted only after it was listed with a label that says it was made for this
  target; no other object is written.\<close>

theorem Delete_removes_target_only:
  assumes "drive (Delete target) rs = (l, out)" and "(c, r) \<in> set l"
  shows "case c of GetNamespace n \<Rightarrow> True | ListClusterRoleBindings \<Rightarrow> True | DeleteNamespace n \<Rightarrow> n = target
    | DeleteClusterRoleBinding n \<Rightarrow> (\<exists>bs b. (ListClusterRoleBindings, RBindings bs) \<in> set l \<and> b \<in> set bs \<and>
        crb_Name b = n \<and> target_label b = target)
    | _ \<Rightarrow> False"
proof -
  from assms(2) obtain pre post where l: "l = pre @ (c, r) # post" by (auto simp: in_set_conv_decomp)
  obtain t where t: "follow (delete_contract target) {} pre = Some t" using delete_follow_total by blast
  have "rg_may (delete_contract target) t c"
    by (rule meets_at [OF Delete_meets assms(1) [unfolded l] t])
  moreover have "\<exists>bs b. (ListClusterRoleBindings, RBindings bs) \<in> set l \<and> b \<in> set bs \<and> crb_Name b = n \<and> target_label b = target"
    if "n \<in> t" for n
    using delete_follow [OF t that] by (auto simp: l)
  ultimately show ?thesis
    by (cases c) (auto simp: delete_contract_def)
qed

definition binding_for :: "string \<Rightarrow> ClusterRoleBinding" where
  "binding_for t = \<lparr>crb_Name = t @ ''-admin'', crb_ResourceVersion = '''', crb_SelfLink = '''', crb_UID = '''', crb_Generation = 0,
     crb_Labels = [(''orakel.fhnw.ch/target-namespace'', t)], crb_Subjects = [], crb_RoleRef = ''admin''\<rparr>"

lemma Delete_removes_target_only_witness:
  "\<exists>bs b. (ListClusterRoleBindings, RBindings bs) \<in>
      set (fst (drive (Delete ''shop-x'') [RNamespace \<lparr>nsp_Name = ''shop-x'', nsp_Labels = []\<rparr>, ROk,
        RBindings [binding_for ''shop-x'', binding_for ''other''], ROk])) \<and>
     b \<in> set bs \<and> crb_Name b = ''shop-x-admin'' \<and> target_label b = ''shop-x''"
proof -
  let ?rs = "[RNamespace \<lparr>nsp_Name = ''shop-x'', nsp_Labels = []\<rparr>, ROk, RBindings [binding_for ''shop-x'', binding_for ''other''], ROk]"
  obtain l out where d: "drive (Delete ''shop-x'') ?rs = (l, out)" by (cases "drive (Delete ''shop-x'') ?rs")
  then have "(DeleteClusterRoleBinding ''shop-x-admin'', ROk) \<in> set l"
    by (simp add: Delete_def ask_def delete_bindings_def items_of_def target_label_def binding_for_def or_err_def as_bindings_def
        as_namespace_def as_done_def split: prod.splits) auto
  from Delete_removes_target_only [OF d this] d show ?thesis by simp
qed

end
