(* ===== verification/Runner.thy ===== *)
theory Runner
  imports Manager Valkey LogOracle NamespaceOps Recording
begin

text \<open>
  \<^verbatim>\<open>internal/runner/runner.go\<close>: one run of one check in a clone of the namespace. The runner and
  its manager each hold a copy of the check object. Runs are goroutines: a tree is one run.
\<close>

section \<open>State\<close>

record runner =
  rn_whc :: Whc
  rn_manager :: Whc
  rn_checkType :: string
  rn_conditionType :: string
  rn_checkSuccessful :: bool

definition NewWorkloadCheckRunner :: "lib \<Rightarrow> Whc \<Rightarrow> string \<Rightarrow> runner" where
  "NewWorkloadCheckRunner L whc checkType =
     (let ct0 = lib_title L checkType @ ConditionTypeCheck;
          ct1 = (if Contains (ToLower checkType) ''baseline'' then ConditionTypeBaseline else ct0);
          ct2 = (if Contains (ToLower checkType) ''final'' then ConditionTypeFinalCheck else ct1)
      in \<lparr>rn_whc = whc, rn_manager = whc, rn_checkType = checkType, rn_conditionType = ct2, rn_checkSuccessful = False\<rparr>)"

definition target_namespace_name :: "string \<Rightarrow> string \<Rightarrow> string \<Rightarrow> string" where
  "target_namespace_name namespace suffix checkType =
     (let base = (if length namespace > 45 then take 45 namespace else namespace);
          namespaceName = ToLower (base @ ''-'' @ suffix @ ''-'' @ checkType)
      in if length namespaceName > 63 then take 63 namespaceName else namespaceName)"

definition generateTargetNamespaceName :: "runner \<Rightarrow> string" where
  "generateTargetNamespaceName r =
     target_namespace_name (whc_Namespace (rn_whc r)) (ws_Suffix (whc_Spec (rn_whc r))) (rn_checkType r)"

definition namespaceExists :: "string \<Rightarrow> bool io" where
  "namespaceExists namespaceName =
     pbind (get_namespace namespaceName) (\<lambda>r. Ret (case r of Inl e \<Rightarrow> \<not> IsNotFound e | Inr ns \<Rightarrow> True))"

definition createCheckNamespace :: "lib \<Rightarrow> runner \<Rightarrow> error option io" where
  "createCheckNamespace L r =
     (let targetNamespace = generateTargetNamespaceName r
      in pbind (Clone L (whc_Namespace (rn_whc r)) targetNamespace (ws_Suffix (whc_Spec (rn_whc r)))) (\<lambda>e. case e of
           Some err \<Rightarrow> Ret (Some err)
         | None \<Rightarrow> pbind (get_namespace targetNamespace) (\<lambda>g. case g of
             Inl err \<Rightarrow> if IsNotFound err
               then Ret (Some (Errorf (''target namespace '' @ targetNamespace @ '' not found after cloning'') None))
               else Ret (Some (Errorf (''failed to get target namespace '' @ targetNamespace @ '' after cloning'') (Some err)))
           | Inr _ \<Rightarrow> Ret None)))"

section \<open>Status\<close>

text \<open>\<open>r.checkManager.SetCondition\<close>, which updates the manager's copy.\<close>

definition set_condition :: "lib \<Rightarrow> Condition \<Rightarrow> runner \<Rightarrow> runner io" where
  "set_condition L c r = pbind (SetCondition L c (rn_manager r)) (\<lambda>(_, m). Ret (r\<lparr>rn_manager := m\<rparr>))"

definition running_reason :: "runner \<Rightarrow> string" where
  "running_reason r = (if rn_conditionType r = ConditionTypeBaseline then ReasonBaselineRecording else ReasonCheckRecording)"

definition failed_reason :: "runner \<Rightarrow> string" where
  "failed_reason r = (if rn_conditionType r = ConditionTypeBaseline then ReasonBaselineRecordingFailed else ReasonCheckRecordingFailed)"

definition finished_reason :: "runner \<Rightarrow> string" where
  "finished_reason r = (if rn_conditionType r = ConditionTypeBaseline then ReasonBaselineRecordingFinished else ReasonCheckRecordingFinished)"

definition setStatusRunning :: "lib \<Rightarrow> string \<Rightarrow> runner \<Rightarrow> runner io" where
  "setStatusRunning L message r = set_condition L (mk_condition (rn_conditionType r) ConditionFalse (running_reason r) message) r"

definition setStatusFailed :: "lib \<Rightarrow> string \<Rightarrow> runner \<Rightarrow> runner io" where
  "setStatusFailed L message r =
     (let conditionReason = (if Contains (rn_checkType r) ''baseline'' then ReasonBaselineRecordingFailed else ReasonCheckRecordingFailed)
      in set_condition L (mk_condition (rn_conditionType r) ConditionUnknown conditionReason message) r)"

text \<open>The switch that files a finished run.\<close>

definition file_run :: "string \<Rightarrow> CheckRun \<Rightarrow> Whc \<Rightarrow> Whc" where
  "file_run conditionType checkRun x = (let st = whc_Status x in x\<lparr>whc_Status :=
     (if conditionType = ConditionTypeBaseline then st\<lparr>wst_BaselineRuns := wst_BaselineRuns st @ [checkRun]\<rparr>
      else if conditionType = ConditionTypeFinalCheck then st\<lparr>wst_FinalRun := Some checkRun\<rparr>
      else st\<lparr>wst_CheckRuns := map_put (cr_Name checkRun) checkRun (wst_CheckRuns st)\<rparr>)\<rparr>)"

text \<open>One round of the loop that mines the logs of a failed run.\<close>

definition mine_container ::
  "'d drain \<Rightarrow> string \<times> string list \<Rightarrow> (string \<times> string list) list \<Rightarrow> (string \<times> string list) list io" where
  "mine_container D = (\<lambda>(container, logs) anomalies.
     pbind map_order (\<lambda>\<sigma>.
     pbind (lift_go (GetTemplates D \<sigma> (snd (LoadBaseline D logs (NewLogOrakel D))))) (\<lambda>templates.
       Ret (map_put container templates anomalies))))"

definition empty_run :: "string \<Rightarrow> CheckRun" where
  "empty_run name = \<lparr>cr_Name = name, cr_RecordingSuccessfull = None, cr_CheckSuccessfull = None, cr_SecurityContext = None,
     cr_FailureReason = '''', cr_LogAnomalies = None, cr_CpuDeviation = None, cr_MemoryDeviation = None\<rparr>"

definition FileFailure_attempt :: "string \<Rightarrow> CheckRun \<Rightarrow> Whc \<Rightarrow> (error option \<times> Whc) io" where
  "FileFailure_attempt conditionType checkRun x =
     pbind (get_whc (whc_Name x) (whc_Namespace x)) (\<lambda>g. case g of
       Inl e \<Rightarrow> if IsNotFound e then Ret (None, x) else Ret (Some e, x)
     | Inr y \<Rightarrow> let y' = file_run conditionType checkRun y in pbind (update_whc_status y') (\<lambda>e. Ret (e, y')))"

definition setStatusFinishedFailure ::
  "'d drain \<Rightarrow> lib \<Rightarrow> string \<Rightarrow> string \<Rightarrow> WorkloadRecording \<Rightarrow> runner \<Rightarrow> runner io" where
  "setStatusFinishedFailure D L message failureReason rec r =
     pbind (set_condition L (mk_condition (rn_conditionType r) ConditionTrue (failed_reason r) message) r) (\<lambda>r.
     pbind map_order (\<lambda>\<sigma>.
     pbind (pfold (mine_container D) (arrange \<sigma> (rc_Logs rec)) []) (\<lambda>anomalies.
       let checkRun = (empty_run (rn_checkType r))\<lparr>cr_RecordingSuccessfull := Some False, cr_CheckSuccessfull := Some False,
             cr_SecurityContext := rc_SecurityContextConfigurations rec, cr_FailureReason := failureReason,
             cr_LogAnomalies := Some anomalies\<rparr>
       in pbind (RetryOnConflict retry_again (lib_retries L) (FileFailure_attempt (rn_conditionType r) checkRun) (rn_whc r))
            (\<lambda>(_, x). Ret (r\<lparr>rn_whc := x\<rparr>)))))"

text \<open>Here a failed fetch that is not NotFound is only logged: the stale copy is updated and sent.\<close>

definition FileSuccess_attempt :: "string \<Rightarrow> CheckRun \<Rightarrow> Whc \<Rightarrow> (error option \<times> Whc) io" where
  "FileSuccess_attempt conditionType checkRun x =
     pbind (get_whc (whc_Name x) (whc_Namespace x)) (\<lambda>g.
       let go_on = (\<lambda>y. let y' = file_run conditionType checkRun y in pbind (update_whc_status y') (\<lambda>e. Ret (e, y')))
       in case g of
            Inl e \<Rightarrow> if IsNotFound e then Ret (None, x) else go_on x
          | Inr y \<Rightarrow> go_on y)"

definition setStatusFinishedSuccessfully :: "lib \<Rightarrow> string \<Rightarrow> SecurityContextDefaults option \<Rightarrow> runner \<Rightarrow> runner io" where
  "setStatusFinishedSuccessfully L message securityContext r =
     pbind (set_condition L (mk_condition (rn_conditionType r) ConditionTrue (finished_reason r) message) r) (\<lambda>r.
       let checkRun = (empty_run (rn_checkType r))\<lparr>cr_RecordingSuccessfull := Some True,
             cr_CheckSuccessfull := Some (rn_checkSuccessful r), cr_SecurityContext := securityContext\<rparr>
       in pbind (RetryOnConflict retry_again (lib_retries L) (FileSuccess_attempt (rn_conditionType r) checkRun) (rn_whc r))
            (\<lambda>(e, x). let r = r\<lparr>rn_whc := x\<rparr> in case e of
               Some err \<Rightarrow> pbind (event ''Warning'' (finished_reason r)
                    (''Failed to update WorkloadHardeningCheck status after recording finished: '' @ lib_Error L err)) (\<lambda>_. Ret r)
             | None \<Rightarrow> pbind (event ''Normal'' (finished_reason r)
                    (''Recorded '' @ rn_checkType r @ ''Check in namespace '' @ generateTargetNamespaceName r)) (\<lambda>_. Ret r)))"

section \<open>Recording\<close>

definition recordMetrics :: "string \<Rightarrow> string option \<Rightarrow> runner \<Rightarrow> (error + ResourceUsageRecord list) io" where
  "recordMetrics targetNamespace labelSelector r =
     pbind (sleep (2 * second)) (\<lambda>_.
       ask (RecordMetrics targetNamespace labelSelector (GetCheckDuration (rn_manager r))) (or_err as_metrics))"

definition recordLogs :: "nat \<Rightarrow> string \<Rightarrow> bool \<Rightarrow> string option \<Rightarrow> (error + (string \<times> string list) list) io" where
  "recordLogs fuel targetNamespace previous labelSelector = RecordLogs fuel targetNamespace labelSelector previous"

text \<open>\<open>labelSelector, _ := GetLabelSelector(ctx)\<close>: nil beside an error.\<close>

definition selector_of :: "error + string \<Rightarrow> string option" where
  "selector_of r = (case r of Inl e \<Rightarrow> None | Inr s \<Rightarrow> Some s)"

definition store_key :: "runner \<Rightarrow> string" where
  "store_key r = whc_Namespace (rn_whc r) @ '':'' @ ws_Suffix (whc_Spec (rn_whc r))"

section \<open>Waiting for the rollout\<close>

text \<open>What the loop does once it has waited too long.\<close>

definition rollout_timeout ::
  "lib \<Rightarrow> nat \<Rightarrow> string \<Rightarrow> int \<Rightarrow> workload \<Rightarrow> runner \<Rightarrow> ((bool \<times> error option) \<times> workload \<times> runner) io" where
  "rollout_timeout L fuel targetNamespace startTime w r =
     pbind (setStatusFailed L ''Timeout while waiting for workload to be updated'' r) (\<lambda>r.
     pbind (event ''Warning'' (failed_reason r) (rn_checkType r @
         ''Check: Timeout while waiting for workloads to be updated in namespace '' @ targetNamespace)) (\<lambda>_.
     pbind (GetLabelSelector (rn_manager r)) (\<lambda>sel.
     pbind (recordLogs fuel targetNamespace True (selector_of sel)) (\<lambda>logs. case logs of
       Inl err \<Rightarrow> Ret ((False, Some err), w, r)
     | Inr logs \<Rightarrow> pbind now (\<lambda>endTime.
         pbind (StoreRecording L (store_key r) \<lparr>rc_Type = rn_checkType r, rc_Success = False, rc_StartTime = startTime,
             rc_EndTime = endTime, rc_SecurityContextConfigurations = None, rc_RecordedMetrics = [], rc_Logs = logs\<rparr>) (\<lambda>_.
         pbind (Delete targetNamespace) (\<lambda>err. Ret ((False, err), w, r))))))))"

text \<open>
  The loop. A failed fetch leaves the workload as it was; the error of \<open>VerifyUpdated\<close> is dropped.
\<close>

definition refresh_workload :: "string \<Rightarrow> workload \<Rightarrow> workload io" where
  "refresh_workload ns w = pbind (get_workload (wl_kind w) ns (wl_Name w)) (\<lambda>g. Ret (case g of Inl e \<Rightarrow> w | Inr w' \<Rightarrow> w'))"

primrec wait_loop ::
  "lib \<Rightarrow> nat \<Rightarrow> string \<Rightarrow> int \<Rightarrow> nat \<Rightarrow> workload \<Rightarrow> runner \<Rightarrow> ((bool \<times> error option) \<times> workload \<times> runner) io" where
  "wait_loop L lfuel targetNamespace startTime 0 w r = Crash OutOfFuel"
| "wait_loop L lfuel targetNamespace startTime (Suc fuel) w r =
     pbind (refresh_workload targetNamespace w) (\<lambda>w.
     pbind (lift_go (VerifyUpdated w)) (\<lambda>u.
     pbind now (\<lambda>t.
       if t - startTime > 2 * minute then rollout_timeout L lfuel targetNamespace startTime w r
       else if \<not> bool_of u then pbind (sleep (5 * second)) (\<lambda>_. wait_loop L lfuel targetNamespace startTime fuel w r)
       else Ret ((True, None), w, r))))"

definition waitForUpdatedPods ::
  "lib \<Rightarrow> nat \<Rightarrow> nat \<Rightarrow> workload \<Rightarrow> runner \<Rightarrow> ((bool \<times> error option) \<times> workload \<times> runner) io" where
  "waitForUpdatedPods L lfuel fuel w r = pbind now (\<lambda>startTime. wait_loop L lfuel (wl_Namespace w) startTime fuel w r)"

section \<open>Applying the context\<close>

text \<open>One order for each map range the merge of a pod template can run into.\<close>

primrec map_orders :: "nat \<Rightarrow> nat list list io" where
  "map_orders 0 = Ret []"
| "map_orders (Suc n) = pbind map_order (\<lambda>\<sigma>. pbind (map_orders n) (\<lambda>\<sigma>s. Ret (\<sigma> # \<sigma>s)))"

definition orders_fun :: "nat list list \<Rightarrow> nat \<Rightarrow> nat list" where
  "orders_fun \<sigma>s i = (if i < length \<sigma>s then \<sigma>s ! i else [])"

definition containers_of :: "workload \<Rightarrow> nat" where
  "containers_of w = (case podSpecTemplate w of None \<Rightarrow> 0 | Some p \<Rightarrow> length (ps_Containers p) + length (ps_InitContainers p))"

definition Apply_attempt :: "SecurityContextDefaults \<Rightarrow> workload \<Rightarrow> (error option \<times> workload) io" where
  "Apply_attempt sc w =
     pbind (get_workload (wl_kind w) (wl_Namespace w) (wl_Name w)) (\<lambda>g. case g of
       Inl e \<Rightarrow> if IsNotFound e then Ret (Some e, w)
         else Ret (Some (Errorf ''failed to re-fetch WorkloadHardeningCheck'' (Some e)), w)
     | Inr w1 \<Rightarrow> pbind (map_orders (containers_of w1)) (\<lambda>\<sigma>s.
         case ApplyCheckSecurityContext (orders_fun \<sigma>s) w1 (sd_Container sc) (sd_Pod sc) of
           Inl e \<Rightarrow> Ret (Some (Errorf ''failed to apply security context to workload under test'' (Some e)), w1)
         | Inr w2 \<Rightarrow> pbind (update_workload w2) (\<lambda>e. Ret (e, w2))))"

definition applySecurityContext_runner ::
  "lib \<Rightarrow> workload \<Rightarrow> SecurityContextDefaults option \<Rightarrow> runner \<Rightarrow> (error option \<times> workload) io" where
  "applySecurityContext_runner L w securityContext r =
     (let scalable = (ToLower (tr_Kind (ws_TargetRef (whc_Spec (rn_whc r)))) \<noteq> ''daemonset'');
          m = rn_manager r
      in pbind (if scalable
                then pbind (GetReplicaCount m (wl_Namespace w)) (\<lambda>n. case n of
                    Inl e \<Rightarrow> Ret 0
                  | Inr n \<Rightarrow> if 0 <s n then pbind (ScaleWorkloadUnderTest L m (wl_Namespace w) 0) (\<lambda>_. Ret n) else Ret n)
                else Ret (0 :: int32)) (\<lambda>originalReplicaCount.
         pbind (case securityContext of
                  None \<Rightarrow> Ret (None, w)
                | Some sc \<Rightarrow> RetryOnConflict retry_again (lib_retries L) (Apply_attempt sc) w) (\<lambda>(e, w). case e of
           Some err \<Rightarrow> Ret (Some err, w)
         | None \<Rightarrow>
             if scalable \<and> 0 <s originalReplicaCount
             then pbind (ScaleWorkloadUnderTest L m (wl_Namespace w) originalReplicaCount) (\<lambda>e. Ret (e, w))
             else Ret (None, w))))"

section \<open>RunCheck\<close>

text \<open>The target namespace: removed if a run was left unfinished, cloned if it is not there.\<close>

definition prepare_namespace :: "lib \<Rightarrow> runner \<Rightarrow> bool io" where
  "prepare_namespace L r =
     (let targetNamespaceName = generateTargetNamespaceName r
      in pbind (namespaceExists targetNamespaceName) (\<lambda>there.
         pbind (if there \<and> lib_IsStatusConditionPresentAndEqual L (conds (rn_whc r)) (rn_conditionType r) ConditionUnknown
                then pbind (Delete targetNamespaceName) (\<lambda>_. Ret ()) else Ret ()) (\<lambda>_.
         pbind (namespaceExists targetNamespaceName) (\<lambda>there.
           if there then Ret True
           else pbind (createCheckNamespace L r) (\<lambda>e. case e of
               Some err \<Rightarrow> Ret False
             | None \<Rightarrow> pbind (sleep (1 * second)) (\<lambda>_. Ret True))))))"

text \<open>From the stored recording to the end: the verdict, then the clean-up.\<close>

definition finish_run ::
  "'d drain \<Rightarrow> lib \<Rightarrow> string \<Rightarrow> SecurityContextDefaults option \<Rightarrow> WorkloadRecording \<Rightarrow> runner \<Rightarrow> unit io" where
  "finish_run D L targetNamespaceName securityContext rec r =
     pbind (StoreRecording L (store_key r) rec) (\<lambda>e. case e of
       Some err \<Rightarrow> pbind (setStatusFailed L ''Failed to store workload recording in Valkey'' r) (\<lambda>r.
         pbind (event ''Warning'' (failed_reason r) (''Failed to store '' @ rn_checkType r @ ''Check recording in Valkey'')) (\<lambda>_. Ret ()))
     | None \<Rightarrow>
         pbind (if rn_checkSuccessful r then setStatusFinishedSuccessfully L ''Check finished successfully'' securityContext r
                else setStatusFinishedFailure D L ''Signal recording failed'' ''Workload never became ready'' rec r) (\<lambda>r.
         pbind (Delete targetNamespaceName) (\<lambda>_. Ret ())))"

definition record_run ::
  "'d drain \<Rightarrow> lib \<Rightarrow> nat \<Rightarrow> string \<Rightarrow> SecurityContextDefaults option \<Rightarrow> workload \<Rightarrow> runner \<Rightarrow> unit io" where
  "record_run D L lfuel targetNamespaceName securityContext w r =
     pbind (setStatusRunning L ''Recording metrics'' r) (\<lambda>r.
     pbind now (\<lambda>startTime.
     pbind (GetLabelSelector (rn_manager r)) (\<lambda>sel.
     pbind (recordMetrics targetNamespaceName (selector_of sel) r) (\<lambda>metrics. case metrics of
       Inl err \<Rightarrow> pbind (setStatusFailed L ''Failed to record metrics'' r) (\<lambda>_. Ret ())
     | Inr metrics \<Rightarrow>
         pbind (recordLogs lfuel targetNamespaceName False (selector_of sel)) (\<lambda>logs. case logs of
           Inl err \<Rightarrow> pbind (setStatusFailed L ''Failed to record logs'' r) (\<lambda>_. Ret ())
         | Inr logs \<Rightarrow>
             pbind (VerifyReadiness w) (\<lambda>ready.
             let r = r\<lparr>rn_checkSuccessful := bool_of ready\<rparr>
             in pbind now (\<lambda>endTime.
                finish_run D L targetNamespaceName securityContext
                  \<lparr>rc_Type = rn_checkType r, rc_Success = rn_checkSuccessful r, rc_StartTime = startTime, rc_EndTime = endTime,
                   rc_SecurityContextConfigurations = securityContext, rc_RecordedMetrics = metrics, rc_Logs = logs\<rparr> r)))))))"

definition RunCheck ::
  "'d drain \<Rightarrow> lib \<Rightarrow> nat \<Rightarrow> nat \<Rightarrow> SecurityContextDefaults option \<Rightarrow> runner \<Rightarrow> unit io" where
  "RunCheck D L lfuel wfuel securityContext r =
     (let targetNamespaceName = generateTargetNamespaceName r
      in pbind (prepare_namespace L r) (\<lambda>go. if \<not> go then Ret () else
         pbind (setStatusRunning L ''Start target workload with updated security context'' r) (\<lambda>r.
         pbind (GetWorkloadUnderTest (rn_manager r) targetNamespaceName) (\<lambda>g. case g of
           Inl err \<Rightarrow> pbind (setStatusFailed L ''Failed to get workload under test'' r) (\<lambda>_. Ret ())
         | Inr w \<Rightarrow>
             pbind (if Defaults_IsEmpty securityContext then Ret (None, w)
                    else applySecurityContext_runner L w securityContext r) (\<lambda>(e, w). case e of
               Some err \<Rightarrow> pbind (setStatusFailed L ''Failed to apply security context to workload under test'' r) (\<lambda>_. Ret ())
             | None \<Rightarrow>
                 pbind (waitForUpdatedPods L lfuel wfuel w r) (\<lambda>((updated, err), w, r).
                 pbind (if err \<noteq> None \<or> \<not> updated
                        then pbind (setStatusFailed L ''Failed to wait for updated pods'' r) (\<lambda>r.
                             pbind (event ''Warning'' (failed_reason r) (rn_checkType r @
                               ''Check: Failed to wait for updated pods in namespace '' @ targetNamespaceName)) (\<lambda>_. Ret r))
                        else Ret r) (\<lambda>r.
                 record_run D L lfuel targetNamespaceName securityContext w r)))))))"

section \<open>The name of the clone\<close>

lemma length_target_namespace_name: "length (target_namespace_name ns suffix ct) \<le> 63"
  by (simp add: target_namespace_name_def Let_def)

lemma target_namespace_name_eq:
  "target_namespace_name ns suffix ct = take 63 (ToLower (take 45 ns @ ''-'' @ suffix @ ''-'' @ ct))"
  by (simp add: target_namespace_name_def Let_def)

lemma ToLower_target_namespace_name [simp]: "ToLower (target_namespace_name ns suffix ct) = target_namespace_name ns suffix ct"
  by (simp add: target_namespace_name_eq ToLower_take)

lemma target_namespace_name_short:
  assumes "length ns + length suffix + length ct \<le> 61" and "length ns \<le> 45"
  shows "target_namespace_name ns suffix ct = ToLower (ns @ ''-'' @ suffix @ ''-'' @ ct)"
  using assms by (simp add: target_namespace_name_eq)

text \<open>
  With a namespace of at most 45 characters the clone has another name than the source (its name
  is longer or, at 45 characters with nothing cut, still continues with a dash).
\<close>

lemma target_namespace_name_longer:
  assumes "length ns \<le> 45"
  shows "length ns < length (target_namespace_name ns suffix ct)"
  using assms by (simp add: target_namespace_name_eq)

lemma target_not_source: "length ns \<le> 45 \<Longrightarrow> target_namespace_name ns suffix ct \<noteq> ns"
  using target_namespace_name_longer [of ns suffix ct] by auto

end
