(* ===== verification/RunnerFacts.thy ===== *)
theory RunnerFacts
  imports Runner
begin

text \<open>
  What a run of a check may do, whatever its environment answers: the contract of \<open>RunCheck\<close>.
\<close>

section \<open>The contract of a run\<close>

text \<open>
  The ghost state: whether the recording of this run has been stored, and the bindings listed
  last that were made for the target namespace.
\<close>

record run_ghost =
  gh_stored :: bool
  gh_bindings :: "string set"

text \<open>A status that differs from a fetched one by one write of this run's condition, not to True.\<close>

definition progress_write :: "lib \<Rightarrow> string \<Rightarrow> Whc \<Rightarrow> bool" where
  "progress_write L conditionType x \<longleftrightarrow> (\<exists>y c t. x = with_conditions (lib_SetStatusCondition L (conds y) c t) y \<and>
     cond_Type c = conditionType \<and> cond_Status c \<noteq> ConditionTrue)"

definition run_may :: "lib \<Rightarrow> string \<Rightarrow> string \<Rightarrow> string \<Rightarrow> run_ghost \<Rightarrow> call \<Rightarrow> bool" where
  "run_may L conditionType target key s c = (case c of
     UpdateWhcStatus x \<Rightarrow> gh_stored s \<or> progress_write L conditionType x
   | UpdateWorkload w \<Rightarrow> wl_Namespace w = target
   | CreateNamespace n \<Rightarrow> nsp_Name n = target
   | CreateResource u \<Rightarrow> u_Namespace u = target
   | CreateClusterRoleBinding b \<Rightarrow> target_label b = target \<and> length (crb_Name b) \<le> 253
   | DeleteNamespace n \<Rightarrow> n = target
   | DeleteClusterRoleBinding n \<Rightarrow> n \<in> gh_bindings s
   | KvSet k v d \<Rightarrow> k = key
   | CreateWhc _ \<Rightarrow> False
   | UpdateNhcStatus _ \<Rightarrow> False
   | KvDel _ \<Rightarrow> False
   | GoRunCheck _ _ _ \<Rightarrow> False
   | _ \<Rightarrow> True)"

definition run_contract :: "lib \<Rightarrow> string \<Rightarrow> string \<Rightarrow> string \<Rightarrow> (run_ghost, call, resp) contract" where
  "run_contract L conditionType target key = \<lparr>
     rg_may = run_may L conditionType target key,
     rg_ans = (\<lambda>_ c r. case c of GetWorkload k ns n \<Rightarrow> (case r of RWorkload w \<Rightarrow> wl_Namespace w = ns | _ \<Rightarrow> True) | _ \<Rightarrow> True),
     rg_next = (\<lambda>s c r. case c of
        ListClusterRoleBindings \<Rightarrow>
          (case r of RBindings bs \<Rightarrow> s\<lparr>gh_bindings := crb_Name ` {b \<in> set bs. target_label b = target}\<rparr> | _ \<Rightarrow> s)
      | KvSet k v d \<Rightarrow> if r = ROk then s\<lparr>gh_stored := True\<rparr> else s
      | _ \<Rightarrow> s),
     rg_crash = (\<lambda>_. True)\<rparr>"

lemma run_may_simps [simp]:
  "run_may L ct t k s (UpdateWhcStatus x) \<longleftrightarrow> gh_stored s \<or> progress_write L ct x"
  "run_may L ct t k s (UpdateWorkload w) \<longleftrightarrow> wl_Namespace w = t"
  "run_may L ct t k s (CreateNamespace n) \<longleftrightarrow> nsp_Name n = t"
  "run_may L ct t k s (CreateResource u) \<longleftrightarrow> u_Namespace u = t"
  "run_may L ct t k s (CreateClusterRoleBinding rb) \<longleftrightarrow> target_label rb = t \<and> length (crb_Name rb) \<le> 253"
  "run_may L ct t k s (DeleteNamespace nm) \<longleftrightarrow> nm = t"
  "run_may L ct t k s (DeleteClusterRoleBinding nm) \<longleftrightarrow> nm \<in> gh_bindings s"
  "run_may L ct t k s (KvSet k' v d) \<longleftrightarrow> k' = k"
  "run_may L ct t k s (GetWhc a b)" "run_may L ct t k s (GetWorkload wk a b)" "run_may L ct t k s (AsSelector sl)"
  "run_may L ct t k s (ListPods a sel)" "run_may L ct t k s (GetNamespace a)" "run_may L ct t k s ListClusterRoleBindings"
  "run_may L ct t k s (ListResources a b a' b')" "run_may L ct t k s (PodLogs a b a' pv)"
  "run_may L ct t k s (RecordMetrics a sel d)" "run_may L ct t k s Now" "run_may L ct t k s (Sleep d)"
  "run_may L ct t k s (RandString d)" "run_may L ct t k s MapOrder" "run_may L ct t k s (RetryAgain e)"
  "run_may L ct t k s (Event a b a')"
  by (simp_all add: run_may_def)

lemma run_contract_simps [simp]:
  "rg_may (run_contract L ct t k) = run_may L ct t k"
  "rg_crash (run_contract L ct t k) e"
  "rg_ans (run_contract L ct t k) s (GetWorkload wk ns n) r \<longleftrightarrow> (case r of RWorkload w \<Rightarrow> wl_Namespace w = ns | _ \<Rightarrow> True)"
  "rg_next (run_contract L ct t k) s (KvSet k' v d) r = (if r = ROk then s\<lparr>gh_stored := True\<rparr> else s)"
  by (simp_all add: run_contract_def)

lemma stored_stays: "gh_stored s \<Longrightarrow> gh_stored (rg_next (run_contract L ct t k) s c r)"
  by (simp add: run_contract_def split: call.split resp.split)

text \<open>Programs that only make calls a run may always make.\<close>

definition free_call :: "call \<Rightarrow> bool" where
  "free_call c = (case c of
     GetWhc _ _ \<Rightarrow> True | GetWorkload _ _ _ \<Rightarrow> True | AsSelector _ \<Rightarrow> True | ListPods _ _ \<Rightarrow> True | GetNamespace _ \<Rightarrow> True
   | PodLogs _ _ _ _ \<Rightarrow> True | RecordMetrics _ _ _ \<Rightarrow> True | Now \<Rightarrow> True | Sleep _ \<Rightarrow> True | MapOrder \<Rightarrow> True
   | RetryAgain _ \<Rightarrow> True | Event _ _ _ \<Rightarrow> True | _ \<Rightarrow> False)"

lemma free_call_simps [simp]:
  "free_call (GetWhc a b)" "free_call (GetWorkload wk a b)" "free_call (AsSelector sl)" "free_call (ListPods a sel)"
  "free_call (GetNamespace a)" "free_call (PodLogs a b a' pv)" "free_call (RecordMetrics a sel d)" "free_call Now"
  "free_call (Sleep d)" "free_call MapOrder" "free_call (RetryAgain e)" "free_call (Event a b a')"
  by (simp_all add: free_call_def)

lemma free_may: "free_call c \<Longrightarrow> run_may L ct t k s c"
  by (cases c) (simp_all add: free_call_def)

lemma free_meets: "calls_only free_call p \<Longrightarrow> meets (run_contract L ct t k) p (\<lambda>_ _. True) s"
  by (erule calls_only_meets) (simp_all add: free_may)

lemma free_post:
  "calls_only free_call p \<Longrightarrow> (\<And>s a. Q s a) \<Longrightarrow> meets (run_contract L ct t k) p Q s"
  by (rule meets_mono [OF free_meets])

lemma free_programs:
  "calls_only free_call (GetWorkloadUnderTest m ns)" "calls_only free_call (GetLabelSelector m)"
  "calls_only free_call (VerifyReadiness w)" "calls_only free_call (GetReplicaCount m ns)"
  "calls_only free_call (namespaceExists n)"
proof -
  show w: "calls_only free_call (GetWorkloadUnderTest m ns)" for m ns
    unfolding GetWorkloadUnderTest_def Let_def by (auto intro!: calls_intros)
  then show "calls_only free_call (GetLabelSelector m)"
    unfolding GetLabelSelector_def by (auto intro!: calls_intros)
  from w show "calls_only free_call (GetReplicaCount m ns)"
    unfolding GetReplicaCount_def by (auto intro!: calls_intros split: sum.splits workload.splits)
  show "calls_only free_call (VerifyReadiness w)"
    by (rule calls_only_mono [OF VerifyReadiness_calls]) auto
  show "calls_only free_call (namespaceExists n)"
    unfolding namespaceExists_def by (auto intro!: calls_intros)
qed

lemma free_await: "calls_only free_call (await_pods fuel ns sel)"
  by (induction fuel) (auto intro!: calls_intros)

lemma free_recordLogs: "calls_only free_call (recordLogs fuel ns prev sel)"
  unfolding recordLogs_def RecordLogs_def log_step_def GetLogs_def
  by (auto intro!: calls_intros free_await split: prod.splits)

lemma free_recordMetrics: "calls_only free_call (recordMetrics ns sel r)"
  unfolding recordMetrics_def by (auto intro!: calls_intros)

lemma free_map_orders: "calls_only free_call (map_orders n)"
  by (induction n) (auto intro!: calls_intros)

lemmas free_posts = free_programs [THEN free_post] free_recordLogs [THEN free_post] free_recordMetrics [THEN free_post]
  free_map_orders [THEN free_post]

section \<open>Status writes\<close>

lemma SetCondition_progress:
  assumes "cond_Type c = ct" and "cond_Status c \<noteq> ConditionTrue"
  shows "meets (run_contract L ct t k) (SetCondition L c m) (\<lambda>_ _. True) s"
proof -
  have "calls_only (\<lambda>c. free_call c \<or> (\<exists>x. c = UpdateWhcStatus x \<and> progress_write L ct x)) (SetCondition L c m)"
    unfolding SetCondition_def SetCondition_attempt_def Let_def
    using assms by (intro calls_intros) (auto intro!: calls_intros simp: progress_write_def, blast)
  then show ?thesis by (rule calls_only_meets) (auto simp: free_may)
qed

text \<open>The runner with another copy of the object in its manager.\<close>

definition same_run :: "runner \<Rightarrow> runner \<Rightarrow> bool" where
  "same_run r r' \<longleftrightarrow> (\<exists>m. r' = r\<lparr>rn_manager := m\<rparr>)"

lemma same_run_refl [simp]: "same_run r r"
  by (simp add: same_run_def) (metis runner.surjective runner.update_convs(2))

lemma same_run_trans: "same_run r r' \<Longrightarrow> same_run r' r'' \<Longrightarrow> same_run r r''"
  by (auto simp: same_run_def)

lemma same_run_eq:
  "same_run r r' \<Longrightarrow> rn_conditionType r' = rn_conditionType r" "same_run r r' \<Longrightarrow> rn_checkType r' = rn_checkType r"
  "same_run r r' \<Longrightarrow> rn_whc r' = rn_whc r" "same_run r r' \<Longrightarrow> store_key r' = store_key r"
  "same_run r r' \<Longrightarrow> failed_reason r' = failed_reason r"
  by (auto simp: same_run_def store_key_def failed_reason_def)

lemma setStatus_meets:
  assumes "rn_conditionType r = ct"
  shows "meets (run_contract L ct t k) (setStatusFailed L msg r) (\<lambda>_ r'. same_run r r') s"
    and "meets (run_contract L ct t k) (setStatusRunning L msg r) (\<lambda>_ r'. same_run r r') s"
  unfolding setStatusFailed_def setStatusRunning_def set_condition_def Let_def using assms
  by (auto simp: same_run_def intro!: meets_mono [OF SetCondition_progress])

section \<open>Clone, delete, store\<close>

lemma Clone_in_run:
  assumes "service_conversion L"
  shows "meets (run_contract L ct t k) (Clone L source t suffix) (\<lambda>_ _. True) s"
  by (rule calls_only_meets [OF Clone_calls [OF assms, of source]])
    (auto simp: clone_call_def fresh_in_def split: call.splits)

lemma Delete_in_run: "meets (run_contract L ct t k) (Delete t) (\<lambda>_ _. True) s"
proof -
  have "meets (run_contract L ct t k) (Delete t) (\<lambda>s. (\<lambda>_ _. True) (gh_bindings s)) s"
    by (rule meets_refine [OF Delete_meets])
      (auto simp: delete_contract_def run_contract_def split: call.splits resp.splits)
  then show ?thesis by simp
qed

lemma StoreRecording_in_run:
  assumes "k = recording_key (suffix @ '':'' @ rc_Type rec)"
  shows "meets (run_contract L ct t k) (StoreRecording L suffix rec) (\<lambda>s' e. e = None \<longrightarrow> gh_stored s') s"
  using assms
  by (auto simp: StoreRecording_def storeEntry_def recording_key_def meets_ask as_done_def
      split: sum.splits option.splits resp.splits)

lemma createCheckNamespace_in_run:
  assumes "service_conversion L" and "generateTargetNamespaceName r = t"
  shows "meets (run_contract L ct t k) (createCheckNamespace L r) (\<lambda>_ _. True) s"
  unfolding createCheckNamespace_def Let_def
  using assms by (auto simp: meets_ask split: option.splits sum.splits intro!: meets_mono [OF Clone_in_run])

lemma prepare_in_run:
  assumes "service_conversion L" and "generateTargetNamespaceName r = t"
  shows "meets (run_contract L ct t k) (prepare_namespace L r) (\<lambda>_ _. True) s"
  unfolding prepare_namespace_def Let_def assms(2)
  by (auto intro!: free_posts meets_mono [OF Delete_in_run] meets_mono [OF createCheckNamespace_in_run [OF assms]]
      simp: meets_ask split: option.splits)

section \<open>Applying and waiting\<close>

lemma meets_retry:
  assumes "\<And>s x. I x \<Longrightarrow> meets (run_contract L ct t k) (fn x) (\<lambda>_ (e, x'). I x') s" and "I x"
  shows "meets (run_contract L ct t k) (RetryOnConflict retry_again n fn x) (\<lambda>_ (e, x'). I x') s"
  using meets_RetryOnConflict [where G = "run_contract L ct t k" and I = "\<lambda>_. I" and Q = "\<lambda>_ _. True" and fn = fn
      and again = retry_again and x = x and s = s and n = n] assms
  by (simp add: meets_ask split: option.splits)

lemma set_replicas_namespace: "set_replicas n w = Inr w' \<Longrightarrow> wl_Namespace w' = wl_Namespace w"
  by (cases w) auto

lemma GetWorkloadUnderTest_in_run:
  "meets (run_contract L ct t k) (GetWorkloadUnderTest m ns) (\<lambda>_ g. \<forall>w. g = Inr w \<longrightarrow> wl_Namespace w = ns) s"
  by (auto simp: GetWorkloadUnderTest_def Let_def meets_ask or_err_def as_workload_of_def
      split: option.splits sum.splits resp.splits if_splits)

lemma Scale_in_run: "meets (run_contract L ct t k) (ScaleWorkloadUnderTest L m t n) (\<lambda>_ _. True) s"
proof -
  have "meets (run_contract L ct t k) (Scale_attempt t n w) (\<lambda>_ (e, x'). True) s" for s w
    by (auto simp: Scale_attempt_def meets_ask or_err_def as_workload_of_def as_done_def set_replicas_namespace
        split: option.splits sum.splits resp.splits if_splits)
  note retry = meets_retry [where I = "\<lambda>_. True", OF this]
  show ?thesis
    unfolding ScaleWorkloadUnderTest_def
    by (auto intro!: free_posts meets_mono [OF retry] split: sum.splits)
qed

lemma ApplyCheckSecurityContext_namespace:
  "ApplyCheckSecurityContext \<sigma> w cd pd = Inr w' \<Longrightarrow> wl_Namespace w' = wl_Namespace w"
  by (auto simp: ApplyCheckSecurityContext_def split: option.splits)

lemma Apply_in_run:
  assumes "wl_Namespace w = t"
  shows "meets (run_contract L ct t k) (Apply_attempt sc w) (\<lambda>_ (e, w'). wl_Namespace w' = t) s"
  using assms
  by (auto simp: Apply_attempt_def meets_ask or_err_def as_workload_of_def ApplyCheckSecurityContext_namespace
      intro!: free_posts split: option.splits sum.splits resp.splits if_splits)

lemma applySecurityContext_in_run:
  assumes w: "wl_Namespace w = t"
  shows "meets (run_contract L ct t k) (applySecurityContext_runner L w sc r) (\<lambda>_ (e, w'). wl_Namespace w' = t) s"
proof -
  let ?G = "run_contract L ct t k"
  have applied: "meets ?G (case sc of None \<Rightarrow> Ret (None, w) | Some c \<Rightarrow> RetryOnConflict retry_again (lib_retries L) (Apply_attempt c) w)
      (\<lambda>_ (e, w'). wl_Namespace w' = t) s" for s
    using w by (cases sc) (simp_all add: meets_retry [where I = "\<lambda>w. wl_Namespace w = t"] Apply_in_run)
  have rest: "meets ?G (pbind (case sc of None \<Rightarrow> Ret (None, w) | Some c \<Rightarrow> RetryOnConflict retry_again (lib_retries L) (Apply_attempt c) w)
      (\<lambda>(e, w). case e of Some err \<Rightarrow> Ret (Some err, w)
         | None \<Rightarrow> if sca \<and> 0 <s cnt then pbind (ScaleWorkloadUnderTest L (rn_manager r) (wl_Namespace w) cnt) (\<lambda>e. Ret (e, w))
             else Ret (None, w))) (\<lambda>_ (e, w'). wl_Namespace w' = t) s" for s sca cnt
    unfolding meets_pbind
    by (rule meets_mono [OF applied]) (auto intro!: meets_mono [OF Scale_in_run] split: option.splits)
  show ?thesis
    unfolding applySecurityContext_runner_def Let_def
    by (auto intro!: rest [unfolded meets_pbind] free_posts meets_mono [OF Scale_in_run] simp: w split: sum.splits)
qed

section \<open>The whole run\<close>

text \<open>The run the contract is about, and a workload in its namespace.\<close>

definition run_of :: "string \<Rightarrow> string \<Rightarrow> runner \<Rightarrow> bool" where
  "run_of ct k r \<longleftrightarrow> rn_conditionType r = ct \<and> k = recording_key (store_key r @ '':'' @ rn_checkType r)"

definition in_ns :: "string \<Rightarrow> workload \<Rightarrow> bool" where
  "in_ns t w \<longleftrightarrow> wl_Namespace w = t"

lemma run_of_same: "run_of ct k r \<Longrightarrow> same_run r r' \<Longrightarrow> run_of ct k r'"
  by (simp add: run_of_def same_run_eq)

lemma run_of_successful: "run_of ct k r \<Longrightarrow> run_of ct k (r\<lparr>rn_checkSuccessful := b\<rparr>)"
  by (simp add: run_of_def store_key_def)

lemma meets_pbindI:
  "meets G p R s \<Longrightarrow> (\<And>s a. R s a \<Longrightarrow> meets G (f a) Q s) \<Longrightarrow> meets G (pbind p f) Q s"
  unfolding meets_pbind by (rule meets_mono)

lemma free_bind:
  "calls_only free_call p \<Longrightarrow> (\<And>s a. meets (run_contract L ct t k) (f a) Q s) \<Longrightarrow>
     meets (run_contract L ct t k) (pbind p f) Q s"
  by (rule meets_pbindI [OF free_meets])

lemma lift_bind:
  "(\<And>a. x = Inr a \<Longrightarrow> meets (run_contract L ct t k) (f a) Q s) \<Longrightarrow> meets (run_contract L ct t k) (pbind (lift_go x) f) Q s"
  by (cases x) (simp_all add: lift_go_def)

text \<open>The steps of a run as rules for what follows them.\<close>

lemma failed_bind:
  "run_of ct k r \<Longrightarrow> (\<And>s r'. run_of ct k r' \<Longrightarrow> same_run r r' \<Longrightarrow> meets (run_contract L ct t k) (f r') Q s) \<Longrightarrow>
     meets (run_contract L ct t k) (pbind (setStatusFailed L msg r) f) Q s"
  by (rule meets_pbindI [OF setStatus_meets(1)]) (auto simp: run_of_def same_run_eq)

lemma running_bind:
  "run_of ct k r \<Longrightarrow> (\<And>s r'. run_of ct k r' \<Longrightarrow> same_run r r' \<Longrightarrow> meets (run_contract L ct t k) (f r') Q s) \<Longrightarrow>
     meets (run_contract L ct t k) (pbind (setStatusRunning L msg r) f) Q s"
  by (rule meets_pbindI [OF setStatus_meets(2)]) (auto simp: run_of_def same_run_eq)

lemma delete_bind:
  "(\<And>s a. meets (run_contract L ct t k) (f a) Q s) \<Longrightarrow> meets (run_contract L ct t k) (pbind (Delete t) f) Q s"
  by (rule meets_pbindI [OF Delete_in_run])

lemma store_bind:
  "run_of ct k r \<Longrightarrow> rc_Type rec = rn_checkType r \<Longrightarrow>
   (\<And>s e. (e = None \<Longrightarrow> gh_stored s) \<Longrightarrow> meets (run_contract L ct t k) (f e) Q s) \<Longrightarrow>
     meets (run_contract L ct t k) (pbind (StoreRecording L (store_key r) rec) f) Q s"
  by (rule meets_pbindI [OF StoreRecording_in_run]) (auto simp: run_of_def)

lemma get_bind:
  "(\<And>s g. (\<And>w. g = Inr w \<Longrightarrow> in_ns ns w) \<Longrightarrow> meets (run_contract L ct t k) (f g) Q s) \<Longrightarrow>
     meets (run_contract L ct t k) (pbind (GetWorkloadUnderTest m ns) f) Q s"
  by (rule meets_pbindI [OF GetWorkloadUnderTest_in_run]) (auto simp: in_ns_def)

lemma apply_bind:
  "in_ns t w \<Longrightarrow> (\<And>s e w'. in_ns t w' \<Longrightarrow> meets (run_contract L ct t k) (f (e, w')) Q s) \<Longrightarrow>
     meets (run_contract L ct t k) (pbind (applySecurityContext_runner L w sc r) f) Q s"
  by (rule meets_pbindI [OF applySecurityContext_in_run]) (auto simp: in_ns_def)

lemma ask_bind:
  "free_call c \<Longrightarrow> (\<And>s a. meets (run_contract L ct t k) (f a) Q s) \<Longrightarrow>
     meets (run_contract L ct t k) (pbind (ask c dec) f) Q s"
  by (rule free_bind) simp_all

lemmas reading_binds = ask_bind free_programs [THEN free_bind] free_recordLogs [THEN free_bind] free_recordMetrics [THEN free_bind]

lemmas run_binds = reading_binds lift_bind failed_bind running_bind delete_bind store_bind get_bind apply_bind

lemma rollout_timeout_in_run:
  assumes "run_of ct k r" and "in_ns t w"
  shows "meets (run_contract L ct t k) (rollout_timeout L lfuel t st w r) (\<lambda>_ (u, w', r'). in_ns t w' \<and> same_run r r') s"
  unfolding rollout_timeout_def
  by (auto simp del: meets_pbind split: sum.splits intro!: run_binds assms)

lemma wait_in_run:
  assumes "run_of ct k r"
  shows "in_ns t w \<Longrightarrow>
     meets (run_contract L ct t k) (wait_loop L lfuel t st fuel w r) (\<lambda>_ (u, w', r'). in_ns t w' \<and> same_run r r') s"
proof (induction fuel arbitrary: w s)
  case 0
  show ?case by simp
next
  case (Suc fuel)
  have "meets (run_contract L ct t k) (refresh_workload t w) (\<lambda>_ w'. in_ns t w') s" for s
    using Suc.prems
    by (auto simp: refresh_workload_def in_ns_def meets_ask or_err_def as_workload_of_def
        split: option.splits sum.splits resp.splits if_splits)
  note refreshed = meets_pbindI [OF this]
  show ?case
    by (auto simp del: meets_pbind intro!: refreshed lift_bind ask_bind rollout_timeout_in_run [OF assms] Suc.IH)
qed

lemma wait_bind:
  assumes "run_of ct k r" and "in_ns t w"
    and f: "\<And>s u w' r'. in_ns t w' \<Longrightarrow> same_run r r' \<Longrightarrow> run_of ct k r' \<Longrightarrow> meets (run_contract L ct t k) (f (u, w', r')) Q s"
  shows "meets (run_contract L ct t k) (pbind (waitForUpdatedPods L lfuel wfuel w r) f) Q s"
proof -
  have eq: "waitForUpdatedPods L lfuel wfuel w r = pbind now (\<lambda>st. wait_loop L lfuel t st wfuel w r)"
    using assms(2) by (simp add: waitForUpdatedPods_def in_ns_def)
  show ?thesis
    unfolding eq pbind_assoc
    by (auto simp del: meets_pbind intro!: ask_bind meets_pbindI [OF wait_in_run [OF assms(1,2)]] f intro: run_of_same [OF assms(1)])
qed

text \<open>Once the recording is stored, every status write is allowed.\<close>

definition settled_call :: "call \<Rightarrow> bool" where
  "settled_call c \<longleftrightarrow> free_call c \<or> (\<exists>x. c = UpdateWhcStatus x)"

lemma settled_calls [simp]:
  "settled_call (GetWhc a b)" "settled_call (UpdateWhcStatus x)" "settled_call Now" "settled_call MapOrder"
  "settled_call (RetryAgain e)" "settled_call (Event a b a')"
  by (simp_all add: settled_call_def)

lemma settled_SetCondition: "calls_only settled_call (SetCondition L c m)"
  unfolding SetCondition_def SetCondition_attempt_def Let_def by (auto intro!: calls_intros)

lemma settled_mine: "calls_only settled_call (mine_container D c a)"
  unfolding mine_container_def by (auto intro!: calls_intros split: prod.splits)

lemma settled_finish:
  "calls_only settled_call (setStatusFinishedSuccessfully L msg sc r)"
  "calls_only settled_call (setStatusFinishedFailure D L msg why rec r)"
  unfolding setStatusFinishedSuccessfully_def setStatusFinishedFailure_def set_condition_def FileSuccess_attempt_def
    FileFailure_attempt_def Let_def
  by (auto intro!: calls_intros settled_SetCondition settled_mine)

lemma settled_meets:
  "calls_only settled_call p \<Longrightarrow> gh_stored s \<Longrightarrow> meets (run_contract L ct t k) p (\<lambda>_ _. True) s"
  unfolding calls_only_def
proof (induction p arbitrary: s)
  case (Call c p)
  then show ?case by (auto simp: settled_call_def free_may stored_stays)
qed auto

lemma settled_bind:
  "calls_only settled_call p \<Longrightarrow> gh_stored s \<Longrightarrow> (\<And>s a. meets (run_contract L ct t k) (f a) Q s) \<Longrightarrow>
     meets (run_contract L ct t k) (pbind p f) Q s"
  by (rule meets_pbindI [OF settled_meets])

lemma finish_in_run:
  assumes "run_of ct k r" and "rc_Type rec = rn_checkType r"
  shows "meets (run_contract L ct t k) (finish_run D L t sc rec r) (\<lambda>_ _. True) s"
  unfolding finish_run_def
  by (rule store_bind [OF assms])
    (auto simp del: meets_pbind split: option.splits
      intro!: failed_bind [OF assms(1)] ask_bind settled_finish [THEN settled_bind] delete_bind)

lemma record_in_run:
  assumes "run_of ct k r"
  shows "meets (run_contract L ct t k) (record_run D L lfuel t sc w r) (\<lambda>_ _. True) s"
  unfolding record_run_def Let_def
  by (auto simp del: meets_pbind split: sum.splits
      intro!: running_bind [OF assms] reading_binds failed_bind finish_in_run run_of_successful)

lemma RunCheck_in_run:
  assumes "service_conversion L" and r: "run_of ct k r" and t: "generateTargetNamespaceName r = t"
  shows "meets (run_contract L ct t k) (RunCheck D L lfuel wfuel sc r) (\<lambda>_ _. True) s"
  unfolding RunCheck_def Let_def t
  by (rule meets_pbindI [OF prepare_in_run [OF assms(1) t]])
    (auto simp del: meets_pbind simp: pbind_assoc split: sum.splits option.splits
      intro!: running_bind [OF r] get_bind failed_bind apply_bind wait_bind ask_bind record_in_run)

end
