(* ===== verification/Rollout.thy ===== *)
theory Rollout
  imports RunnerFacts
begin

text \<open>
  Two promises of the part of a run that applies the context: the wait for the rollout ends, and
  the workload has its replicas back when the context has been applied.
\<close>

section \<open>Environments that answer\<close>

text \<open>The answers a call can have, by the types of the client libraries.\<close>

definition answer_of :: "call \<Rightarrow> resp \<Rightarrow> bool" where
  "answer_of c r = (case c of
     GetWhc _ _ \<Rightarrow> or_err as_whc r \<noteq> None
   | UpdateWhcStatus _ \<Rightarrow> as_done r \<noteq> None
   | GetWorkload k _ _ \<Rightarrow> or_err (as_workload_of k) r \<noteq> None
   | AsSelector _ \<Rightarrow> or_err as_selector r \<noteq> None
   | ListPods _ _ \<Rightarrow> or_err as_pods r \<noteq> None
   | GetNamespace _ \<Rightarrow> or_err as_namespace r \<noteq> None
   | DeleteNamespace _ \<Rightarrow> as_done r \<noteq> None
   | ListClusterRoleBindings \<Rightarrow> or_err as_bindings r \<noteq> None
   | DeleteClusterRoleBinding _ \<Rightarrow> as_done r \<noteq> None
   | PodLogs _ _ _ _ \<Rightarrow> or_err as_string r \<noteq> None
   | KvSet _ _ _ \<Rightarrow> as_done r \<noteq> None
   | Now \<Rightarrow> as_int r \<noteq> None
   | Sleep _ \<Rightarrow> as_done r \<noteq> None
   | MapOrder \<Rightarrow> as_picks r \<noteq> None
   | RetryAgain _ \<Rightarrow> as_bool r \<noteq> None
   | Event _ _ _ \<Rightarrow> as_done r \<noteq> None
   | _ \<Rightarrow> True)"

definition replicas_set :: "workload \<Rightarrow> bool" where
  "replicas_set w = (case w of WDeployment d \<Rightarrow> dep_Replicas d \<noteq> None | WStatefulSet s \<Rightarrow> sts_Replicas s \<noteq> None | _ \<Rightarrow> True)"

lemma VerifyUpdated_total: "replicas_set w \<Longrightarrow> \<exists>u. VerifyUpdated w = Inr u"
  by (cases w) (auto simp: replicas_set_def)

text \<open>
  The environment of the wait: it answers every call by its type, the clock goes forward (at least
  by what is slept), fetched workloads have their replica counts defaulted, as the API server
  does, and a list of pods fails or names pods that are assigned. No crash is tolerated, running
  out of fuel included. The ghost state is the earliest time the clock can show.
\<close>

definition responsive :: "(int, call, resp) contract" where
  "responsive = \<lparr>
     rg_may = (\<lambda>_ _. True),
     rg_ans = (\<lambda>lb c r. answer_of c r \<and> (case c of
        Now \<Rightarrow> (\<exists>t. r = RInt t \<and> lb \<le> t)
      | GetWorkload _ _ _ \<Rightarrow> (\<forall>w. r = RWorkload w \<longrightarrow> replicas_set w)
      | ListPods _ _ \<Rightarrow> (\<forall>ps. r = RPods ps \<longrightarrow> ps \<noteq> [] \<and> list_all (\<lambda>p. pod_NodeName p \<noteq> '''') ps)
      | _ \<Rightarrow> True)),
     rg_next = (\<lambda>lb c r. case c of Now \<Rightarrow> (case r of RInt t \<Rightarrow> t | _ \<Rightarrow> lb) | Sleep d \<Rightarrow> lb + d | _ \<Rightarrow> lb),
     rg_crash = (\<lambda>_. False)\<rparr>"

lemma responsive_simps [simp]:
  "rg_may responsive s c" "rg_crash responsive e = False"
  "rg_ans responsive s (GetWhc a b) r \<longleftrightarrow> or_err as_whc r \<noteq> None"
  "rg_ans responsive s (UpdateWhcStatus x) r \<longleftrightarrow> as_done r \<noteq> None"
  "rg_ans responsive s (GetWorkload k a b) r \<longleftrightarrow> or_err (as_workload_of k) r \<noteq> None \<and> (\<forall>w. r = RWorkload w \<longrightarrow> replicas_set w)"
  "rg_ans responsive s (AsSelector sel) r \<longleftrightarrow> or_err as_selector r \<noteq> None"
  "rg_ans responsive s (ListPods a sel') r \<longleftrightarrow> or_err as_pods r \<noteq> None \<and>
     (\<forall>ps. r = RPods ps \<longrightarrow> ps \<noteq> [] \<and> list_all (\<lambda>p. pod_NodeName p \<noteq> '''') ps)"
  "rg_ans responsive s (GetNamespace a) r \<longleftrightarrow> or_err as_namespace r \<noteq> None"
  "rg_ans responsive s (DeleteNamespace a) r \<longleftrightarrow> as_done r \<noteq> None"
  "rg_ans responsive s ListClusterRoleBindings r \<longleftrightarrow> or_err as_bindings r \<noteq> None"
  "rg_ans responsive s (DeleteClusterRoleBinding a) r \<longleftrightarrow> as_done r \<noteq> None"
  "rg_ans responsive s (PodLogs a b a' pv) r \<longleftrightarrow> or_err as_string r \<noteq> None"
  "rg_ans responsive s (KvSet a b d) r \<longleftrightarrow> as_done r \<noteq> None"
  "rg_ans responsive s Now r \<longleftrightarrow> (\<exists>t. r = RInt t \<and> s \<le> t)"
  "rg_ans responsive s (Sleep d) r \<longleftrightarrow> as_done r \<noteq> None"
  "rg_ans responsive s MapOrder r \<longleftrightarrow> as_picks r \<noteq> None"
  "rg_ans responsive s (RetryAgain e') r \<longleftrightarrow> as_bool r \<noteq> None"
  "rg_ans responsive s (Event a b a') r \<longleftrightarrow> as_done r \<noteq> None"
  "rg_next responsive s Now (RInt t) = t" "rg_next responsive s (Sleep d) r = s + d"
  by (auto simp: responsive_def answer_of_def)

text \<open>Programs that return whatever such an environment answers.\<close>

definition returns :: "'a io \<Rightarrow> bool" where
  "returns p \<longleftrightarrow> (\<forall>s. meets responsive p (\<lambda>_ _. True) s)"

lemma returns_basic [simp]: "returns (Ret a)" "\<not> returns (Crash e)"
  by (simp_all add: returns_def)

lemma returns_pbind: "returns p \<Longrightarrow> (\<And>a. returns (f a)) \<Longrightarrow> returns (pbind p f)"
  by (auto simp: returns_def elim: meets_mono)

lemma returns_ask:
  "(\<And>s r. rg_ans responsive s c r \<Longrightarrow> dec r \<noteq> None) \<Longrightarrow> returns (ask c dec)"
  by (auto simp: returns_def meets_ask split: option.splits) fastforce

lemma returns_asks [simp]:
  "returns (get_whc a b)" "returns (update_whc_status x)" "returns (get_workload k a b)" "returns (as_label_selector sel)"
  "returns (list_pods a sel')" "returns (get_namespace a)" "returns (delete_namespace a)" "returns list_bindings"
  "returns (delete_binding a)" "returns (pod_logs a b a' pv)" "returns (ask (KvSet a b d) as_done)" "returns now"
  "returns (sleep d)" "returns map_order" "returns (retry_again e)" "returns (event a b a')"
  by (auto intro!: returns_ask simp: as_int_def)

lemma returns_pfold: "(\<And>x s. returns (f x s)) \<Longrightarrow> returns (pfold f xs s)"
  by (induction xs arbitrary: s) (auto intro: returns_pbind)

lemma returns_retry: "(\<And>x. returns (fn x)) \<Longrightarrow> returns (RetryOnConflict retry_again n fn x)"
  by (induction n arbitrary: x) (auto intro!: returns_pbind split: prod.splits)

lemmas returns_intros = returns_pbind returns_pfold returns_retry

lemma returns_set_condition: "returns (setStatusFailed L msg r)"
  unfolding setStatusFailed_def set_condition_def SetCondition_def SetCondition_attempt_def Let_def
  by (auto intro!: returns_intros split: prod.splits sum.splits)

lemma returns_GetLabelSelector: "returns (GetLabelSelector m)"
  unfolding GetLabelSelector_def GetWorkloadUnderTest_def Let_def
  by (auto intro!: returns_intros split: sum.splits)

lemma returns_Delete: "returns (Delete t)"
  unfolding Delete_def delete_bindings_def by (auto intro!: returns_intros split: sum.splits option.splits)

lemma returns_StoreRecording: "returns (StoreRecording L suffix rec)"
  by (auto simp: StoreRecording_def storeEntry_def Let_def split: sum.splits)

lemma returns_recordLogs: "returns (recordLogs (Suc n) ns prev sel)"
proof -
  have "returns (await_pods (Suc n) ns sel)"
    by (auto simp: returns_def meets_ask or_err_def as_pods_def split: option.splits sum.splits resp.splits)
  moreover have "returns (log_step prev c m)" for c m
    unfolding log_step_def GetLogs_def by (auto intro!: returns_intros split: prod.splits sum.splits)
  ultimately show ?thesis
    unfolding recordLogs_def RecordLogs_def by (auto intro!: returns_intros split: sum.splits)
qed

lemma returns_rollout_timeout: "returns (rollout_timeout L (Suc n) t st w r)"
  unfolding rollout_timeout_def
  by (auto intro!: returns_intros returns_set_condition returns_GetLabelSelector returns_Delete returns_StoreRecording
      returns_recordLogs split: sum.splits)

section \<open>The wait ends\<close>

lemma rg_next_GetWorkload [simp]: "rg_next responsive s (GetWorkload k a b) r = s"
  by (simp add: responsive_def)

text \<open>
  \<open>k\<close> rounds after the start, at least \<open>5 k\<close> seconds have passed: round 25 (the 26th) is later than
  two minutes, and no round sleeps after that.
\<close>

lemma wait_loop_ends:
  assumes "n + k = 26" and "n > 0" and "replicas_set w" and "st + 5 * second * int k \<le> lb"
  shows "meets responsive (wait_loop L (Suc lf) t st n w r) (\<lambda>_ _. True) lb"
  using assms
proof (induction n arbitrary: k w lb)
  case 0
  then show ?case by simp
next
  case (Suc n)
  have step: "meets responsive (pbind (lift_go (VerifyUpdated w)) (\<lambda>u. pbind now (\<lambda>ta.
       if ta - st > 2 * minute then rollout_timeout L (Suc lf) t st w r
       else if \<not> bool_of u then pbind (sleep (5 * second)) (\<lambda>_. wait_loop L (Suc lf) t st n w r)
       else Ret ((True, None), w, r)))) (\<lambda>_ _. True) lb" if set: "replicas_set w" for w
  proof -
    obtain u where u: "VerifyUpdated w = Inr u" using VerifyUpdated_total [OF set] by blast
    have "meets responsive (wait_loop L (Suc lf) t st n w r) (\<lambda>_ _. True) (ta + 5 * second)"
      if "lb \<le> ta" "\<not> ta - st > 2 * minute" for ta
    proof (rule Suc.IH [where k = "Suc k"])
      show "n > 0"
      proof (rule ccontr)
        assume "\<not> n > 0"
        with Suc.prems have "k = 25" by simp
        with Suc.prems that show False by simp
      qed
    qed (use Suc.prems that set in auto)
    then show ?thesis
      using returns_rollout_timeout [of L lf t st w r]
      by (auto simp: u meets_ask returns_def as_done_def split: option.splits)
  qed
  have "meets responsive (refresh_workload t w) (\<lambda>s w'. s = lb \<and> replicas_set w') lb"
    using Suc.prems by (auto simp: refresh_workload_def meets_ask or_err_def as_workload_of_def
        split: option.splits sum.splits resp.splits if_splits)
  then show ?case
    unfolding wait_loop.simps by (rule meets_pbindI) (use step in auto)
qed

lemma waitForUpdatedPods_ends:
  assumes "replicas_set w"
  shows "meets responsive (waitForUpdatedPods L (Suc lf) 26 w r) (\<lambda>_ _. True) lb"
  unfolding waitForUpdatedPods_def
  by (auto simp: meets_ask intro!: wait_loop_ends [where k = 0] assms split: option.splits)

section \<open>The replicas come back\<close>

text \<open>
  The environment of \<open>applySecurityContext\<close>: a server that holds the workload (the ghost state),
  answers a Get of it with it or with an error other than NotFound, lets an update replace it or
  fail, and a retry library that runs a function again only after an error.
\<close>

definition workload_contract :: "(workload, call, resp) contract" where
  "workload_contract = \<lparr>
     rg_may = (\<lambda>_ _. True),
     rg_ans = (\<lambda>w c r. case c of
        GetWorkload k ns n \<Rightarrow> k = wl_kind w \<and> ns = wl_Namespace w \<and> n = wl_Name w \<longrightarrow>
          r = RWorkload w \<or> (\<exists>e. r = RErr e \<and> \<not> IsNotFound e)
      | UpdateWorkload x \<Rightarrow> r = ROk \<or> (\<exists>e. r = RErr e)
      | RetryAgain e \<Rightarrow> r = RBool False \<or> r = RBool True \<and> e \<noteq> None
      | _ \<Rightarrow> True),
     rg_next = (\<lambda>w c r. case c of UpdateWorkload x \<Rightarrow> if r = ROk then x else w | _ \<Rightarrow> w),
     rg_crash = (\<lambda>_. True)\<rparr>"

lemma workload_contract_simps [simp]:
  "rg_may workload_contract w c" "rg_crash workload_contract e"
  "rg_ans workload_contract w (GetWorkload k ns n) r \<longleftrightarrow> (k = wl_kind w \<and> ns = wl_Namespace w \<and> n = wl_Name w \<longrightarrow>
          r = RWorkload w \<or> (\<exists>e. r = RErr e \<and> \<not> IsNotFound e))"
  "rg_ans workload_contract w (UpdateWorkload x) r \<longleftrightarrow> r = ROk \<or> (\<exists>e. r = RErr e)"
  "rg_ans workload_contract w (RetryAgain e') r \<longleftrightarrow> r = RBool False \<or> r = RBool True \<and> e' \<noteq> None"
  "rg_ans workload_contract w MapOrder r"
  "rg_next workload_contract w (GetWorkload k ns n) r = w" "rg_next workload_contract w (RetryAgain e') r = w"
  "rg_next workload_contract w MapOrder r = w" "rg_next workload_contract w (UpdateWorkload x) r = (if r = ROk then x else w)"
  by (simp_all add: workload_contract_def)

lemma retry_on_error:
  assumes fn: "\<And>s x. I s x \<Longrightarrow> meets workload_contract (fn x) (\<lambda>s (e, x'). Q s (e, x') \<and> (e \<noteq> None \<longrightarrow> I s x')) s"
  shows "I s x \<Longrightarrow> meets workload_contract (RetryOnConflict retry_again n fn x) Q s"
proof (induction n arbitrary: s x)
  case 0
  from fn [OF 0] show ?case by (simp, elim meets_mono) auto
next
  case (Suc n)
  show ?case
    unfolding RetryOnConflict.simps
    by (rule meets_pbindI [OF fn [OF Suc.prems]]) (auto simp: meets_ask Suc.IH split: option.splits)
qed

definition same_object :: "workload \<Rightarrow> workload \<Rightarrow> bool" where
  "same_object a b \<longleftrightarrow> wl_kind a = wl_kind b \<and> wl_Namespace a = wl_Namespace b \<and> wl_Name a = wl_Name b"

fun replicas_of :: "workload \<Rightarrow> int32 option" where
  "replicas_of (WDeployment d) = dep_Replicas d"
| "replicas_of (WStatefulSet s) = sts_Replicas s"
| "replicas_of _ = None"

lemma set_replicas_facts:
  "set_replicas n w = Inr w' \<Longrightarrow> same_object w' w \<and> replicas_of w' = Some n \<and> podSpecTemplate w' = podSpecTemplate w"
  by (cases w) (auto simp: same_object_def)

lemma set_podSpecTemplate_replicas [simp]: "replicas_of (set_podSpecTemplate p w) = replicas_of w"
  by (cases w) auto

definition target_of :: "Whc \<Rightarrow> workload \<Rightarrow> bool" where
  "target_of m w \<longleftrightarrow> kind_of (tr_Kind (ws_TargetRef (whc_Spec m))) = wl_kind w \<and> tr_Name (ws_TargetRef (whc_Spec m)) = wl_Name w \<and>
     wl_kind w \<noteq> None"

lemma GetWorkloadUnderTest_holds:
  "target_of m w \<Longrightarrow> meets workload_contract (GetWorkloadUnderTest m (wl_Namespace w)) (\<lambda>w' g. w' = w \<and> (\<forall>x. g = Inr x \<longrightarrow> x = w)) w"
  by (auto simp: GetWorkloadUnderTest_def Let_def target_of_def meets_ask or_err_def as_workload_of_def
      split: option.splits sum.splits resp.splits if_splits)

text \<open>Scaling: with no error the stored workload is the scaled one, with an error it is that or as before.\<close>

definition scaled :: "int32 \<Rightarrow> workload \<Rightarrow> error option \<Rightarrow> workload \<Rightarrow> bool" where
  "scaled n w e w' \<longleftrightarrow> (e = None \<longrightarrow> set_replicas n w = Inr w') \<and> (w' = w \<or> set_replicas n w = Inr w')"

lemma Scale_attempt_holds:
  assumes "same_object x w" and "wl_kind w \<noteq> None"
  shows "meets workload_contract (Scale_attempt (wl_Namespace w) n x)
     (\<lambda>s (e, x'). scaled n w e s \<and> (e \<noteq> None \<longrightarrow> s = w \<and> same_object x' w)) w"
proof -
  have so: "\<And>w2. set_replicas n w = Inr w2 \<Longrightarrow> same_object w2 w" using set_replicas_facts by blast
  show ?thesis
    using assms so
    by (auto simp: Scale_attempt_def meets_ask same_object_def scaled_def split: option.splits sum.splits)
qed

lemma Scale_holds:
  assumes "target_of m w"
  shows "meets workload_contract (ScaleWorkloadUnderTest L m (wl_Namespace w) n) (\<lambda>s e. scaled n w e s) w"
proof -
  have "meets workload_contract (RetryOnConflict retry_again (lib_retries L) (Scale_attempt (wl_Namespace w) n) w)
      (\<lambda>s (e, x'). scaled n w e s) w"
  proof (rule retry_on_error [where I = "\<lambda>s x. s = w \<and> same_object x w"])
    fix s x
    assume "s = w \<and> same_object x w"
    then have s: "s = w" and x: "same_object x w" by simp_all
    have "wl_kind w \<noteq> None" using assms by (simp add: target_of_def)
    from Scale_attempt_holds [OF x this, of n]
    show "meets workload_contract (Scale_attempt (wl_Namespace w) n x)
        (\<lambda>s (e, x'). (case (e, x') of (e, x') \<Rightarrow> scaled n w e s) \<and> (e \<noteq> None \<longrightarrow> s = w \<and> same_object x' w)) s"
      unfolding s by (rule meets_mono) auto
  qed (simp add: same_object_def)
  then have retried: "meets workload_contract (pbind (RetryOnConflict retry_again (lib_retries L)
      (Scale_attempt (wl_Namespace w) n) w) (\<lambda>(e, _). Ret e)) (\<lambda>s e. scaled n w e s) w"
    by (rule meets_pbindI) auto
  show ?thesis
    unfolding ScaleWorkloadUnderTest_def
  proof (rule meets_pbindI [OF GetWorkloadUnderTest_holds [OF assms]])
    fix s and g :: "error + workload"
    assume g: "s = w \<and> (\<forall>x. g = Inr x \<longrightarrow> x = w)"
    show "meets workload_contract (case g of Inl e \<Rightarrow> Ret (Some (Errorf ''failed to get workload under test'' (Some e)))
       | Inr w' \<Rightarrow> pbind (RetryOnConflict retry_again (lib_retries L) (Scale_attempt (wl_Namespace w) n) w') (\<lambda>(e, _). Ret e))
       (\<lambda>s e. scaled n w e s) s"
    proof (cases g)
      case (Inl e)
      with g show ?thesis by (simp add: scaled_def)
    next
      case (Inr w')
      with g retried show ?thesis by (simp del: meets_pbind)
    qed
  qed
qed

lemma map_orders_holds: "meets workload_contract (map_orders n) (\<lambda>w' _. w' = w) w"
  by (induction n) (auto simp: meets_ask split: option.splits elim!: meets_mono)

definition applied :: "SecurityContextDefaults \<Rightarrow> workload \<Rightarrow> workload \<Rightarrow> bool" where
  "applied sc w w' \<longleftrightarrow> (\<exists>\<sigma>. ApplyCheckSecurityContext \<sigma> w (sd_Container sc) (sd_Pod sc) = Inr w')"

lemma applied_facts:
  assumes "applied sc w w'"
  shows "same_object w' w \<and> replicas_of w' = replicas_of w \<and>
     (\<exists>\<sigma> p. podSpecTemplate w = Some p \<and> podSpecTemplate w' = Some (hardened \<sigma> sc p))"
proof -
  from assms obtain \<sigma> p where "podSpecTemplate w = Some p" "w' = set_podSpecTemplate (hardened \<sigma> sc p) w"
    by (auto simp: applied_def ApplyCheckSecurityContext_def split: option.splits)
  then show ?thesis by (simp add: same_object_def) blast
qed

lemma Apply_attempt_holds:
  assumes "same_object x w" and "wl_kind w \<noteq> None"
  shows "meets workload_contract (Apply_attempt sc x)
     (\<lambda>s (e, x'). (e = None \<longrightarrow> applied sc w s) \<and> same_object x' w \<and> (e \<noteq> None \<longrightarrow> s = w)) w"
proof -
  have so: "same_object w2 w \<and> applied sc w w2"
    if "ApplyCheckSecurityContext \<sigma> w (sd_Container sc) (sd_Pod sc) = Inr w2" for \<sigma> w2
  proof -
    from that have "applied sc w w2" by (auto simp: applied_def)
    with applied_facts show ?thesis by blast
  qed
  have "meets workload_contract (pbind (map_orders (containers_of w)) (\<lambda>\<sigma>s.
         case ApplyCheckSecurityContext (orders_fun \<sigma>s) w (sd_Container sc) (sd_Pod sc) of
           Inl e \<Rightarrow> Ret (Some (Errorf ''failed to apply security context to workload under test'' (Some e)), w)
         | Inr w2 \<Rightarrow> pbind (update_workload w2) (\<lambda>e. Ret (e, w2))))
     (\<lambda>s (e, x'). (e = None \<longrightarrow> applied sc w s) \<and> same_object x' w \<and> (e \<noteq> None \<longrightarrow> s = w)) w"
    by (rule meets_pbindI [OF map_orders_holds])
      (auto simp: meets_ask as_done_def so same_object_def [of w w] split: sum.splits option.splits resp.splits)
  with assms show ?thesis
    by (auto simp del: meets_pbind simp: Apply_attempt_def meets_ask same_object_def
        split: option.splits sum.splits intro!: meets_pbindI [where R = "\<lambda>s g. s = w \<and> (\<forall>y. g = Inr y \<longrightarrow> y = w)"])
qed

text \<open>The replica count a scalable workload is scaled back to.\<close>

definition count_of :: "workload \<Rightarrow> int32" where
  "count_of w = (case replicas_of w of Some n \<Rightarrow> n | None \<Rightarrow> 1)"

definition restored :: "SecurityContextDefaults \<Rightarrow> workload \<Rightarrow> workload \<Rightarrow> bool" where
  "restored sc w w' \<longleftrightarrow> same_object w' w \<and>
     (\<exists>\<sigma> p. podSpecTemplate w = Some p \<and> podSpecTemplate w' = Some (hardened \<sigma> sc p)) \<and>
     (replicas_of w' = replicas_of w \<or> replicas_of w' = Some (count_of w))"

lemma GetReplicaCount_holds:
  assumes "target_of m w"
  shows "meets workload_contract (GetReplicaCount m (wl_Namespace w)) (\<lambda>w' g. w' = w \<and> (\<forall>n. g = Inr n \<longrightarrow> n = count_of w \<and> wl_kind w \<noteq> Some KDaemonSet)) w"
  unfolding GetReplicaCount_def
  by (rule meets_pbindI [OF GetWorkloadUnderTest_holds [OF assms]])
    (auto simp: count_of_def split: sum.splits workload.splits)

lemma target_of_same: "target_of m w \<Longrightarrow> same_object w' w \<Longrightarrow> target_of m w'"
  by (simp add: target_of_def same_object_def)

lemma same_object_simps [simp]: "same_object w w" "same_object a b \<Longrightarrow> same_object b c \<Longrightarrow> same_object a c"
  by (simp_all add: same_object_def)

text \<open>
  From a workload \<open>w1\<close> that differs from the original at most in its replicas: when the context
  has been applied and the count is scaled back, the template is the original one hardened.
\<close>

lemma apply_then_scale:
  assumes m: "target_of m w" and w1: "same_object w1 w" "podSpecTemplate w1 = podSpecTemplate w"
    and n: "scalable \<and> 0 <s n \<and> n = count_of w \<or> \<not> (scalable \<and> 0 <s n) \<and> replicas_of w1 = replicas_of w"
  shows "meets workload_contract (pbind (RetryOnConflict retry_again k (Apply_attempt sc) w) (\<lambda>(e, x). case e of
           Some err \<Rightarrow> Ret (Some err, x)
         | None \<Rightarrow> if scalable \<and> 0 <s n then pbind (ScaleWorkloadUnderTest L m (wl_Namespace x) n) (\<lambda>e. Ret (e, x))
             else Ret (None, x))) (\<lambda>s (e, x). e = None \<longrightarrow> restored sc w s) w1"
proof -
  have k: "wl_kind w1 \<noteq> None" using m w1 by (simp add: target_of_def same_object_def)
  have tried: "meets workload_contract (RetryOnConflict retry_again k (Apply_attempt sc) w)
      (\<lambda>s (e, x). (e = None \<longrightarrow> applied sc w1 s) \<and> same_object x w1) w1"
    by (rule retry_on_error [where I = "\<lambda>s x. s = w1 \<and> same_object x w1"])
      (use k w1 in \<open>auto simp: same_object_def elim!: meets_mono intro!: meets_mono [OF Apply_attempt_holds]\<close>)
  have rest: "meets workload_contract (if scalable \<and> 0 <s n then pbind (ScaleWorkloadUnderTest L m (wl_Namespace x) n) (\<lambda>e. Ret (e, x))
             else Ret (None, x)) (\<lambda>s (e, x). e = None \<longrightarrow> restored sc w s) s"
    if ap: "applied sc w1 s" and x: "same_object x w1" for s x
  proof -
    from applied_facts [OF ap] obtain \<sigma> p where f: "same_object s w1" "replicas_of s = replicas_of w1"
        "podSpecTemplate w1 = Some p" "podSpecTemplate s = Some (hardened \<sigma> sc p)" by blast
    have ns: "wl_Namespace x = wl_Namespace s" using f(1) x by (simp add: same_object_def)
    have sw: "same_object s w" using f(1) w1(1) by (simp add: same_object_def)
    have done': "restored sc w s'" if "set_replicas n s = Inr s'" "n = count_of w" for s'
      using set_replicas_facts [OF that(1)] f w1 sw that(2) unfolding restored_def by (auto simp: same_object_def)
    have kept': "restored sc w s" if "replicas_of w1 = replicas_of w"
      using f w1 sw that unfolding restored_def by auto
    show ?thesis
    proof (cases "scalable \<and> 0 <s n")
      case True
      with n have "n = count_of w" by simp
      then show ?thesis
        using Scale_holds [OF target_of_same [OF m sw], of L n] True done'
        by (auto simp: ns scaled_def elim!: meets_mono)
    next
      case False
      with n kept' show ?thesis by auto
    qed
  qed
  show ?thesis
  proof (rule meets_pbindI [OF tried])
    fix s and a :: "error option \<times> workload"
    assume a: "case a of (e, x) \<Rightarrow> (e = None \<longrightarrow> applied sc w1 s) \<and> same_object x w1"
    obtain e x where "a = (e, x)" by (cases a)
    with a rest [of s x] show "meets workload_contract (case a of (e, x) \<Rightarrow> (case e of
           Some err \<Rightarrow> Ret (Some err, x)
         | None \<Rightarrow> if scalable \<and> 0 <s n then pbind (ScaleWorkloadUnderTest L m (wl_Namespace x) n) (\<lambda>e. Ret (e, x))
             else Ret (None, x))) (\<lambda>s (e, x). e = None \<longrightarrow> restored sc w s) s"
      by (cases e) simp_all
  qed
qed

lemma applySecurityContext_restores:
  assumes m: "target_of (rn_manager r) w"
  shows "meets workload_contract (applySecurityContext_runner L w (Some sc) r)
     (\<lambda>s (e, x). e = None \<longrightarrow> restored sc w s) w"
proof -
  let ?sca = "ToLower (tr_Kind (ws_TargetRef (whc_Spec (rn_whc r)))) \<noteq> ''daemonset''"
  have scaled_w: "same_object w1 w \<and> podSpecTemplate w1 = podSpecTemplate w" if "scaled 0 w e w1" for e w1
    using that set_replicas_facts unfolding scaled_def by fastforce
  show ?thesis
    unfolding applySecurityContext_runner_def Let_def option.case
    by (cases "?sca")
      (auto simp del: meets_pbind simp: pbind_assoc split: sum.splits
        intro!: meets_pbindI [OF GetReplicaCount_holds [OF m]] meets_pbindI [OF Scale_holds [OF m]]
          apply_then_scale [OF m] dest!: scaled_w)
qed

section \<open>Properties\<close>


abbreviation user_runner :: runner where
  "user_runner \<equiv> NewWorkloadCheckRunner list_lib sample_check ''user''"

lemma user_runner_target: "generateTargetNamespaceName user_runner = ''shop-ab12-user''"
  by (simp add: generateTargetNamespaceName_def NewWorkloadCheckRunner_def sample_check_def) code_simp


text \<open>When the two baseline runs share a clone. The names of the namespaces for \<open>baseline\<close> and \<open>baseline-2\<close> are the same
  exactly when the namespace, cut to 45 characters, and the suffix have 53 characters together; then the second run
  finds the clone of the first.\<close>

theorem baseline_names_collide_iff:
  "target_namespace_name ns suffix ''baseline'' = target_namespace_name ns suffix ''baseline-2'' \<longleftrightarrow>
     min 45 (length ns) + length suffix \<ge> 53"
proof -
  let ?p = "ToLower (take 45 ns @ ''-'' @ suffix @ ''-'' @ ''baseline'')"
  have len: "length ?p = min 45 (length ns) + length suffix + 10" by simp
  have two: "target_namespace_name ns suffix ''baseline-2'' = take 63 (?p @ ToLower ''-2'')"
    by (simp add: target_namespace_name_eq del: ToLower_append flip: ToLower_append)
  have one: "target_namespace_name ns suffix ''baseline'' = take 63 ?p"
    by (simp add: target_namespace_name_eq)
  show ?thesis
  proof (cases "length ?p \<ge> 63")
    case True
    then have "take 63 (?p @ ToLower ''-2'') = take 63 ?p" by simp
    with True len show ?thesis unfolding one two by simp
  next
    case False
    then have "length (take 63 (?p @ ToLower ''-2'')) \<noteq> length (take 63 ?p)" by simp
    then have "take 63 (?p @ ToLower ''-2'') \<noteq> take 63 ?p" by metis
    with False len show ?thesis unfolding one two by simp
  qed
qed

subsection \<open>Logs of a run\<close>

text \<open>Answers that name an object of the namespace that was asked for.\<close>

definition located :: "(call \<times> resp) list \<Rightarrow> bool" where
  "located l \<longleftrightarrow> (\<forall>k ns n w. (GetWorkload k ns n, RWorkload w) \<in> set l \<longrightarrow> wl_Namespace w = ns)"

lemma follow_run:
  "located l \<Longrightarrow> \<exists>t. follow (run_contract L ct tgt key) s l = Some t \<and>
     (gh_stored t \<longrightarrow> gh_stored s \<or> (\<exists>k v d. (KvSet k v d, ROk) \<in> set l)) \<and>
     (\<forall>n \<in> gh_bindings t. n \<in> gh_bindings s \<or> (\<exists>bs b. (ListClusterRoleBindings, RBindings bs) \<in> set l \<and> b \<in> set bs \<and>
        crb_Name b = n \<and> target_label b = tgt))"
proof (induction l arbitrary: s)
  case (Cons p l)
  obtain c a where p: "p = (c, a)" by (cases p)
  let ?G = "run_contract L ct tgt key"
  have ans: "rg_ans ?G s c a"
    using Cons.prems by (cases c; cases a) (auto simp: p located_def run_contract_def)
  have loc: "located l" using Cons.prems by (auto simp: located_def)
  have stored: "gh_stored (rg_next ?G s c a) \<longrightarrow> gh_stored s \<or> (\<exists>k v d. c = KvSet k v d \<and> a = ROk)"
    by (cases c) (auto simp: run_contract_def split: resp.splits)
  have bindings: "\<forall>n \<in> gh_bindings (rg_next ?G s c a). n \<in> gh_bindings s \<or>
      (\<exists>bs b. c = ListClusterRoleBindings \<and> a = RBindings bs \<and> b \<in> set bs \<and> crb_Name b = n \<and> target_label b = tgt)"
    by (cases c; cases a) (auto simp: run_contract_def)
  from Cons.IH [OF loc, of "rg_next ?G s c a"] obtain t where "follow ?G (rg_next ?G s c a) l = Some t"
    and "gh_stored t \<longrightarrow> gh_stored (rg_next ?G s c a) \<or> (\<exists>k v d. (KvSet k v d, ROk) \<in> set l)"
    and "\<forall>n \<in> gh_bindings t. n \<in> gh_bindings (rg_next ?G s c a) \<or> (\<exists>bs b. (ListClusterRoleBindings, RBindings bs) \<in> set l \<and> b \<in> set bs \<and>
        crb_Name b = n \<and> target_label b = tgt)"
    by blast
  with ans stored bindings show ?case by (fastforce simp: p)
qed simp

text \<open>What the contract of a run says of one call of its log.\<close>

lemma RunCheck_at:
  assumes "service_conversion L" and "drive (RunCheck D L lfuel wfuel sc r) rs = (pre @ (c, a) # post, out)" and "located pre"
  shows "\<exists>t. run_may L (rn_conditionType r) (generateTargetNamespaceName r) (recording_key (store_key r @ '':'' @ rn_checkType r)) t c \<and>
     (gh_stored t \<longrightarrow> (\<exists>k v d. (KvSet k v d, ROk) \<in> set pre)) \<and>
     (\<forall>n \<in> gh_bindings t. \<exists>bs b. (ListClusterRoleBindings, RBindings bs) \<in> set pre \<and> b \<in> set bs \<and>
        crb_Name b = n \<and> target_label b = generateTargetNamespaceName r)"
proof -
  let ?key = "recording_key (store_key r @ '':'' @ rn_checkType r)"
  let ?s = "\<lparr>gh_stored = False, gh_bindings = {}\<rparr>"
  let ?G = "run_contract L (rn_conditionType r) (generateTargetNamespaceName r) ?key"
  obtain t where t: "follow ?G ?s pre = Some t" and facts: "gh_stored t \<longrightarrow> (\<exists>k v d. (KvSet k v d, ROk) \<in> set pre)"
     "\<forall>n \<in> gh_bindings t. \<exists>bs b. (ListClusterRoleBindings, RBindings bs) \<in> set pre \<and> b \<in> set bs \<and>
        crb_Name b = n \<and> target_label b = generateTargetNamespaceName r"
    using follow_run [OF assms(3), of L "rn_conditionType r" "generateTargetNamespaceName r" ?key ?s] by auto
  have "meets ?G (RunCheck D L lfuel wfuel sc r) (\<lambda>_ _. True) ?s"
    by (rule RunCheck_in_run [OF assms(1)]) (simp_all add: run_of_def)
  from meets_at [OF this assms(2) t] facts show ?thesis by auto
qed

text \<open>C3: a run of a check stays in its clone. Along every log of \<open>RunCheck\<close> in which the API server answers a Get with an
  object of the namespace asked for, workloads are updated, and namespaces, resources and role bindings
  created, only for the run's target namespace; the only namespace deleted is that target, a cluster role binding
  is deleted only after it was listed with the label of the target, recordings are stored under the key of this run
  only; and no check is created, no other run started, no recording deleted.\<close>

theorem RunCheck_stays_in_clone:
  assumes "service_conversion L" and "drive (RunCheck D L lfuel wfuel sc r) rs = (l, out)" and "located l" and "(c, a) \<in> set l"
  shows "case c of
      UpdateWorkload w \<Rightarrow> wl_Namespace w = generateTargetNamespaceName r
    | CreateNamespace n \<Rightarrow> nsp_Name n = generateTargetNamespaceName r
    | CreateResource u \<Rightarrow> u_Namespace u = generateTargetNamespaceName r
    | CreateClusterRoleBinding b \<Rightarrow> target_label b = generateTargetNamespaceName r \<and> length (crb_Name b) \<le> 253
    | DeleteNamespace n \<Rightarrow> n = generateTargetNamespaceName r
    | DeleteClusterRoleBinding n \<Rightarrow> (\<exists>bs b. (ListClusterRoleBindings, RBindings bs) \<in> set l \<and> b \<in> set bs \<and>
        crb_Name b = n \<and> target_label b = generateTargetNamespaceName r)
    | KvSet k v d \<Rightarrow> k = recording_key (store_key r @ '':'' @ rn_checkType r)
    | CreateWhc _ \<Rightarrow> False | UpdateNhcStatus _ \<Rightarrow> False | KvDel _ \<Rightarrow> False | GoRunCheck _ _ _ \<Rightarrow> False
    | _ \<Rightarrow> True"
proof -
  from assms(4) obtain pre post where l: "l = pre @ (c, a) # post" by (auto simp: in_set_conv_decomp)
  have "located pre" using assms(3) by (auto simp: l located_def)
  from RunCheck_at [OF assms(1) assms(2) [unfolded l] this] obtain t where
    may: "run_may L (rn_conditionType r) (generateTargetNamespaceName r) (recording_key (store_key r @ '':'' @ rn_checkType r)) t c"
    and b: "\<forall>n \<in> gh_bindings t. \<exists>bs b. (ListClusterRoleBindings, RBindings bs) \<in> set pre \<and> b \<in> set bs \<and>
        crb_Name b = n \<and> target_label b = generateTargetNamespaceName r" by blast
  have "\<forall>n \<in> gh_bindings t. \<exists>bs b. (ListClusterRoleBindings, RBindings bs) \<in> set l \<and> b \<in> set bs \<and>
        crb_Name b = n \<and> target_label b = generateTargetNamespaceName r"
    using b unfolding l by fastforce
  with may show ?thesis by (cases c) (simp_all add: run_may_def)
qed


text \<open>A check whose last run was left unfinished, and the namespace it left.\<close>

definition unfinished_check :: Whc where
  "unfinished_check = with_conditions [mk_condition ''userCheck'' ConditionUnknown ReasonCheckNotStarted '''' ] sample_check"

abbreviation unfinished_runner :: runner where
  "unfinished_runner \<equiv> NewWorkloadCheckRunner (configmap_lib list_lib) unfinished_check ''user''"

definition unfinished_answers :: "resp list" where
  "unfinished_answers = [RNamespace \<lparr>nsp_Name = ''shop-ab12-user'', nsp_Labels = []\<rparr>, RNamespace \<lparr>nsp_Name = ''shop-ab12-user'', nsp_Labels = []\<rparr>,
     ROk, RBindings [binding_for ''shop-ab12-user'', binding_for ''other''], ROk]"

lemma unfinished_target: "generateTargetNamespaceName unfinished_runner = ''shop-ab12-user''"
  by (simp add: generateTargetNamespaceName_def NewWorkloadCheckRunner_def unfinished_check_def sample_check_def) code_simp

lemma unfinished_log:
  "drive (RunCheck D (configmap_lib list_lib) lf n sc unfinished_runner) unfinished_answers =
     ([(GetNamespace ''shop-ab12-user'', RNamespace \<lparr>nsp_Name = ''shop-ab12-user'', nsp_Labels = []\<rparr>),
       (GetNamespace ''shop-ab12-user'', RNamespace \<lparr>nsp_Name = ''shop-ab12-user'', nsp_Labels = []\<rparr>),
       (DeleteNamespace ''shop-ab12-user'', ROk),
       (ListClusterRoleBindings, RBindings [binding_for ''shop-ab12-user'', binding_for ''other'']),
       (DeleteClusterRoleBinding ''shop-ab12-user-admin'', ROk)], Waiting (GetNamespace ''shop-ab12-user''))"
proof -
  have ct: "rn_conditionType unfinished_runner = ''userCheck''"
    by (simp add: NewWorkloadCheckRunner_def configmap_lib_def list_lib_def ToLower_def lower_char_def)
  have whc: "rn_whc unfinished_runner = unfinished_check" by (simp add: NewWorkloadCheckRunner_def)
  have unk: "lib_IsStatusConditionPresentAndEqual (configmap_lib list_lib) (conds unfinished_check) ''userCheck'' ConditionUnknown"
    by (simp add: configmap_lib_def list_lib_def unfinished_check_def)
  have lbl: "target_label (binding_for t) = t" "crb_Name (binding_for t) = t @ ''-admin''" for t
    by (simp_all add: target_label_def binding_for_def)
  show ?thesis
    unfolding RunCheck_def prepare_namespace_def Let_def unfinished_target namespaceExists_def Delete_def delete_bindings_def
    by (simp add: drive_ask pbind_assoc ct whc unk unfinished_answers_def items_of_def lbl)
qed

lemma unfinished_located: "located (fst (drive (RunCheck D (configmap_lib list_lib) lf n sc unfinished_runner) unfinished_answers))"
  unfolding unfinished_log by (simp add: located_def)

lemma RunCheck_stays_in_clone_witness:
  "\<exists>bs b. (ListClusterRoleBindings, RBindings bs) \<in>
      set (fst (drive (RunCheck seen_lines (configmap_lib list_lib) 1 26 None unfinished_runner) unfinished_answers)) \<and>
     b \<in> set bs \<and> crb_Name b = ''shop-ab12-user-admin'' \<and> target_label b = ''shop-ab12-user''"
proof -
  have "(DeleteClusterRoleBinding ''shop-ab12-user-admin'', ROk) \<in>
      set (fst (drive (RunCheck seen_lines (configmap_lib list_lib) 1 26 None unfinished_runner) unfinished_answers))"
    unfolding unfinished_log by simp
  from RunCheck_stays_in_clone [OF configmap_lib_conversion surjective_pairing unfinished_located this]
  show ?thesis by (simp add: unfinished_target)
qed


text \<open>A handler that keeps the \<open>responsive\<close> contract, \<open>clk\<close> its reading of the earliest time.\<close>

definition responsive_server :: "(call, resp, 'w) handler \<Rightarrow> ('w \<Rightarrow> int) \<Rightarrow> bool" where
  "responsive_server h clk \<longleftrightarrow> (\<forall>c w r w'. h c w = (r, w') \<longrightarrow>
     rg_ans responsive (clk w) c r \<and> clk w' = rg_next responsive (clk w) c r)"


text \<open>A cluster that has lost the workload; its clock moves when a goroutine sleeps.\<close>

fun lost_workload :: "(call, resp, int) handler" where
  "lost_workload Now t = (RInt t, t)"
| "lost_workload (Sleep d) t = (ROk, t + d)"
| "lost_workload (RetryAgain e) t = (RBool False, t)"
| "lost_workload MapOrder t = (RPicks [], t)"
| "lost_workload c t = (RErr (ApiError NotFound), t)"

lemma lost_workload_responsive: "responsive_server lost_workload (\<lambda>t. t)"
  unfolding responsive_server_def
proof (intro allI impI)
  fix c t r t'
  assume "lost_workload c t = (r, t')"
  then show "rg_ans responsive t c r \<and> t' = rg_next responsive t c r"
    by (cases c) (auto simp: responsive_def answer_of_def or_err_def as_done_def as_int_def as_bool_def as_picks_def)
qed


text \<open>A handler that holds one workload.\<close>

definition holds_workload :: "(call, resp, 'w) handler \<Rightarrow> ('w \<Rightarrow> workload) \<Rightarrow> bool" where
  "holds_workload h held \<longleftrightarrow> (\<forall>c w r w'. h c w = (r, w') \<longrightarrow>
     rg_ans workload_contract (held w) c r \<and> held w' = rg_next workload_contract (held w) c r)"

text \<open>C31: applying a check's context leaves the workload scaled as it was. On a server that holds the workload, when
  \<open>applySecurityContext\<close> reports no error the stored workload is the same object, its template is the original one
  hardened with the context, and its replica count is the original one, or the default of one it stood for.\<close>

theorem applySecurityContext_scales_back:
  assumes "holds_workload h held" and "target_of (rn_manager r) (held w)"
    and "run h (applySecurityContext_runner L (held w) (Some sc) r) w = (Inr (None, x), w')"
  shows "restored sc (held w) (held w')"
proof -
  have "case (Inr (None, x) :: crash + error option \<times> workload) of Inl e \<Rightarrow> rg_crash workload_contract e
     | Inr a \<Rightarrow> (case a of (e, x) \<Rightarrow> e = None \<longrightarrow> restored sc (held w) (held w'))"
    by (rule meets_run [where view = held and w = w and G = workload_contract and h = h and
          Q = "\<lambda>s (e, x). e = None \<longrightarrow> restored sc (held w) s", OF applySecurityContext_restores [OF assms(2)] _ assms(3)])
      (use assms(1) in \<open>simp add: holds_workload_def\<close>)
  then show ?thesis by simp
qed

fun one_workload :: "(call, resp, workload) handler" where
  "one_workload (GetWorkload k ns n) wl = (RWorkload wl, wl)"
| "one_workload (UpdateWorkload x) wl = (ROk, x)"
| "one_workload (RetryAgain e) wl = (RBool False, wl)"
| "one_workload MapOrder wl = (RPicks [], wl)"
| "one_workload c wl = (ROk, wl)"

lemma one_workload_holds: "holds_workload one_workload (\<lambda>wl. wl)"
  unfolding holds_workload_def
proof (intro allI impI)
  fix c wl r wl'
  assume "one_workload c wl = (r, wl')"
  then show "rg_ans workload_contract wl c r \<and> wl' = rg_next workload_contract wl c r"
    by (cases c) (auto simp: workload_contract_def)
qed

lemma applySecurityContext_scales_back_witness:
  "\<exists>x wl'. run one_workload (applySecurityContext_runner list_lib (WDeployment root_deployment) (Some no_defaults) user_runner)
      (WDeployment root_deployment) = (Inr (None, x), wl') \<and> restored no_defaults (WDeployment root_deployment) wl'"
proof -
  have kind: "tr_Kind (ws_TargetRef (whc_Spec sample_check)) = ''Deployment''" "tr_Name (ws_TargetRef (whc_Spec sample_check)) = ''web''"
    by (simp_all add: sample_check_def)
  have r: "rn_whc user_runner = sample_check" "rn_manager user_runner = sample_check" by (simp_all add: NewWorkloadCheckRunner_def)
  have two: "0 <s (2 :: int32)" by (simp add: word_sless_alt)
  have sca: "ToLower ''Deployment'' \<noteq> ''daemonset''" by code_simp
  have retries: "lib_retries list_lib = Suc (Suc (Suc (Suc 0)))" by (simp add: list_lib_def)
  have dep: "dep_Replicas root_deployment = Some 2" "dep_Name root_deployment = ''web''" "dep_Namespace root_deployment = ''shop''"
    "containers_of (WDeployment (root_deployment\<lparr>dep_Replicas := n\<rparr>)) = Suc 0" for n
    by (simp_all add: root_deployment_def containers_of_def)
  have "\<exists>x wl'. run one_workload (applySecurityContext_runner list_lib (WDeployment root_deployment) (Some no_defaults) user_runner)
      (WDeployment root_deployment) = (Inr (None, x), wl')"
    unfolding applySecurityContext_runner_def GetReplicaCount_def ScaleWorkloadUnderTest_def GetWorkloadUnderTest_def Let_def r kind retries
    by (simp add: run_pbind run_ask kind_of_Deployment sca two dep Scale_attempt_def Apply_attempt_def ApplyCheckSecurityContext_def)
  then obtain x wl' where run: "run one_workload (applySecurityContext_runner list_lib (WDeployment root_deployment) (Some no_defaults) user_runner)
      (WDeployment root_deployment) = (Inr (None, x), wl')" by blast
  have "target_of (rn_manager user_runner) (WDeployment root_deployment)"
    unfolding r target_of_def kind kind_of_Deployment by (simp add: dep)
  from applySecurityContext_scales_back [OF one_workload_holds this run] run show ?thesis by blast
qed

end
