(* ===== verification/WorkloadReconcile.thy ===== *)
theory WorkloadReconcile
  imports Runner Analysis
begin

text \<open>
  \<^verbatim>\<open>internal/controller/workload/workloadhardeningcheck_controller.go\<close>: one pass of the
  reconciliation of a \<open>WorkloadHardeningCheck\<close>. \<open>whc\<close> is the object the pass fetched first, \<open>m\<close> the
  manager's own copy, which its methods re-fetch. A started goroutine is the call \<open>GoRunCheck\<close> with
  the fetched object, the check type and the context it was given.
\<close>

text \<open>\<open>ctrl.Result\<close> is its \<open>RequeueAfter\<close> (0: none); a pass returns it with an error.\<close>

type_synonym reconcile_result = "int \<times> error option"

abbreviation done_result :: reconcile_result where "done_result \<equiv> (0, None)"

definition is_true :: "lib \<Rightarrow> Condition list \<Rightarrow> string \<Rightarrow> bool" where
  "is_true L cs ty = lib_IsStatusConditionPresentAndEqual L cs ty ConditionTrue"

text \<open>A \<open>SetCondition\<close> whose error is dropped.\<close>

definition set_cond :: "lib \<Rightarrow> string \<Rightarrow> ConditionStatus \<Rightarrow> string \<Rightarrow> string \<Rightarrow> Whc \<Rightarrow> Whc io" where
  "set_cond L ty st re me m = pbind (SetCondition L (mk_condition ty st re me) m) (\<lambda>(_, m). Ret m)"

section \<open>Baseline\<close>

definition recordBaseline :: "lib \<Rightarrow> Whc \<Rightarrow> Whc \<Rightarrow> reconcile_result io" where
  "recordBaseline L whc m =
     pbind (go_run_check whc ''baseline'' (ws_SecurityContext (whc_Spec whc))) (\<lambda>_.
     pbind (set_cond L ConditionTypeFinished ConditionFalse ReasonBaselineRecording ''Baseline recording started'' m) (\<lambda>m.
     pbind (ask (RandIntn 9) as_int) (\<lambda>n.
     pbind (sleep ((10 + n) * second)) (\<lambda>_.
     pbind (go_run_check whc ''baseline-2'' (ws_SecurityContext (whc_Spec whc))) (\<lambda>_.
       Ret (duration_add (GetCheckDuration m) (10 * second), None))))))"

section \<open>Checks\<close>

text \<open>
  Whether a check of the loop is to be started: not if it is recorded, not if it is in progress and
  not overdue; an overdue one is marked for requeuing first.
\<close>

definition may_start :: "lib \<Rightarrow> string \<Rightarrow> string \<Rightarrow> Whc \<Rightarrow> (bool \<times> Whc) io" where
  "may_start L requeueMessage checkType m =
     pbind (CheckRecorded L checkType m) (\<lambda>(recorded, m).
       if recorded then Ret (False, m)
       else pbind (CheckInProgress L checkType m) (\<lambda>(running, m).
         if running
         then pbind (CheckOverdue L checkType m) (\<lambda>(overdue, m).
           if overdue
           then pbind (set_cond L (check_condition L checkType) ConditionUnknown ReasonRequeue requeueMessage m) (\<lambda>m. Ret (True, m))
           else Ret (False, m))
         else Ret (True, m)))"

definition start_check :: "Whc \<Rightarrow> string \<Rightarrow> Whc \<Rightarrow> Whc io" where
  "start_check whc checkType m =
     pbind (lift_go (GetSecurityContextForCheckType checkType m)) (\<lambda>(sc, m).
     pbind (go_run_check whc checkType (Some sc)) (\<lambda>_. Ret m))"

definition parallel_round :: "lib \<Rightarrow> Whc \<Rightarrow> string \<Rightarrow> Whc \<Rightarrow> Whc io" where
  "parallel_round L whc checkType m =
     pbind (may_start L ''Check is still running, but last transition time is older than 2x duration, requeuing'' checkType m)
       (\<lambda>(go, m). if go then start_check whc checkType m else Ret m)"

text \<open>The sequential loop returns after the first check it starts.\<close>

primrec sequential_loop :: "lib \<Rightarrow> Whc \<Rightarrow> string list \<Rightarrow> Whc \<Rightarrow> reconcile_result io" where
  "sequential_loop L whc [] m = Ret done_result"
| "sequential_loop L whc (checkType # ts) m =
     pbind (may_start L ''Check is still running, but last transition time is older than duration + 1 minute, requeuing'' checkType m)
       (\<lambda>(go, m). if go
          then pbind (start_check whc checkType m) (\<lambda>m. Ret (duration_add (GetCheckDuration m) (10 * second), None))
          else sequential_loop L whc ts m)"

definition recordChecks :: "lib \<Rightarrow> Whc \<Rightarrow> Whc \<Rightarrow> reconcile_result io" where
  "recordChecks L whc m =
     pbind (GetRequiredCheckRuns L m) (\<lambda>(requiredChecks, m).
     pbind (set_cond L ConditionTypeFinished ConditionFalse ReasonCheckRecording ''Check recording started'' m) (\<lambda>m.
       if ws_RunMode (whc_Spec whc) = RunModeParallel
       then pbind (pfold (parallel_round L whc) requiredChecks m) (\<lambda>m. Ret (duration_add (GetCheckDuration m) (10 * second), None))
       else sequential_loop L whc requiredChecks m))"

section \<open>Cleaning up\<close>

definition cleanupReconcileLoop :: "string \<Rightarrow> reconcile_result io" where
  "cleanupReconcileLoop sourceNamespace =
     pbind (list_namespaces [(''orakel.fhnw.ch/source-namespace'', sourceNamespace)]) (\<lambda>r. case r of
       Inl e \<Rightarrow> Ret (0, Some e)
     | Inr items \<Rightarrow>
         if length items = 0 then Ret done_result
         else pbind (pfold (\<lambda>ns _. pbind (Delete (nsp_Name ns)) (\<lambda>_. Ret ())) items ()) (\<lambda>_. Ret done_result))"

section \<open>Reconcile\<close>

text \<open>The analysis once all checks have finished: None where the pass goes on.\<close>

definition analyze_results :: "'d drain \<Rightarrow> 'f float64 \<Rightarrow> lib \<Rightarrow> Whc \<Rightarrow> (reconcile_result option \<times> Whc) io" where
  "analyze_results D F L m =
     pbind (set_cond L ConditionTypeFinished ConditionFalse ReasonAnalysisRunning ''Check runs are being analyzed'' m) (\<lambda>m.
     pbind (set_cond L ConditionTypeAnalysis ConditionFalse ReasonAnalysisRunning ''Check runs are being analyzed'' m) (\<lambda>m.
     pbind (AnalyzeCheckRuns D F L m) (\<lambda>(e, m). case e of
       Some err \<Rightarrow>
         pbind (set_cond L ConditionTypeAnalysis ConditionTrue ReasonAnalysisFailed
             (''Analyzing check runs failed: '' @ lib_Error L err) m) (\<lambda>m.
         pbind (set_cond L ConditionTypeFinished ConditionTrue ReasonAnalysisFailed
             ''Analyzing check runs failed, cannot proceed with checks. Check the CheckResultAnalysis condition for more details.'' m) (\<lambda>m.
           Ret (Some done_result, m)))
     | None \<Rightarrow>
         pbind (SetRecommendation L m) (\<lambda>(_, m).
         pbind (set_cond L ConditionTypeAnalysis ConditionTrue ReasonAnalysisFinished ''Check runs are analyzed'' m) (\<lambda>m.
         pbind (set_cond L ConditionTypeFinished ConditionFalse ReasonAnalysisRunning
             ''Check runs are analyzed, waiting for final check run'' m) (\<lambda>m. Ret (None, m)))))))"

definition some_baseline_failed :: "Whc \<Rightarrow> bool" where
  "some_baseline_failed whc = list_ex (\<lambda>b. cr_CheckSuccessfull b = None \<or> cr_CheckSuccessfull b = Some False)
     (wst_BaselineRuns (whc_Status whc))"

text \<open>From the baseline on.\<close>

definition reconcile_recording :: "lib \<Rightarrow> Whc \<Rightarrow> Whc \<Rightarrow> reconcile_result io" where
  "reconcile_recording L whc m =
     (let duration = GetCheckDuration m in
      pbind (BaselineInProgress L m) (\<lambda>(running, m).
        if running
        then pbind (BaselineOverdue L m) (\<lambda>(overdue, m).
          pbind (if overdue
                 then set_cond L ConditionTypeBaseline ConditionUnknown ReasonRequeue
                   ''Baseline recording is still running, but last transition time is older than 2x duration, requeuing'' m
                 else Ret m) (\<lambda>m. Ret (duration sdiv 2, None)))
        else pbind (BaselineRecorded L m) (\<lambda>(recorded, m).
          if \<not> recorded then recordBaseline L whc m
          else pbind (BaselineRecorded L m) (\<lambda>(recorded, m).
            if recorded \<and> some_baseline_failed whc
            then pbind (set_cond L ConditionTypeFinished ConditionTrue ReasonBaselineRecordingFailed
                ''Baseline recording failed, aborting further checks'' m) (\<lambda>m. Ret done_result)
            else pbind (BaselineRecorded L m) (\<lambda>(recorded, m).
              if \<not> recorded then Ret done_result
              else pbind (AllChecksFinished L m) (\<lambda>(finished, m).
                if \<not> finished then recordChecks L whc m else Ret done_result))))))"

text \<open>The final run.\<close>

definition reconcile_final :: "lib \<Rightarrow> Whc \<Rightarrow> Whc \<Rightarrow> reconcile_result io" where
  "reconcile_final L whc m =
     pbind (FinalCheckInProgress L m) (\<lambda>(running, m).
       if running
       then pbind (FinalCheckOverdue L m) (\<lambda>(overdue, m).
         pbind (if overdue
                then set_cond L ConditionTypeFinalCheck ConditionUnknown ReasonRequeue
                  ''Final check recording is still running, but last transition time is older than 2x duration, requeuing'' m
                else Ret m) (\<lambda>m. Ret (GetCheckDuration m sdiv 2, None)))
       else pbind (if RecommendationExists m then pbind (FinalCheckRecorded L m) (\<lambda>(b, m). Ret (\<not> b, m)) else Ret (False, m)) (\<lambda>(start, m).
         if start
         then pbind (go_run_check whc ''Final'' (GetRecommendedSecurityContext m)) (\<lambda>_.
              pbind (set_cond L ConditionTypeFinished ConditionFalse (''Final'' @ ReasonCheckRecording)
                ''Final check run with recommended security context started'' m) (\<lambda>m.
              Ret (duration_add (GetCheckDuration m) (10 * second), None)))
         else reconcile_recording L whc m))"

definition reconcile_analysis :: "'d drain \<Rightarrow> 'f float64 \<Rightarrow> lib \<Rightarrow> Whc \<Rightarrow> Whc \<Rightarrow> reconcile_result io" where
  "reconcile_analysis D F L whc m =
     pbind (AllChecksFinished L m) (\<lambda>(finished, m).
     pbind (if finished \<and> \<not> is_true L (conds whc) ConditionTypeAnalysis then analyze_results D F L m else Ret (None, m)) (\<lambda>(r, m).
       case r of
         Some res \<Rightarrow> Ret res
       | None \<Rightarrow>
           if lib_IsStatusConditionPresentAndEqual L (conds whc) ConditionTypeFinalCheck ConditionUnknown
           then pbind (SetCondition L (mk_condition ConditionTypeFinished ConditionTrue ''FinalCheckFailed''
               ''Final check run failed, cannot proceed with checks'') m) (\<lambda>(e, m). Ret (0, e))
           else reconcile_final L whc m))"

definition Reconcile :: "'d drain \<Rightarrow> 'f float64 \<Rightarrow> lib \<Rightarrow> string \<Rightarrow> string \<Rightarrow> reconcile_result io" where
  "Reconcile D F L name namespace =
     pbind (get_whc name namespace) (\<lambda>g. case g of
       Inl e \<Rightarrow> if IsNotFound e then cleanupReconcileLoop namespace else Ret (1 * minute, Some e)
     | Inr whc \<Rightarrow>
         if is_true L (conds whc) ConditionTypeFinished then Ret done_result
         else
           let m = whc
           in pbind (if RecommendationExists m then FinalCheckRecorded L m else Ret (False, m)) (\<lambda>(recorded, m).
                if recorded
                then pbind (SetCondition L (mk_condition ConditionTypeFinished ConditionTrue ConditionTypeFinished
                      ''Finished, recommendation ready'') m) (\<lambda>(e, m). case e of
                    Some err \<Rightarrow> Ret (0, Some err)
                  | None \<Rightarrow> pbind (RemoveCheckConditions L m) (\<lambda>(e, m). Ret (0, e)))
                else reconcile_analysis D F L whc m))"

section \<open>Facts: which runs a pass starts\<close>

text \<open>
  The runs a pass starts are its \<open>GoRunCheck\<close> calls. The contract follows them: the ghost state
  is the list of runs started so far, and each prefix of it has to satisfy \<open>ok\<close>.
\<close>

type_synonym start = "Whc \<times> string \<times> SecurityContextDefaults option"

fun start_of :: "call \<Rightarrow> start list" where
  "start_of (GoRunCheck w t sc) = [(w, t, sc)]"
| "start_of c = []"

definition started :: "call list \<Rightarrow> start list" where
  "started cs = concat (map start_of cs)"

definition starting :: "(start list \<Rightarrow> bool) \<Rightarrow> (start list, call, resp) contract" where
  "starting ok = \<lparr>rg_may = (\<lambda>s c. ok (s @ start_of c)), rg_ans = (\<lambda>_ _ _. True),
     rg_next = (\<lambda>s c _. s @ start_of c), rg_crash = (\<lambda>_. True)\<rparr>"

lemma starting_simps [simp]:
  "rg_may (starting ok) s c \<longleftrightarrow> ok (s @ start_of c)" "rg_ans (starting ok) s c r" "rg_crash (starting ok) e"
  "rg_next (starting ok) s c r = s @ start_of c"
  by (simp_all add: starting_def)

lemma starting_issued: "meets (starting ok) p Q s \<Longrightarrow> ok s \<Longrightarrow> ok (s @ started (issued p rs))"
proof (induction p arbitrary: s rs)
  case (Call c k)
  then have here: "ok (s @ start_of c)" and rest: "\<And>r. meets (starting ok) (k r) Q (s @ start_of c)" by auto
  show ?case
  proof (cases rs)
    case Nil
    with here show ?thesis by (simp add: started_def)
  next
    case (Cons r rs')
    with Call.IH [OF _ rest here, of r rs'] show ?thesis by (simp add: started_def)
  qed
qed (simp_all add: started_def)

text \<open>Calls that start no run and change nothing but the status of a check.\<close>

definition plain_call :: "call \<Rightarrow> bool" where
  "plain_call c = (case c of
     GoRunCheck _ _ _ \<Rightarrow> False | UpdateWorkload _ \<Rightarrow> False | CreateNamespace _ \<Rightarrow> False | CreateResource _ \<Rightarrow> False
   | CreateClusterRoleBinding _ \<Rightarrow> False | CreateWhc _ \<Rightarrow> False | DeleteNamespace _ \<Rightarrow> False | DeleteClusterRoleBinding _ \<Rightarrow> False
   | UpdateNhcStatus _ \<Rightarrow> False | KvSet _ _ _ \<Rightarrow> False | KvDel _ \<Rightarrow> False | _ \<Rightarrow> True)"

lemma plain_call_simps [simp]:
  "plain_call (GetWhc a b)" "plain_call (UpdateWhcStatus x)" "plain_call (GetWorkload k a b)" "plain_call (KvGet a)" "plain_call Now"
  "plain_call MapOrder" "plain_call (RetryAgain e)" "plain_call (Event a b a')" "plain_call (RandIntn d)" "plain_call (Sleep d)"
  "plain_call (ListNamespaces ls)" "\<not> plain_call (GoRunCheck w t sc)"
  by (simp_all add: plain_call_def)

lemma plain_start: "plain_call c \<Longrightarrow> start_of c = []"
  by (cases c) (simp_all add: plain_call_def)

abbreviation plain :: "'a io \<Rightarrow> bool" where
  "plain \<equiv> calls_only plain_call"

text \<open>A part that starts nothing keeps the ghost state and gives what it can return.\<close>

lemma plain_meets: "plain p \<Longrightarrow> ensures Q p \<Longrightarrow> ok s \<Longrightarrow> meets (starting ok) p (\<lambda>s' a. s' = s \<and> Q a) s"
  unfolding calls_only_def by (induction p) (auto simp: plain_start)

lemma plain_then:
  assumes "plain p" and "ensures P p" and "ok s" and "\<And>a. P a \<Longrightarrow> meets (starting ok) (f a) Q s"
  shows "meets (starting ok) (pbind p f) Q s"
  unfolding meets_pbind using plain_meets [of p P ok s, OF assms(1-3)]
  by (rule meets_mono) (use assms(4) in blast)

lemma plain_step:
  assumes "plain p" and "ok s" and "\<And>a. meets (starting ok) (f a) Q s"
  shows "meets (starting ok) (pbind p f) Q s"
  using assms(1) ensures_True assms(2) by (rule plain_then) (rule assms(3))

lemma plain_end: "plain p \<Longrightarrow> ok s \<Longrightarrow> meets (starting ok) p (\<lambda>s' _. s' = s) s"
  using plain_meets [of p "\<lambda>_. True"] by simp

lemma plain_last: "plain p \<Longrightarrow> ok s \<Longrightarrow> meets (starting ok) (pbind p (\<lambda>a. Ret (f a))) (\<lambda>_ _. True) s"
  by (rule plain_step) simp_all

lemma start_then:
  assumes "ok (s @ [(w, t, sc)])" and "meets (starting ok) (f None) Q (s @ [(w, t, sc)])"
    and "\<And>e. meets (starting ok) (f (Some e)) Q (s @ [(w, t, sc)])"
  shows "meets (starting ok) (pbind (go_run_check w t sc) f) Q s"
  using assms by (auto simp: meets_ask as_done_def split: resp.splits)

subsection \<open>The parts that start nothing\<close>

lemma plain_conditions [simp]:
  "plain (SetCondition L c m)" "plain (RemoveCheckConditions L m)" "plain (ask_reason L ty st rs m)"
  "plain (set_cond L ty st re me m)"
  unfolding SetCondition_def RemoveCheckConditions_def SetCondition_attempt_def RemoveCheckConditions_attempt_def
    ask_reason_def refreshWorkloadHardeningCheck_def set_cond_def Let_def
  by (auto intro!: calls_intros)

lemma plain_overdue: "(\<And>m. plain (p m)) \<Longrightarrow> plain (ask_overdue L ty p m)"
  unfolding ask_overdue_def by (auto intro!: calls_intros)

lemmas recorded_defs = BaselineRecorded_def BaselineInProgress_def FinalCheckRecorded_def FinalCheckInProgress_def
  CheckRecorded_def CheckInProgress_def

lemma plain_questions [simp]:
  "plain (BaselineRecorded L m)" "plain (BaselineInProgress L m)" "plain (FinalCheckRecorded L m)"
  "plain (FinalCheckInProgress L m)" "plain (CheckRecorded L t m)" "plain (CheckInProgress L t m)"
  by (simp_all add: recorded_defs)

lemma plain_overdues [simp]:
  "plain (BaselineOverdue L m)" "plain (FinalCheckOverdue L m)" "plain (CheckOverdue L t m)"
  unfolding BaselineOverdue_def FinalCheckOverdue_def CheckOverdue_def by (auto intro!: plain_overdue)

lemma plain_GetWorkloadUnderTest [simp]: "plain (GetWorkloadUnderTest m ns)"
  unfolding GetWorkloadUnderTest_def Let_def by (auto intro!: calls_intros)

lemma plain_require [simp]: "plain (require_check L w c s)"
  unfolding require_check_def Let_def by (auto intro!: calls_intros split: prod.splits)

lemma plain_GetRequiredCheckRuns [simp]: "plain (GetRequiredCheckRuns L m)"
  unfolding GetRequiredCheckRuns_def by (auto intro!: calls_intros)

lemma plain_all_recorded [simp]: "plain (all_recorded L ts m)"
  by (induction ts arbitrary: m) (auto intro!: calls_intros)

lemma plain_AllChecksFinished [simp]: "plain (AllChecksFinished L m)"
  unfolding AllChecksFinished_def refreshWorkloadHardeningCheck_def by (auto intro!: calls_intros)

lemma plain_SetRecommendation [simp]: "plain (SetRecommendation L m)"
  unfolding SetRecommendation_def SetRecommendation_attempt_def GetPodSpecTemplate_def merge_context_def Let_def
  by (auto intro!: calls_intros split: prod.splits)

lemma plain_may_start [simp]: "plain (may_start L msg t m)"
  unfolding may_start_def by (auto intro!: calls_intros)

lemma GetRequiredCheckRuns_known:
  "ensures (\<lambda>(types, m'). distinct types \<and> set types \<subseteq> range GetType) (GetRequiredCheckRuns L m)"
proof -
  have loop: "ensures (\<lambda>(types, m'). set types \<subseteq> range GetType) (pfold (require_check L w) cs ([], m))" for w cs m
  proof (rule ensures_pfold)
    fix c and s :: "string list \<times> Whc"
    assume "case s of (types, m') \<Rightarrow> set types \<subseteq> range GetType"
    then show "ensures (\<lambda>(types, m'). set types \<subseteq> range GetType) (require_check L w c s)"
      by (cases s; cases c) (auto simp: require_check_def Let_def split: prod.splits intro!: ensures_mono [OF ensures_True])
  qed simp
  show ?thesis
    unfolding GetRequiredCheckRuns_def
  proof (rule ensures_pbindI [OF ensures_True])
    fix r
    show "ensures (\<lambda>(types, m'). distinct types \<and> set types \<subseteq> range GetType) (case r of Inl e \<Rightarrow> Ret ([], m)
       | Inr w \<Rightarrow> pbind map_order (\<lambda>\<sigma>. pbind (pfold (require_check L w) (arrange \<sigma> (GetAllChecks init_registry)) ([], m))
           (\<lambda>(types, m'). pbind map_order (\<lambda>\<sigma>'. Ret (collect_keys \<sigma>' types, m')))))"
    proof (cases r)
      case (Inr w)
      show ?thesis
        unfolding Inr sum.case
        by (intro ensures_pbindI [OF ensures_True] ensures_pbindI [OF loop]) auto
    qed simp
  qed
qed

lemma plain_AnalyzeCheckRuns [simp]: "plain (AnalyzeCheckRuns D F L m)"
  by (rule calls_only_mono [OF analysis_stores_judged]) (auto simp: analysis_call_def plain_call_def split: call.splits)

lemma plain_analyze_results [simp]: "plain (analyze_results D F L m)"
  unfolding analyze_results_def by (auto intro!: calls_intros)

lemmas plain_programs = plain_conditions plain_questions plain_overdues plain_GetRequiredCheckRuns plain_AllChecksFinished
  plain_SetRecommendation plain_may_start plain_analyze_results

subsection \<open>The runs of a pass\<close>

text \<open>
  Everything one pass may start for the object \<open>whc\<close> it fetched: nothing; the baseline and then
  the second baseline, with the user's own context; the final run; or check runs, each type at
  most once, in sequential mode a single one, each with the defaults of its check.
\<close>

definition check_start :: "Whc \<Rightarrow> start \<Rightarrow> bool" where
  "check_start whc s \<longleftrightarrow> fst s = whc \<and> (\<exists>c base sc. s = (whc, GetType c, Some sc) \<and> GetSecurityContextDefaults c base = Inr sc)"

definition pass_starts :: "Whc \<Rightarrow> start list \<Rightarrow> bool" where
  "pass_starts whc ss \<longleftrightarrow>
     (\<exists>n. ss = take n [(whc, ''baseline'', ws_SecurityContext (whc_Spec whc)), (whc, ''baseline-2'', ws_SecurityContext (whc_Spec whc))]) \<or>
     (\<exists>m. ss = [(whc, ''Final'', GetRecommendedSecurityContext m)]) \<or>
     (list_all (check_start whc) ss \<and> distinct (map (\<lambda>(_, t, _). t) ss) \<and>
      (ws_RunMode (whc_Spec whc) = RunModeParallel \<or> length ss \<le> 1))"

lemma pass_starts_none [simp]: "pass_starts whc []"
  by (auto simp: pass_starts_def intro: exI [of _ 0])

lemma pass_starts_baseline [simp]:
  "pass_starts whc [(whc, ''baseline'', ws_SecurityContext (whc_Spec whc))]"
  "pass_starts whc [(whc, ''baseline'', ws_SecurityContext (whc_Spec whc)), (whc, ''baseline-2'', ws_SecurityContext (whc_Spec whc))]"
  unfolding pass_starts_def by (rule disjI1, rule exI [of _ 1], simp) (rule disjI1, rule exI [of _ 2], simp)

lemma meets_recordBaseline: "meets (starting (pass_starts whc)) (recordBaseline L whc m) (\<lambda>_ _. True) []"
  unfolding recordBaseline_def
  by (intro start_then plain_step; simp)

lemma start_check_meets:
  assumes "t \<in> range GetType"
    and ok: "\<And>sc. check_start whc (whc, t, Some sc) \<Longrightarrow> pass_starts whc (ss @ [(whc, t, Some sc)])"
  shows "meets (starting (pass_starts whc)) (start_check whc t m)
    (\<lambda>ss' _. \<exists>sc. check_start whc (whc, t, Some sc) \<and> ss' = ss @ [(whc, t, Some sc)]) ss"
proof (cases "GetSecurityContextForCheckType t m")
  case (Inr r)
  obtain sc m' where r: "r = (sc, m')" by (cases r)
  from assms(1) obtain c where t: "t = GetType c" by blast
  then have "map_of (GetAllChecks init_registry) t = Some c" by (simp add: GetAllChecks_def init_registry_checks)
  with Inr r t have "\<exists>base. GetSecurityContextDefaults c base = Inr sc"
    by (auto simp: GetSecurityContextForCheckType_def split: option.splits sum.splits)
  with t have cs: "check_start whc (whc, t, Some sc)" by (auto simp: check_start_def)
  show ?thesis
    using ok [OF cs] cs by (auto simp: start_check_def Inr r meets_ask as_done_def split: option.splits resp.splits)
qed (simp add: start_check_def)

definition runs_of :: "Whc \<Rightarrow> string set \<Rightarrow> start list \<Rightarrow> bool" where
  "runs_of whc ts ss \<longleftrightarrow> list_all (check_start whc) ss \<and> distinct (map (\<lambda>(_, t, _). t) ss) \<and>
     (\<lambda>(_, t, _). t) ` set ss \<inter> ts = {}"

lemma runs_of_starts: "runs_of whc ts ss \<Longrightarrow> ws_RunMode (whc_Spec whc) = RunModeParallel \<Longrightarrow> pass_starts whc ss"
  by (simp add: runs_of_def pass_starts_def)

lemma runs_of_snoc:
  "runs_of whc (insert t ts) ss \<Longrightarrow> t \<notin> ts \<Longrightarrow> check_start whc (whc, t, Some sc) \<Longrightarrow> runs_of whc ts (ss @ [(whc, t, Some sc)])"
  by (auto simp: runs_of_def)

lemma runs_of_less: "runs_of whc (insert t ts) ss \<Longrightarrow> runs_of whc ts ss"
  by (auto simp: runs_of_def)

lemma parallel_round_meets:
  assumes par: "ws_RunMode (whc_Spec whc) = RunModeParallel" and t: "t \<in> range GetType" "t \<notin> ts"
    and ss: "runs_of whc (insert t ts) ss"
  shows "meets (starting (pass_starts whc)) (parallel_round L whc t m) (\<lambda>ss' _. runs_of whc ts ss') ss"
  unfolding parallel_round_def
proof (rule plain_step [where ok = "pass_starts whc", OF plain_may_start runs_of_starts [OF ss par]], clarify)
  fix go m'
  have "meets (starting (pass_starts whc)) (start_check whc t m')
      (\<lambda>ss' _. \<exists>sc. check_start whc (whc, t, Some sc) \<and> ss' = ss @ [(whc, t, Some sc)]) ss"
    by (rule start_check_meets [OF t(1)]) (rule runs_of_starts [OF runs_of_snoc [OF ss t(2)] par])
  then show "meets (starting (pass_starts whc)) (if go then start_check whc t m' else Ret m') (\<lambda>ss' _. runs_of whc ts ss') ss"
    by (auto elim!: meets_mono intro: runs_of_snoc [OF ss t(2)] runs_of_less [OF ss])
qed

lemma parallel_loop_meets:
  assumes par: "ws_RunMode (whc_Spec whc) = RunModeParallel"
  shows "set ts \<subseteq> range GetType \<Longrightarrow> distinct ts \<Longrightarrow> runs_of whc (set ts) ss \<Longrightarrow>
    meets (starting (pass_starts whc)) (pfold (parallel_round L whc) ts m) (\<lambda>_ _. True) ss"
proof (induction ts arbitrary: ss m)
  case (Cons t ts)
  then have "meets (starting (pass_starts whc)) (parallel_round L whc t m) (\<lambda>ss' _. runs_of whc (set ts) ss') ss"
    by (intro parallel_round_meets [OF par]) auto
  then show ?case
    using Cons by (auto elim!: meets_mono)
qed simp

lemma sequential_loop_meets:
  "set ts \<subseteq> range GetType \<Longrightarrow> meets (starting (pass_starts whc)) (sequential_loop L whc ts m) (\<lambda>_ _. True) []"
proof (induction ts arbitrary: m)
  case (Cons t ts)
  have start: "meets (starting (pass_starts whc)) (pbind (start_check whc t m') (\<lambda>m. Ret (duration_add (GetCheckDuration m) (10 * second), None)))
      (\<lambda>_ _. True) []" for m'
    unfolding meets_pbind using Cons.prems
    by (intro meets_mono [OF start_check_meets]) (auto simp: pass_starts_def)
  have rest: "meets (starting (pass_starts whc)) (sequential_loop L whc ts m') (\<lambda>_ _. True) []" for m'
    using Cons by simp
  show ?case
    unfolding sequential_loop.simps
    by (rule plain_step) (use start rest in \<open>auto simp del: meets_pbind split: prod.splits\<close>)
qed simp

lemma recordChecks_meets: "meets (starting (pass_starts whc)) (recordChecks L whc m) (\<lambda>_ _. True) []"
  unfolding recordChecks_def
proof (rule plain_then [where ok = "pass_starts whc", OF plain_GetRequiredCheckRuns GetRequiredCheckRuns_known pass_starts_none], clarify)
  fix ts m'
  assume ts: "distinct ts" "set ts \<subseteq> range GetType"
  have "runs_of whc (set ts) []" by (simp add: runs_of_def)
  note loops = parallel_loop_meets [OF _ ts(2,1) this] sequential_loop_meets [OF ts(2)]
  show "meets (starting (pass_starts whc))
     (pbind (set_cond L ConditionTypeFinished ConditionFalse ReasonCheckRecording ''Check recording started'' m') (\<lambda>m.
       if ws_RunMode (whc_Spec whc) = RunModeParallel
       then pbind (pfold (parallel_round L whc) ts m) (\<lambda>m. Ret (duration_add (GetCheckDuration m) (10 * second), None))
       else sequential_loop L whc ts m)) (\<lambda>_ _. True) []"
    by (rule plain_step) (use loops in auto)
qed

lemma reconcile_recording_meets: "meets (starting (pass_starts whc)) (reconcile_recording L whc m) (\<lambda>_ _. True) []"
  unfolding reconcile_recording_def Let_def
  by (auto intro!: plain_step plain_last meets_recordBaseline recordChecks_meets simp del: meets_pbind split: prod.splits)

lemma start_final_meets:
  "meets (starting (pass_starts whc)) (pbind (go_run_check whc ''Final'' (GetRecommendedSecurityContext m)) (\<lambda>_.
      pbind (set_cond L ty st re me m) (\<lambda>m. Ret (f m)))) (\<lambda>_ _. True) []"
proof -
  have "pass_starts whc [(whc, ''Final'', GetRecommendedSecurityContext m)]"
    unfolding pass_starts_def by blast
  then show ?thesis by (intro start_then plain_last) simp_all
qed

lemma quiet_final_guard [simp]: "plain (pbind (FinalCheckRecorded L m) (\<lambda>(b, m). Ret (\<not> b, m)))"
  by (rule calls_only_pbind) (auto split: prod.splits)

lemma reconcile_final_meets: "meets (starting (pass_starts whc)) (reconcile_final L whc m) (\<lambda>_ _. True) []"
  unfolding reconcile_final_def
  by (intro plain_step; auto intro!: plain_step plain_last start_final_meets reconcile_recording_meets simp del: meets_pbind
    split: prod.splits)

lemma reconcile_analysis_meets: "meets (starting (pass_starts whc)) (reconcile_analysis D F L whc m) (\<lambda>_ _. True) []"
  unfolding reconcile_analysis_def
  by (intro plain_step; auto intro!: plain_step plain_last reconcile_final_meets simp del: meets_pbind
    split: prod.splits option.splits)


text \<open>Any other first answer starts nothing.\<close>

abbreviation quiet :: "'a io \<Rightarrow> bool" where
  "quiet \<equiv> calls_only (\<lambda>c. start_of c = [])"

lemma quiet_Delete [simp]: "quiet (Delete ns)"
  unfolding Delete_def delete_bindings_def by (auto intro!: calls_intros)

lemma quiet_cleanup [simp]: "quiet (cleanupReconcileLoop ns)"
  unfolding cleanupReconcileLoop_def by (auto intro!: calls_intros)

lemma Reconcile_starts_nothing:
  assumes "\<And>whc. r \<noteq> RWhc whc"
  shows "started (issued (Reconcile D F L name namespace) (r # rs)) = []"
proof -
  have q: "started (issued p rs) = []" if "quiet p" for p :: "reconcile_result io"
    using calls_only_issued [OF that, of rs] by (auto simp: started_def list_all_iff)
  have cl: "started (issued (cleanupReconcileLoop namespace) rs) = []" by (rule q) simp
  show ?thesis
  proof (cases r)
    case (RWhc x)
    with assms [of x] show ?thesis by simp
  qed (use cl in \<open>simp_all add: Reconcile_def ask_def or_err_def as_whc_def started_def\<close>)
qed

end
