(* ===== verification/NamespaceReconcile.thy ===== *)
theory NamespaceReconcile
  imports WorkloadReconcile RunnerFacts
begin

text \<open>
  \<^verbatim>\<open>internal/controller/namespace/namespacehardeningcheck_controller.go\<close>: one pass of the
  reconciliation of a \<open>NamespaceHardeningCheck\<close>. The pass works on its copy \<open>nh\<close> of the object,
  which \<open>SetCondition\<close> re-fetches in place. Owner references (\<open>ctrl.SetControllerReference\<close>) are not
  part of the model's objects.
\<close>

section \<open>Conditions\<close>

abbreviation nconds :: "Nhc \<Rightarrow> Condition list" where
  "nconds nh \<equiv> nst_Conditions (nhc_Status nh)"

definition with_nconditions :: "Condition list \<Rightarrow> Nhc \<Rightarrow> Nhc" where
  "with_nconditions cs nh = nh\<lparr>nhc_Status := (nhc_Status nh)\<lparr>nst_Conditions := cs\<rparr>\<rparr>"

definition NSetCondition_attempt :: "lib \<Rightarrow> Condition \<Rightarrow> Nhc \<Rightarrow> (error option \<times> Nhc) io" where
  "NSetCondition_attempt L c nh =
     pbind (get_nhc (nhc_Name nh)) (\<lambda>r. case r of
       Inl e \<Rightarrow> if IsNotFound e then Ret (None, nh) else Ret (Some e, nh)
     | Inr x \<Rightarrow> pbind now (\<lambda>t.
         let x' = with_nconditions (lib_SetStatusCondition L (nconds x) c t) x
         in pbind (update_nhc_status x') (\<lambda>e. Ret (e, x'))))"

definition NSetCondition :: "lib \<Rightarrow> Condition \<Rightarrow> Nhc \<Rightarrow> (error option \<times> Nhc) io" where
  "NSetCondition L c nh = RetryOnConflict retry_again (lib_retries L) (NSetCondition_attempt L c) nh"

text \<open>The reconciler drops the error of \<open>SetCondition\<close>.\<close>

definition nset :: "lib \<Rightarrow> ConditionStatus \<Rightarrow> string \<Rightarrow> string \<Rightarrow> Nhc \<Rightarrow> Nhc io" where
  "nset L st re me nh = pbind (NSetCondition L (mk_condition ConditionTypeFinished st re me) nh) (\<lambda>(_, nh). Ret nh)"

text \<open>\<open>%d\<close> of a length.\<close>

fun decimal :: "nat \<Rightarrow> string" where
  "decimal n = (if n < 10 then [char_of (48 + n)] else decimal (n div 10) @ [char_of (48 + n mod 10)])"

declare decimal.simps [simp del]

section \<open>The checks of the namespace\<close>

definition getTopLevelResourcesToCheck :: "lib \<Rightarrow> Nhc \<Rightarrow> Unstructured list io" where
  "getTopLevelResourcesToCheck L nh =
     pbind (GetTopLevelResources L (ns_TargetNamespace (nhc_Spec nh))) (\<lambda>all.
       if length all = 0 then Ret [] else Ret (filter IsSupportedUnstructured all))"

definition workload_check_name :: "Nhc \<Rightarrow> Unstructured \<Rightarrow> string" where
  "workload_check_name nh resource = ToLower (u_Kind resource @ ''-'' @ u_Name resource @ ''-'' @ ns_Suffix (nhc_Spec nh))"

definition new_workload_check :: "Nhc \<Rightarrow> Unstructured \<Rightarrow> string \<Rightarrow> Whc" where
  "new_workload_check nh resource rnd =
     \<lparr>whc_Name = workload_check_name nh resource, whc_Namespace = ns_TargetNamespace (nhc_Spec nh),
      whc_Labels = [(''app.kubernetes.io/name'', workload_check_name nh resource),
        (''app.kubernetes.io/managed-by'', ''oracle-of-funk''), (''appkubernetes.io/part-of'', nhc_Name nh)],
      whc_Spec = \<lparr>ws_TargetRef = \<lparr>tr_Kind = u_Kind resource, tr_Name = u_Name resource\<rparr>,
        ws_RecordingDuration = ns_RecordingDuration (nhc_Spec nh), ws_RunMode = ns_RunMode (nhc_Spec nh),
        ws_SecurityContext = ns_SecurityContext (nhc_Spec nh), ws_Suffix = ns_Suffix (nhc_Spec nh) @ ''-'' @ rnd\<rparr>,
      whc_Status = \<lparr>wst_Conditions = [], wst_BaselineRuns = [], wst_CheckRuns = [], wst_FinalRun = None,
        wst_Recommendation = None\<rparr>\<rparr>"

definition createWorkloadHardeningCheck :: "Nhc \<Rightarrow> Unstructured \<Rightarrow> (error + Whc) io" where
  "createWorkloadHardeningCheck nh resource =
     pbind (get_whc (workload_check_name nh resource) (ns_TargetNamespace (nhc_Spec nh))) (\<lambda>g. case g of
       Inr x \<Rightarrow> Ret (Inr x)
     | Inl err \<Rightarrow>
         if \<not> IsNotFound err
         then Ret (Inl (Errorf (''failed to get existing WorkloadHardeningCheck for '' @ u_Kind resource @ ''/'' @
                u_Name resource @ '' in namespace '' @ ns_TargetNamespace (nhc_Spec nh)) (Some err)))
         else pbind (rand_string 8) (\<lambda>rnd.
           let workloadCheck = new_workload_check nh resource rnd
           in pbind (create_whc workloadCheck) (\<lambda>e. case e of
                Some err \<Rightarrow> Ret (Inl (Errorf (''failed to create WorkloadHardeningCheck for '' @ u_Kind resource @ ''/'' @
                  u_Name resource @ '' in namespace '' @ ns_TargetNamespace (nhc_Spec nh)) (Some err)))
              | None \<Rightarrow> Ret (Inr workloadCheck))))"

text \<open>One round of the loop over the resources; a check that could not be made is reported and left out.\<close>

definition create_round :: "lib \<Rightarrow> Nhc \<Rightarrow> Unstructured \<Rightarrow> Whc list \<Rightarrow> Whc list io" where
  "create_round L nh resource workloadChecks =
     pbind (createWorkloadHardeningCheck nh resource) (\<lambda>r. case r of
       Inl err \<Rightarrow> pbind (event ''Warning'' ''Failed'' (''Failed to create WorkloadHardeningCheck for '' @ u_Kind resource @
           ''/'' @ u_Name resource @ '' in namespace '' @ ns_TargetNamespace (nhc_Spec nh) @ '': '' @ lib_Error L err))
           (\<lambda>_. Ret workloadChecks)
     | Inr c \<Rightarrow> Ret (workloadChecks @ [c]))"

section \<open>The final check run\<close>

text \<open>The switch on the kind as it is written; other kinds leave the object nil.\<close>

definition exact_kind :: "string \<Rightarrow> workload_kind option" where
  "exact_kind kind =
     (if kind = ''Deployment'' then Some KDeployment
      else if kind = ''StatefulSet'' then Some KStatefulSet
      else if kind = ''DaemonSet'' then Some KDaemonSet
      else None)"

definition NGetWorkloadUnderTest :: "Unstructured \<Rightarrow> (error + workload) io" where
  "NGetWorkloadUnderTest resource =
     (if \<not> IsSupportedUnstructured resource
      then Ret (Inl (Errorf (''unsupported resource kind: '' @ u_Kind resource) None))
      else get_workload (exact_kind (u_Kind resource)) (u_Namespace resource) (u_Name resource))"

text \<open>The loop that waits for the rollout; it has no time limit, so the fuel bounds its rounds.\<close>

primrec await_updated :: "nat \<Rightarrow> workload \<Rightarrow> workload io" where
  "await_updated 0 w = Crash OutOfFuel"
| "await_updated (Suc fuel) w =
     pbind (sleep (5 * second)) (\<lambda>_.
     pbind (refresh_workload (wl_Namespace w) w) (\<lambda>w.
     pbind (lift_go (VerifyUpdated w)) (\<lambda>u. if bool_of u then Ret w else await_updated fuel w)))"

definition apply_recommendation :: "nat \<Rightarrow> Recommendation \<Rightarrow> workload \<Rightarrow> unit io" where
  "apply_recommendation fuel rec w =
     pbind (map_orders (containers_of w)) (\<lambda>\<sigma>s.
     let w = (case ApplySecurityContext (orders_fun \<sigma>s) w (rec_ContainerSecurityContexts rec) (rec_PodSecurityContext rec) of
                Inl e \<Rightarrow> w | Inr w' \<Rightarrow> w')
     in pbind (update_workload w) (\<lambda>_. pbind (await_updated fuel w) (\<lambda>_. Ret ())))"

definition harden_resource :: "nat \<Rightarrow> Nhc \<Rightarrow> Unstructured \<Rightarrow> unit \<Rightarrow> unit io" where
  "harden_resource fuel nh resource _ =
     (if \<not> IsSupportedUnstructured resource then Ret ()
      else pbind (NGetWorkloadUnderTest resource) (\<lambda>g. case g of
        Inl e \<Rightarrow> Ret ()
      | Inr w \<Rightarrow> (case map_of (nst_Recommendations (nhc_Status nh)) (u_Kind resource @ ''/'' @ u_Name resource) of
            None \<Rightarrow> Ret ()
          | Some rec \<Rightarrow> apply_recommendation fuel rec w)))"

text \<open>The loop that waits for the pods: True once they run, False two minutes after the start.\<close>

primrec await_running :: "nat \<Rightarrow> int \<Rightarrow> workload \<Rightarrow> bool io" where
  "await_running 0 startTime w = Crash OutOfFuel"
| "await_running (Suc fuel) startTime w =
     pbind (sleep (5 * second)) (\<lambda>_.
     pbind (refresh_workload (wl_Namespace w) w) (\<lambda>w.
     pbind now (\<lambda>t.
       if t - startTime > 2 * minute then Ret False
       else pbind (VerifyReadiness w) (\<lambda>ready. if bool_of ready then Ret True else await_running fuel startTime w))))"

text \<open>The labelled loop is left at the first workload that does not come up in time.\<close>

primrec all_running :: "nat \<Rightarrow> int \<Rightarrow> Unstructured list \<Rightarrow> bool io" where
  "all_running fuel startTime [] = Ret True"
| "all_running fuel startTime (resource # rs) =
     (if \<not> IsSupportedUnstructured resource then all_running fuel startTime rs
      else pbind (NGetWorkloadUnderTest resource) (\<lambda>g. case g of
        Inl e \<Rightarrow> all_running fuel startTime rs
      | Inr w \<Rightarrow> pbind (await_running fuel startTime w) (\<lambda>b.
          if b then all_running fuel startTime rs
          else pbind (event ''Warning'' ''WorkloadNotRunning'' (''Workload '' @ u_Kind resource @ ''/'' @ u_Name resource @
                 '' did not become running in time after security context update'')) (\<lambda>_. Ret False))))"

definition final_namespace :: "Nhc \<Rightarrow> string" where
  "final_namespace nh =
     (let name = ns_TargetNamespace (nhc_Spec nh) @ ''-'' @ ns_Suffix (nhc_Spec nh) @ ''-final''
      in if length name > 63 then take 63 name else name)"

text \<open>From the cloned namespace on.\<close>

definition final_run :: "lib \<Rightarrow> nat \<Rightarrow> Nhc \<Rightarrow> string \<Rightarrow> (bool \<times> error option) io" where
  "final_run L fuel nh final =
     pbind (get_namespace final) (\<lambda>_.
     pbind (GetTopLevelResources L final) (\<lambda>topLevelResources.
       if length topLevelResources = 0 then Ret (True, None)
       else pbind (pfold (harden_resource fuel nh) topLevelResources ()) (\<lambda>_.
            pbind now (\<lambda>startTime.
            pbind (all_running fuel startTime topLevelResources) (\<lambda>success.
            pbind (Delete final) (\<lambda>e. case e of
              Some err \<Rightarrow> Ret (success, Some (Errorf (''failed to delete cloned namespace '' @ final @ '' after final check'') (Some err)))
            | None \<Rightarrow> Ret (success, None)))))))"

definition createFinalCheckRun :: "lib \<Rightarrow> nat \<Rightarrow> Nhc \<Rightarrow> (bool \<times> error option) io" where
  "createFinalCheckRun L fuel nh =
     (let final = final_namespace nh
      in pbind (Clone L (ns_TargetNamespace (nhc_Spec nh)) final (ns_Suffix (nhc_Spec nh))) (\<lambda>e. case e of
           Some err \<Rightarrow> if IsAlreadyExists err then final_run L fuel nh final else Ret (False, Some err)
         | None \<Rightarrow> final_run L fuel nh final))"

section \<open>Reconcile\<close>

text \<open>The recommendations by kind and name; a later check for the same workload replaces an earlier one.\<close>

definition recommendations :: "Whc list \<Rightarrow> (string \<times> Recommendation) list" where
  "recommendations checks = fold (\<lambda>c m. case wst_Recommendation (whc_Status c) of
     None \<Rightarrow> m
   | Some r \<Rightarrow> map_put (tr_Kind (ws_TargetRef (whc_Spec c)) @ ''/'' @ tr_Name (ws_TargetRef (whc_Spec c))) r m) checks []"

definition Finalize_attempt :: "lib \<Rightarrow> string \<Rightarrow> (string \<times> Recommendation) list \<Rightarrow> Nhc \<Rightarrow> (error option \<times> Nhc) io" where
  "Finalize_attempt L name recs nh =
     pbind (get_nhc name) (\<lambda>r. case r of
       Inl e \<Rightarrow> if IsNotFound e then Ret (None, nh) else Ret (Some e, nh)
     | Inr x \<Rightarrow> pbind now (\<lambda>t.
         let x1 = x\<lparr>nhc_Status := (nhc_Status x)\<lparr>nst_Recommendations := recs\<rparr>\<rparr>;
             x2 = with_nconditions (lib_SetStatusCondition L (nconds x1) (mk_condition ConditionTypeFinished ConditionFalse
                    ConditionTypeFinalCheck ''Creating final check for namespace hardening'') t) x1
         in pbind (update_nhc_status x2) (\<lambda>e. Ret (e, x2))))"

definition finished_checks :: "lib \<Rightarrow> Whc list \<Rightarrow> Whc list" where
  "finished_checks L checks = filter (\<lambda>c. is_true L (conds c) ConditionTypeFinished) checks"

text \<open>Once every check has finished.\<close>

definition reconcile_namespace_final :: "lib \<Rightarrow> nat \<Rightarrow> string \<Rightarrow> Whc list \<Rightarrow> Nhc \<Rightarrow> reconcile_result io" where
  "reconcile_namespace_final L fuel name checks nh =
     pbind (RetryOnConflict retry_again (lib_retries L) (Finalize_attempt L name (recommendations checks)) nh) (\<lambda>(_, nh).
     pbind (createFinalCheckRun L fuel nh) (\<lambda>(success, e). case e of
       Some err \<Rightarrow> pbind (nset L ConditionTrue ConditionTypeFinished
           (''Failed to create final check run for namespace hardening: '' @ lib_Error L err) nh) (\<lambda>_. Ret (0, Some err))
     | None \<Rightarrow>
         pbind (if success
                then nset L ConditionTrue ReasonSuccess ''Namespace hardening checks completed successfully'' nh
                else nset L ConditionTrue ReasonFailed ''Final check run failed, not all workloads are running successfully'' nh)
           (\<lambda>_. Ret done_result)))"

definition created_message :: "Nhc \<Rightarrow> nat \<Rightarrow> string" where
  "created_message nh n = ''Created '' @ decimal n @ '' WorkloadHardeningChecks for top-level resources in namespace '' @
     ns_TargetNamespace (nhc_Spec nh)"

text \<open>From the resources to check on.\<close>

definition reconcile_namespace_checks :: "lib \<Rightarrow> nat \<Rightarrow> string \<Rightarrow> Unstructured list \<Rightarrow> Nhc \<Rightarrow> reconcile_result io" where
  "reconcile_namespace_checks L fuel name resources nh =
     pbind (pfold (create_round L nh) resources []) (\<lambda>workloadChecks.
     pbind (if length workloadChecks = 0 then Ret nh
            else pbind (event ''Normal'' ''WorkloadChecksCreated'' (created_message nh (length workloadChecks))) (\<lambda>_.
                 nset L ConditionFalse ReasonWorkloadChecksCreated (created_message nh (length workloadChecks)) nh)) (\<lambda>nh.
     pbind (list_whcs (ns_TargetNamespace (nhc_Spec nh))) (\<lambda>r. case r of
       Inl e \<Rightarrow> Ret (1 * minute, Some e)
     | Inr checks \<Rightarrow>
         let finishedCount = length (finished_checks L checks)
         in if finishedCount \<noteq> length checks
            then pbind (nset L ConditionFalse ReasonNamespaceInProgress (''NamespaceHardeningCheck is in progress, '' @
                   decimal finishedCount @ ''/'' @ decimal (length resources) @ '' finished'') nh) (\<lambda>_. Ret (30 * second, None))
            else reconcile_namespace_final L fuel name checks nh)))"

definition NReconcile :: "lib \<Rightarrow> nat \<Rightarrow> string \<Rightarrow> reconcile_result io" where
  "NReconcile L fuel name =
     pbind (get_nhc name) (\<lambda>g. case g of
       Inl e \<Rightarrow> if IsNotFound e then Ret done_result else Ret (1 * minute, Some e)
     | Inr nh \<Rightarrow>
         if is_true L (nconds nh) ConditionTypeFinished then Ret done_result
         else if ns_TargetNamespace (nhc_Spec nh) = '''' then Ret done_result
         else pbind (get_namespace (ns_TargetNamespace (nhc_Spec nh))) (\<lambda>g. case g of
           Inl e \<Rightarrow>
             if IsNotFound e
             then pbind (nset L ConditionFalse ReasonTargetNamespaceNotFound
                    ''The target namespace for the NamespaceHardeningCheck does not exist'' nh) (\<lambda>_. Ret done_result)
             else Ret (1 * minute, None)
         | Inr ns \<Rightarrow>
             pbind (if lib_FindStatusCondition L (nconds nh) ConditionTypeFinished = None
                    then nset L ConditionFalse ConditionTypePreparation
                      ''Starting NamespaceHardeningCheck reconciliation, preparing to create WorkloadHardeningChecks'' nh
                    else Ret nh) (\<lambda>nh.
             pbind (getTopLevelResourcesToCheck L nh) (\<lambda>resources.
               if length resources = 0
               then pbind (nset L ConditionTrue ReasonAnalysisFinished
                      ''No top-level resources found in target namespace, skipping WorkloadHardeningCheck creation'' nh)
                      (\<lambda>_. Ret done_result)
               else reconcile_namespace_checks L fuel name resources nh))))"

section \<open>What the final check run may touch\<close>

text \<open>
  The contract of the final run in the clone \<open>t\<close>: the ghost state holds the names of the bindings
  listed last that were made for \<open>t\<close>; listings and fetches answer objects of the namespace asked for.
\<close>

definition final_may :: "string \<Rightarrow> string set \<Rightarrow> call \<Rightarrow> bool" where
  "final_may t s c = (case c of
     UpdateWorkload w \<Rightarrow> wl_Namespace w = t
   | CreateNamespace n \<Rightarrow> nsp_Name n = t
   | CreateResource u \<Rightarrow> u_Namespace u = t
   | CreateClusterRoleBinding b \<Rightarrow> target_label b = t
   | DeleteNamespace n \<Rightarrow> n = t
   | DeleteClusterRoleBinding n \<Rightarrow> n \<in> s
   | ListClusterRoleBindings \<Rightarrow> True | ListResources _ _ _ _ \<Rightarrow> True | RandString _ \<Rightarrow> True
   | _ \<Rightarrow> free_call c)"

definition final_contract :: "string \<Rightarrow> (string set, call, resp) contract" where
  "final_contract t = \<lparr>rg_may = final_may t,
     rg_ans = (\<lambda>_ c r. case c of
        GetWorkload k ns n \<Rightarrow> (case r of RWorkload w \<Rightarrow> wl_Namespace w = ns | _ \<Rightarrow> True)
      | ListResources g v n ns \<Rightarrow> (case r of RResources us \<Rightarrow> \<forall>u \<in> set us. u_Namespace u = ns | _ \<Rightarrow> True)
      | _ \<Rightarrow> True),
     rg_next = (\<lambda>s c r. case c of
        ListClusterRoleBindings \<Rightarrow> (case r of RBindings bs \<Rightarrow> crb_Name ` {b \<in> set bs. target_label b = t} | _ \<Rightarrow> s)
      | _ \<Rightarrow> s),
     rg_crash = (\<lambda>_. True)\<rparr>"

lemma final_contract_simps [simp]:
  "rg_may (final_contract t) = final_may t" "rg_crash (final_contract t) e"
  "rg_ans (final_contract t) s (GetWorkload wk ns n) r \<longleftrightarrow> (case r of RWorkload w \<Rightarrow> wl_Namespace w = ns | _ \<Rightarrow> True)"
  "rg_ans (final_contract t) s (ListResources g v n ns) r \<longleftrightarrow>
     (case r of RResources us \<Rightarrow> \<forall>u \<in> set us. u_Namespace u = ns | _ \<Rightarrow> True)"
  "rg_next (final_contract t) s (GetWorkload wk ns n) r = s" "rg_next (final_contract t) s (ListResources g v n ns) r = s"
  by (simp_all add: final_contract_def)

lemma final_may_simps [simp]:
  "final_may t s (UpdateWorkload w) \<longleftrightarrow> in_ns t w" "final_may t s (GetWorkload wk a b)"
  "final_may t s (ListResources a b a' b')" "final_may t s MapOrder" "final_may t s Now"
  by (simp_all add: final_may_def in_ns_def)

lemma free_final: "free_call c \<Longrightarrow> final_may t s c"
  by (cases c) (simp_all add: final_may_def free_call_def)

lemma free_then:
  "calls_only free_call p \<Longrightarrow> (\<And>s a. meets (final_contract t) (f a) Q s) \<Longrightarrow> meets (final_contract t) (pbind p f) Q s"
  by (rule meets_pbindI [OF calls_only_meets [where P = free_call]]) (simp_all add: free_final)

lemma free_last: "calls_only free_call p \<Longrightarrow> (\<And>s a. Q s a) \<Longrightarrow> meets (final_contract t) p Q s"
  by (rule meets_mono [OF calls_only_meets [where P = free_call]]) (simp_all add: free_final)

lemma Clone_in_final:
  assumes "service_conversion L"
  shows "meets (final_contract t) (Clone L source t suffix) (\<lambda>_ _. True) s"
  by (rule calls_only_meets [OF Clone_calls [OF assms, of source]])
    (auto simp: clone_call_def fresh_in_def final_may_def split: call.splits)

lemma Delete_in_final: "meets (final_contract t) (Delete t) (\<lambda>_ _. True) s"
  by (rule meets_refine [where f = id and Q = "\<lambda>_ _. True" and s = s, OF Delete_meets [of _ "id s"], unfolded id_apply])
    (auto simp: delete_contract_def final_contract_def final_may_def split: call.splits resp.splits)

text \<open>The objects listed for a namespace are in it.\<close>

definition all_in :: "string \<Rightarrow> (string \<times> Unstructured list) list \<Rightarrow> bool" where
  "all_in ns m \<longleftrightarrow> (\<forall>us \<in> snd ` set m. \<forall>u \<in> set us. u_Namespace u = ns)"

lemma all_in_put: "all_in ns m \<Longrightarrow> \<forall>u \<in> set us. u_Namespace u = ns \<Longrightarrow> all_in ns (map_put k us m)"
proof (induction m)
  case (Cons p m)
  then show ?case by (cases p) (auto simp: all_in_def)
qed (simp add: all_in_def)

lemma all_in_of: "all_in ns m \<Longrightarrow> map_of m k = Some us \<Longrightarrow> u \<in> set us \<Longrightarrow> u_Namespace u = ns"
  unfolding all_in_def by (metis (no_types) imageI map_of_SomeD snd_conv)

lemma list_type_in:
  assumes "all_in ns m"
  shows "meets (final_contract t) (list_type L ns gv ty m) (\<lambda>_. all_in ns) s"
  using assms
  by (auto simp: list_type_def meets_ask or_err_def as_resources_def split: sum.splits prod.splits option.splits resp.splits
      intro!: all_in_put dest: all_in_of)

lemma GetTopLevelResources_in:
  "meets (final_contract t) (GetTopLevelResources L ns) (\<lambda>_ us. \<forall>u \<in> set us. u_Namespace u = ns) s"
proof -
  have all: "meets (final_contract t) (getAllResources L ns) (\<lambda>_. all_in ns) s"
    unfolding getAllResources_def
    by (rule meets_pfold) (auto intro!: meets_pfold list_type_in simp: all_in_def [of _ "[]"])
  show ?thesis
    unfolding GetTopLevelResources_def
    by (rule meets_pbindI [OF all]) (auto simp: meets_ask all_in_def split: option.splits)
qed

text \<open>Fetching again stays in the namespace.\<close>

lemma refresh_then:
  assumes "in_ns t w" and "\<And>s w'. in_ns t w' \<Longrightarrow> meets (final_contract t) (f w') Q s"
  shows "meets (final_contract t) (pbind (refresh_workload t w) f) Q s"
  using assms
  by (auto simp: refresh_workload_def in_ns_def meets_ask or_err_def as_workload_of_def
      split: option.splits sum.splits resp.splits if_splits)

lemma refresh_own:
  assumes "in_ns t w" and "\<And>s w'. in_ns t w' \<Longrightarrow> meets (final_contract t) (f w') Q s"
  shows "meets (final_contract t) (pbind (refresh_workload (wl_Namespace w) w) f) Q s"
  using refresh_then [OF assms] assms(1) by (simp add: in_ns_def del: meets_pbind)

lemma await_updated_in: "in_ns t w \<Longrightarrow> meets (final_contract t) (await_updated fuel w) (\<lambda>_ _. True) s"
proof (induction fuel arbitrary: w s)
  case (Suc fuel)
  have step: "meets (final_contract t) (pbind (lift_go (VerifyUpdated w')) (\<lambda>u. if bool_of u then Ret w' else await_updated fuel w'))
      (\<lambda>_ _. True) s" if "in_ns t w'" for w' s
    using Suc.IH [OF that] by (cases "VerifyUpdated w'") simp_all
  show ?case
    using Suc.prems by (auto simp del: meets_pbind intro!: free_then refresh_own step)
qed simp

lemma await_running_in: "in_ns t w \<Longrightarrow> meets (final_contract t) (await_running fuel st w) (\<lambda>_ _. True) s"
proof (induction fuel arbitrary: w s)
  case (Suc fuel)
  then show ?case
    by (auto simp del: meets_pbind intro!: free_then refresh_own free_programs Suc.IH)
qed simp

definition res_in :: "string \<Rightarrow> Unstructured \<Rightarrow> bool" where
  "res_in t u \<longleftrightarrow> u_Namespace u = t"

lemma NGet_then:
  assumes "res_in t u" and "\<And>s g. (\<And>w. g = Inr w \<Longrightarrow> in_ns t w) \<Longrightarrow> meets (final_contract t) (f g) Q s"
  shows "meets (final_contract t) (pbind (NGetWorkloadUnderTest u) f) Q s"
  using assms
  by (auto simp: NGetWorkloadUnderTest_def in_ns_def res_in_def meets_ask or_err_def as_workload_of_def
      split: option.splits sum.splits resp.splits if_splits)

lemma ApplySecurityContext_namespace: "ApplySecurityContext \<sigma> w sc psc = Inr w' \<Longrightarrow> wl_Namespace w' = wl_Namespace w"
  by (auto simp: ApplySecurityContext_def split: option.splits)

lemma apply_recommendation_in:
  assumes "in_ns t w"
  shows "meets (final_contract t) (apply_recommendation fuel rec w) (\<lambda>_ _. True) s"
proof -
  have step: "meets (final_contract t) (pbind (update_workload w') (\<lambda>_. pbind (await_updated fuel w') (\<lambda>_. Ret ()))) (\<lambda>_ _. True) s"
    if "in_ns t w'" for w' s
    using that by (auto simp: meets_ask intro!: meets_mono [OF await_updated_in] split: option.splits)
  show ?thesis
    unfolding apply_recommendation_def Let_def
    by (rule free_then [OF free_map_orders], rule step)
      (use assms in \<open>auto simp: in_ns_def dest: ApplySecurityContext_namespace split: sum.splits\<close>)
qed

lemma harden_resource_in:
  "res_in t u \<Longrightarrow> meets (final_contract t) (harden_resource fuel nh u x) (\<lambda>_ _. True) s"
  unfolding harden_resource_def
  by (auto simp del: meets_pbind intro!: NGet_then apply_recommendation_in split: sum.splits option.splits)

lemma all_running_in:
  "list_all (res_in t) us \<Longrightarrow> meets (final_contract t) (all_running fuel st us) (\<lambda>_ _. True) s"
proof (induction us arbitrary: s)
  case (Cons u us)
  have wait: "meets (final_contract t) (pbind (await_running fuel st w) (\<lambda>b. if b then all_running fuel st us
      else pbind (event a b' c) (\<lambda>_. Ret False))) (\<lambda>_ _. True) s" if "in_ns t w" for w s a b' c
    by (rule meets_pbindI [OF await_running_in [OF that]]) (use Cons in \<open>auto simp del: meets_pbind intro!: free_then\<close>)
  show ?case
    using Cons by (auto simp del: meets_pbind intro!: NGet_then wait split: sum.splits)
qed simp

lemma final_run_in: "meets (final_contract t) (final_run L fuel nh t) (\<lambda>_ _. True) s"
proof -
  have end': "meets (final_contract t) (pbind (Delete t) (\<lambda>e. case e of
      Some err \<Rightarrow> Ret (b, Some (f err)) | None \<Rightarrow> Ret (b, None))) (\<lambda>_ _. True) s" for b f s
    by (rule meets_pbindI [OF Delete_in_final]) (auto split: option.splits)
  have rest: "meets (final_contract t) (if length us = 0 then Ret (True, None)
       else pbind (pfold (harden_resource fuel nh) us ()) (\<lambda>_. pbind now (\<lambda>st. pbind (all_running fuel st us) (\<lambda>b.
         pbind (Delete t) (\<lambda>e. case e of Some err \<Rightarrow> Ret (b, Some (f err)) | None \<Rightarrow> Ret (b, None)))))) (\<lambda>_ _. True) s"
    if us: "list_all (res_in t) us" for us f s
  proof -
    have h: "meets (final_contract t) (pfold (harden_resource fuel nh) us ()) (\<lambda>_ _. True) s" for s
      by (rule meets_pfold) (use us in \<open>auto simp: list_all_iff intro: harden_resource_in\<close>)
    note [intro!] = meets_pbindI [OF h] meets_pbindI [OF all_running_in [OF us]] end' free_then
    show ?thesis by (auto simp del: meets_pbind)
  qed
  show ?thesis
    unfolding final_run_def
    by (rule free_then, simp, rule meets_pbindI [OF GetTopLevelResources_in], rule rest) (simp add: list_all_iff res_in_def)
qed

lemma createFinalCheckRun_in:
  assumes "service_conversion L"
  shows "meets (final_contract (final_namespace nh)) (createFinalCheckRun L fuel nh) (\<lambda>_ _. True) s"
  unfolding createFinalCheckRun_def Let_def
  by (rule meets_pbindI [OF Clone_in_final [OF assms]]) (auto intro: final_run_in split: option.splits)

section \<open>Properties\<close>

text \<open>A finished check is left alone. A pass over a check whose Finished condition is true issues no call but the fetch, starts
  no run, and asks for no other pass; and so does a pass over a finished namespace check.\<close>

theorem finished_is_absorbing:
  assumes "is_true L (conds whc) ConditionTypeFinished" and "is_true L (nconds nhc) ConditionTypeFinished"
  shows "drive (Reconcile D F L name namespace) (RWhc whc # rs) = ([(GetWhc name namespace, RWhc whc)], Returned (0, None)) \<and>
    drive (NReconcile L fuel name) (RNhc nhc # rs) = ([(GetNhc name, RNhc nhc)], Returned (0, None))"
  using assms by (simp add: Reconcile_def NReconcile_def ask_def)

definition finished_condition :: Condition where
  "finished_condition = mk_condition ConditionTypeFinished ConditionTrue ConditionTypeFinished ''''"

definition sample_namespace_check :: Nhc where
  "sample_namespace_check = \<lparr>nhc_Name = ''shop-check'',
     nhc_Spec = \<lparr>ns_TargetNamespace = ''shop'', ns_RecordingDuration = ''5m'', ns_RunMode = RunModeParallel,
       ns_SecurityContext = None, ns_Suffix = ''qx7k2''\<rparr>,
     nhc_Status = \<lparr>nst_Conditions = [], nst_Recommendations = []\<rparr>\<rparr>"

lemma finished_is_absorbing_witness:
  "drive (Reconcile seen_lines int_floats list_lib ''web-check'' ''shop'') [RWhc (with_conditions [finished_condition] sample_check)] =
     ([(GetWhc ''web-check'' ''shop'', RWhc (with_conditions [finished_condition] sample_check))], Returned (0, None))"
proof -
  have "is_true list_lib (conds (with_conditions [finished_condition] sample_check)) ConditionTypeFinished"
    "is_true list_lib (nconds (with_nconditions [finished_condition] sample_namespace_check)) ConditionTypeFinished"
    by (simp_all add: is_true_def list_lib_def finished_condition_def with_nconditions_def)
  from finished_is_absorbing [OF this, THEN conjunct1] show ?thesis .
qed

text \<open>The check made for a workload. Where no check with the workload's name exists yet, exactly one is created, for that
  workload and with the namespace check's own settings, and it is returned; where one exists it is returned and nothing is created.\<close>

theorem createWorkloadHardeningCheck_creates:
  "drive (createWorkloadHardeningCheck nh u) (RErr (ApiError NotFound) # RString rnd # ROk # rs) =
     ([(GetWhc (workload_check_name nh u) (ns_TargetNamespace (nhc_Spec nh)), RErr (ApiError NotFound)), (RandString 8, RString rnd),
       (CreateWhc (new_workload_check nh u rnd), ROk)], Returned (Inr (new_workload_check nh u rnd))) \<and>
   drive (createWorkloadHardeningCheck nh u) (RWhc x # rs) =
     ([(GetWhc (workload_check_name nh u) (ns_TargetNamespace (nhc_Spec nh)), RWhc x)], Returned (Inr x))"
  by (simp add: createWorkloadHardeningCheck_def drive_ask Let_def)

text \<open>Once a pass has seen all checks finished, it may do anything.\<close>

definition early_call :: "lib \<Rightarrow> call \<Rightarrow> bool" where
  "early_call L c = (case c of
     UpdateNhcStatus x \<Rightarrow> (\<exists>y c t. x = with_nconditions (lib_SetStatusCondition L (nconds y) c t) y \<and>
       (cond_Status c \<noteq> ConditionTrue \<or> cond_Reason c = ReasonAnalysisFinished))
   | UpdateWorkload _ \<Rightarrow> False | CreateNamespace _ \<Rightarrow> False | CreateResource _ \<Rightarrow> False | CreateClusterRoleBinding _ \<Rightarrow> False
   | DeleteNamespace _ \<Rightarrow> False | DeleteClusterRoleBinding _ \<Rightarrow> False | UpdateWhcStatus _ \<Rightarrow> False | GoRunCheck _ _ _ \<Rightarrow> False
   | KvSet _ _ _ \<Rightarrow> False | _ \<Rightarrow> True)"

definition all_finished :: "lib \<Rightarrow> call \<Rightarrow> resp \<Rightarrow> bool" where
  "all_finished L c r = (case c of ListWhcs ns \<Rightarrow> (case r of RWhcs cs \<Rightarrow> list_all (\<lambda>c. is_true L (conds c) ConditionTypeFinished) cs
     | _ \<Rightarrow> False) | _ \<Rightarrow> False)"

definition finishing :: "lib \<Rightarrow> (bool, call, resp) contract" where
  "finishing L = \<lparr>rg_may = (\<lambda>s c. s \<or> early_call L c), rg_ans = (\<lambda>_ _ _. True),
     rg_next = (\<lambda>s c r. s \<or> all_finished L c r), rg_crash = (\<lambda>_. True)\<rparr>"

lemma finishing_simps [simp]:
  "rg_may (finishing L) s c \<longleftrightarrow> s \<or> early_call L c" "rg_ans (finishing L) s c r" "rg_crash (finishing L) e"
  "rg_next (finishing L) s c r \<longleftrightarrow> s \<or> all_finished L c r"
  by (simp_all add: finishing_def)

lemma follow_finishing:
  "\<exists>t. follow (finishing L) s l = Some t \<and> (t \<longrightarrow> s \<or> (\<exists>(c, r) \<in> set l. all_finished L c r))"
proof (induction l arbitrary: s)
  case (Cons p l)
  obtain c r where p: "p = (c, r)" by (cases p)
  from Cons.IH [of "s \<or> all_finished L c r"] show ?case by (auto simp: p)
qed simp

lemma finishing_late: "meets (finishing L) p (\<lambda>_ _. True) True"
  by (induction p) auto

lemma early_simps [simp]:
  "early_call L (GetNhc n)" "early_call L (GetWhc a b)" "early_call L (CreateWhc w)" "early_call L (RandString i)" "early_call L Now"
  "early_call L (RetryAgain e)" "early_call L (Event a b c)" "early_call L MapOrder" "early_call L (ListResources g v r ns)"
  "early_call L (GetNamespace n)" "early_call L (ListWhcs ns)"
  by (simp_all add: early_call_def)

lemma early_meets: "calls_only (early_call L) p \<Longrightarrow> (\<And>s a. Q s a) \<Longrightarrow> meets (finishing L) p Q s"
  by (rule meets_mono [OF calls_only_meets [where P = "early_call L"]]) simp_all

lemma early_then:
  "calls_only (early_call L) p \<Longrightarrow> (\<And>s a. meets (finishing L) (f a) Q s) \<Longrightarrow> meets (finishing L) (pbind p f) Q s"
  unfolding meets_pbind by (rule early_meets)

lemma early_nset:
  assumes "st \<noteq> ConditionTrue \<or> re = ReasonAnalysisFinished"
  shows "calls_only (early_call L) (nset L st re me nh)"
proof -
  have "early_call L (UpdateNhcStatus (with_nconditions (lib_SetStatusCondition L (nconds y)
      (mk_condition ConditionTypeFinished st re me) t) y))" for y t
    unfolding early_call_def call.case
    by (rule exI [of _ y], rule exI [of _ "mk_condition ConditionTypeFinished st re me"], rule exI [of _ t]) (use assms in simp)
  then show ?thesis
    unfolding nset_def NSetCondition_def NSetCondition_attempt_def Let_def by (auto intro!: calls_intros)
qed

lemma early_create: "calls_only (early_call L) (create_round L nh u cs)"
  unfolding create_round_def createWorkloadHardeningCheck_def Let_def by (auto intro!: calls_intros)

lemma early_resources: "calls_only (early_call L) (getTopLevelResourcesToCheck L nh)"
  unfolding getTopLevelResourcesToCheck_def GetTopLevelResources_def getAllResources_def list_type_def
  by (auto intro!: calls_intros split: prod.splits)

lemma finished_checks_all:
  "length (finished_checks L cs) = length cs \<longleftrightarrow> list_all (\<lambda>c. is_true L (conds c) ConditionTypeFinished) cs"
proof (cases "list_all (\<lambda>c. is_true L (conds c) ConditionTypeFinished) cs")
  case True
  then have "finished_checks L cs = cs" by (simp add: finished_checks_def list_all_iff)
  with True show ?thesis by simp
next
  case False
  then obtain c where "c \<in> set cs" "\<not> is_true L (conds c) ConditionTypeFinished" unfolding list_all_iff by blast
  then have "length (finished_checks L cs) < length cs" unfolding finished_checks_def
    by (rule length_filter_less [where P = "\<lambda>c. is_true L (conds c) ConditionTypeFinished"])
  with False show ?thesis by simp
qed

lemma reconcile_namespace_checks_finishing:
  "meets (finishing L) (reconcile_namespace_checks L fuel name us nh) (\<lambda>_ _. True) s"
proof -
  have rest: "meets (finishing L) (pbind (list_whcs ns) (\<lambda>r. case r of
       Inl e \<Rightarrow> Ret (1 * minute, Some e)
     | Inr checks \<Rightarrow>
         let finishedCount = length (finished_checks L checks)
         in if finishedCount \<noteq> length checks
            then pbind (nset L ConditionFalse ReasonNamespaceInProgress (''NamespaceHardeningCheck is in progress, '' @
                   decimal finishedCount @ ''/'' @ decimal (length us) @ '' finished'') nh') (\<lambda>_. Ret (30 * second, None))
            else reconcile_namespace_final L fuel name checks nh')) (\<lambda>_ _. True) s" for ns nh' s
    unfolding meets_pbind meets_ask
    by (auto simp: Let_def or_err_def as_whcs_def all_finished_def finished_checks_all finishing_late simp del: meets_pbind
        split: option.splits sum.splits resp.splits intro!: early_then early_nset)
  show ?thesis
    unfolding reconcile_namespace_checks_def
    by (intro early_then rest calls_intros early_create) (auto intro!: calls_intros early_nset)
qed

lemma NReconcile_finishing: "meets (finishing L) (NReconcile L fuel name) (\<lambda>_ _. True) s"
proof -
  have ended: "meets (finishing L) (pbind (nset L st re me nh) (\<lambda>_. Ret res)) (\<lambda>_ _. True) s"
    if "st \<noteq> ConditionTrue \<or> re = ReasonAnalysisFinished" for st re me nh s and res :: reconcile_result
    by (rule early_then [OF early_nset [OF that]]) simp
  have checks: "meets (finishing L) (if length us = 0
      then pbind (nset L ConditionTrue ReasonAnalysisFinished me nh) (\<lambda>_. Ret done_result)
      else reconcile_namespace_checks L fuel name us nh) (\<lambda>_ _. True) s" for us me nh s
    using ended [of ConditionTrue ReasonAnalysisFinished me nh done_result s] reconcile_namespace_checks_finishing by simp
  have prepared: "meets (finishing L) (pbind (if b then nset L ConditionFalse re me nh else Ret nh) (\<lambda>nh.
      pbind (getTopLevelResourcesToCheck L nh) (\<lambda>us. if length us = 0
      then pbind (nset L ConditionTrue ReasonAnalysisFinished me' nh) (\<lambda>_. Ret done_result)
      else reconcile_namespace_checks L fuel name us nh))) (\<lambda>_ _. True) s" for b re me me' nh s
    by (rule early_then, simp add: early_nset, rule early_then [OF early_resources], rule checks)
  have target: "meets (finishing L) (case g of
        Inl e \<Rightarrow> if IsNotFound e then pbind (nset L ConditionFalse re me nh) (\<lambda>_. Ret done_result) else Ret (1 * minute, None)
      | Inr ns \<Rightarrow> pbind (if b then nset L ConditionFalse re' me' nh else Ret nh) (\<lambda>nh.
          pbind (getTopLevelResourcesToCheck L nh) (\<lambda>us. if length us = 0
          then pbind (nset L ConditionTrue ReasonAnalysisFinished me'' nh) (\<lambda>_. Ret done_result)
          else reconcile_namespace_checks L fuel name us nh))) (\<lambda>_ _. True) s" for g :: "error + Namespace" and b re me re' me' me'' nh s
  proof (cases g)
    case (Inl e)
    then show ?thesis using ended [of ConditionFalse re me nh done_result s] by simp
  next
    case (Inr ns)
    show ?thesis unfolding Inr sum.case by (rule prepared)
  qed
  show ?thesis
    unfolding NReconcile_def
  proof (rule early_then, simp)
    fix s and g :: "error + Nhc"
    show "meets (finishing L) (case g of
       Inl e \<Rightarrow> if IsNotFound e then Ret done_result else Ret (1 * minute, Some e)
     | Inr nh \<Rightarrow>
         if is_true L (nconds nh) ConditionTypeFinished then Ret done_result
         else if ns_TargetNamespace (nhc_Spec nh) = '''' then Ret done_result
         else pbind (get_namespace (ns_TargetNamespace (nhc_Spec nh))) (\<lambda>g. case g of
           Inl e \<Rightarrow>
             if IsNotFound e
             then pbind (nset L ConditionFalse ReasonTargetNamespaceNotFound
                    ''The target namespace for the NamespaceHardeningCheck does not exist'' nh) (\<lambda>_. Ret done_result)
             else Ret (1 * minute, None)
         | Inr ns \<Rightarrow>
             pbind (if lib_FindStatusCondition L (nconds nh) ConditionTypeFinished = None
                    then nset L ConditionFalse ConditionTypePreparation
                      ''Starting NamespaceHardeningCheck reconciliation, preparing to create WorkloadHardeningChecks'' nh
                    else Ret nh) (\<lambda>nh.
             pbind (getTopLevelResourcesToCheck L nh) (\<lambda>resources.
               if length resources = 0
               then pbind (nset L ConditionTrue ReasonAnalysisFinished
                      ''No top-level resources found in target namespace, skipping WorkloadHardeningCheck creation'' nh)
                      (\<lambda>_. Ret done_result)
               else reconcile_namespace_checks L fuel name resources nh)))) (\<lambda>_ _. True) s"
    proof (cases g)
      case (Inl e)
      then show ?thesis by simp
    next
      case (Inr nh)
      show ?thesis
        unfolding Inr sum.case
        by (intro meets_if) (simp, simp, rule early_then, simp, rule target)
    qed
  qed
qed


definition web_object :: Unstructured where
  "web_object = sample_object\<lparr>u_Kind := ''Deployment'', u_Name := ''web''\<rparr>"

lemma web_object_supported: "IsSupportedUnstructured web_object"
  unfolding web_object_def sample_object_def by code_simp

text \<open>A pass that finds the only check of the namespace finished and begins the final run.\<close>

definition prepared_namespace_check :: Nhc where
  "prepared_namespace_check =
     with_nconditions [mk_condition ConditionTypeFinished ConditionFalse ReasonNamespaceInProgress ''''] sample_namespace_check"

definition last_pass :: "resp list" where
  "last_pass = [RNhc prepared_namespace_check, RNamespace \<lparr>nsp_Name = ''shop'', nsp_Labels = []\<rparr>, RResources [web_object], RPicks [],
     RWhc (with_conditions [finished_condition] sample_check), ROk, RErr (ApiError NotFound), RBool False,
     RWhcs [with_conditions [finished_condition] sample_check], RErr (ApiError NotFound), RBool False,
     RErr (ApiError NotFound), RResources [], RPicks [], ROk]"

lemma last_pass_clones:
  "\<exists>n. (CreateNamespace n, ROk) \<in> set (fst (drive (NReconcile (configmap_lib list_lib) 1 ''shop-check'') last_pass))"
proof -
  let ?L = "configmap_lib list_lib"
  have nh: "nconds prepared_namespace_check = [mk_condition ConditionTypeFinished ConditionFalse ReasonNamespaceInProgress '''']"
    "ns_TargetNamespace (nhc_Spec prepared_namespace_check) = ''shop''" "nhc_Name prepared_namespace_check = ''shop-check''"
    by (simp_all add: prepared_namespace_check_def sample_namespace_check_def with_nconditions_def)
  have L: "\<not> is_true ?L [mk_condition ConditionTypeFinished ConditionFalse ReasonNamespaceInProgress ''''] ConditionTypeFinished"
    "lib_FindStatusCondition ?L [mk_condition ConditionTypeFinished ConditionFalse ReasonNamespaceInProgress ''''] ConditionTypeFinished \<noteq> None"
    "is_true ?L [finished_condition] ConditionTypeFinished"
    "lib_retries ?L = Suc (Suc (Suc (Suc 0)))"
    "lib_namespacedResources ?L = [\<lparr>al_GroupVersion = ''v1'', al_APIResources =
        [\<lparr>ar_Name = ''configmaps'', ar_Kind = ''ConfigMap'', ar_Group = '''', ar_Namespaced = True\<rparr>]\<rparr>]"
    "lib_ParseGroupVersion ?L gv = Inr ('''', gv)" for gv
    by (simp_all add: is_true_def configmap_lib_def list_lib_def finished_condition_def)
  have skip: "\<not> skipped_type \<lparr>ar_Name = ''configmaps'', ar_Kind = ''ConfigMap'', ar_Group = '''', ar_Namespaced = True\<rparr>"
    by code_simp
  have web: "u_OwnerReferences web_object = []" by (simp add: web_object_def sample_object_def)
  have resources: "drive (pbind (getTopLevelResourcesToCheck ?L prepared_namespace_check) f) (RResources [web_object] # RPicks [] # rs) =
      (case drive (f [web_object]) rs of (l, out) \<Rightarrow>
        ((ListResources '''' ''v1'' ''configmaps'' ''shop'', RResources [web_object]) # (MapOrder, RPicks []) # l, out))" for f :: "_ \<Rightarrow> reconcile_result io" and rs
    by (simp add: getTopLevelResourcesToCheck_def GetTopLevelResources_def getAllResources_def list_type_def drive_ask pbind_assoc nh L skip
        web web_object_supported arrange_no_picks split: prod.splits)
  have checks: "\<exists>n. (CreateNamespace n, ROk) \<in> set (fst (drive (reconcile_namespace_checks ?L 1 ''shop-check'' [web_object] prepared_namespace_check)
      (drop 4 last_pass)))"
    unfolding reconcile_namespace_checks_def reconcile_namespace_final_def createFinalCheckRun_def Clone_def
      nset_def NSetCondition_def NSetCondition_attempt_def Finalize_attempt_def create_round_def createWorkloadHardeningCheck_def
      GetTopLevelResources_def getAllResources_def list_type_def Let_def last_pass_def
    by (simp add: drive_ask pbind_assoc nh L skip finished_checks_def arrange_no_picks fst_log, rule exI, rule disjI1, rule refl)
  then show ?thesis
    unfolding NReconcile_def
    by (simp add: last_pass_def drive_ask nh L resources pbind_assoc fst_log)
qed


text \<open>Answers that name objects of the namespace asked for.\<close>

definition located_all :: "(call \<times> resp) list \<Rightarrow> bool" where
  "located_all l \<longleftrightarrow> (\<forall>k ns n w. (GetWorkload k ns n, RWorkload w) \<in> set l \<longrightarrow> wl_Namespace w = ns) \<and>
     (\<forall>g v t ns us. (ListResources g v t ns, RResources us) \<in> set l \<longrightarrow> (\<forall>u \<in> set us. u_Namespace u = ns))"

lemma follow_final:
  "located_all l \<Longrightarrow> \<exists>t. follow (final_contract tgt) s l = Some t \<and>
     (\<forall>n \<in> t. n \<in> s \<or> (\<exists>bs b. (ListClusterRoleBindings, RBindings bs) \<in> set l \<and> b \<in> set bs \<and> crb_Name b = n \<and> target_label b = tgt))"
proof (induction l arbitrary: s)
  case (Cons p l)
  obtain c a where p: "p = (c, a)" by (cases p)
  let ?G = "final_contract tgt"
  have ans: "rg_ans ?G s c a"
    using Cons.prems by (cases c; cases a) (auto simp: p located_all_def final_contract_def)
  have loc: "located_all l" using Cons.prems by (auto simp: located_all_def)
  have bindings: "\<forall>n \<in> rg_next ?G s c a. n \<in> s \<or>
      (\<exists>bs b. c = ListClusterRoleBindings \<and> a = RBindings bs \<and> b \<in> set bs \<and> crb_Name b = n \<and> target_label b = tgt)"
    by (cases c; cases a) (auto simp: final_contract_def)
  from Cons.IH [OF loc, of "rg_next ?G s c a"] ans bindings show ?case by (fastforce simp: p)
qed simp

text \<open>C18: the final run of a namespace stays in its clone. Where the API server answers with objects of the namespace asked for, it
  updates workloads, creates namespaces, resources and bindings, and deletes only in its clone.\<close>

theorem createFinalCheckRun_stays_in_clone:
  assumes "service_conversion L" and "drive (createFinalCheckRun L fuel nh) rs = (l, out)" and "located_all l" and "(c, a) \<in> set l"
  shows "case c of
      UpdateWorkload w \<Rightarrow> wl_Namespace w = final_namespace nh
    | CreateNamespace n \<Rightarrow> nsp_Name n = final_namespace nh
    | CreateResource u \<Rightarrow> u_Namespace u = final_namespace nh
    | CreateClusterRoleBinding b \<Rightarrow> target_label b = final_namespace nh
    | DeleteNamespace n \<Rightarrow> n = final_namespace nh
    | DeleteClusterRoleBinding n \<Rightarrow> (\<exists>bs b. (ListClusterRoleBindings, RBindings bs) \<in> set l \<and> b \<in> set bs \<and>
        crb_Name b = n \<and> target_label b = final_namespace nh)
    | UpdateWhcStatus _ \<Rightarrow> False | UpdateNhcStatus _ \<Rightarrow> False | CreateWhc _ \<Rightarrow> False | KvSet _ _ _ \<Rightarrow> False | KvDel _ \<Rightarrow> False
    | GoRunCheck _ _ _ \<Rightarrow> False
    | _ \<Rightarrow> True"
proof -
  from assms(4) obtain pre post where l: "l = pre @ (c, a) # post" by (auto simp: in_set_conv_decomp)
  have "located_all pre" using assms(3) by (auto simp: l located_all_def)
  then obtain t where t: "follow (final_contract (final_namespace nh)) {} pre = Some t"
    and b: "\<forall>n \<in> t. \<exists>bs b. (ListClusterRoleBindings, RBindings bs) \<in> set pre \<and> b \<in> set bs \<and> crb_Name b = n \<and>
       target_label b = final_namespace nh"
    using follow_final [of pre "final_namespace nh" "{}"] by auto
  have "rg_may (final_contract (final_namespace nh)) t c"
    by (rule meets_at [OF createFinalCheckRun_in [OF assms(1)] assms(2) [unfolded l] t])
  moreover have "\<forall>n \<in> t. \<exists>bs b. (ListClusterRoleBindings, RBindings bs) \<in> set l \<and> b \<in> set bs \<and> crb_Name b = n \<and>
       target_label b = final_namespace nh"
    using b unfolding l by fastforce
  ultimately show ?thesis by (cases c) (simp_all add: final_may_def free_call_def)
qed

lemma createFinalCheckRun_stays_in_clone_witness:
  "\<exists>n. (CreateNamespace n, ROk) \<in> set (fst (drive (createFinalCheckRun (configmap_lib list_lib) 1 sample_namespace_check)
      [RErr (ApiError NotFound), RResources [], RPicks [], ROk])) \<and> nsp_Name n = final_namespace sample_namespace_check"
proof -
  let ?p = "createFinalCheckRun (configmap_lib list_lib) 1 sample_namespace_check"
  let ?rs = "[RErr (ApiError NotFound), RResources [], RPicks [], ROk]"
  have L: "lib_namespacedResources (configmap_lib list_lib) = [\<lparr>al_GroupVersion = ''v1'', al_APIResources =
        [\<lparr>ar_Name = ''configmaps'', ar_Kind = ''ConfigMap'', ar_Group = '''', ar_Namespaced = True\<rparr>]\<rparr>]"
    "lib_ParseGroupVersion (configmap_lib list_lib) gv = Inr ('''', gv)" for gv
    by (simp_all add: configmap_lib_def list_lib_def)
  have skip: "\<not> skipped_type \<lparr>ar_Name = ''configmaps'', ar_Kind = ''ConfigMap'', ar_Group = '''', ar_Namespaced = True\<rparr>"
    by code_simp
  have log: "drive ?p ?rs = ([(GetNamespace (final_namespace sample_namespace_check), RErr (ApiError NotFound)),
      (ListResources '''' ''v1'' ''configmaps'' (ns_TargetNamespace (nhc_Spec sample_namespace_check)), RResources []),
      (MapOrder, RPicks []),
      (CreateNamespace \<lparr>nsp_Name = final_namespace sample_namespace_check, nsp_Labels = clone_labels
        (ns_TargetNamespace (nhc_Spec sample_namespace_check)) (final_namespace sample_namespace_check)
        (ns_Suffix (nhc_Spec sample_namespace_check))\<rparr>, ROk)], Waiting ListClusterRoleBindings)"
    unfolding createFinalCheckRun_def Clone_def GetTopLevelResources_def getAllResources_def list_type_def Let_def
      cloneClusterRoleBindings_def
    by (simp add: drive_ask pbind_assoc L skip arrange_no_picks)
  have "located_all (fst (drive ?p ?rs))" unfolding log by (auto simp: located_all_def)
  from createFinalCheckRun_stays_in_clone [OF configmap_lib_conversion prod.collapse [symmetric] this, of
      "CreateNamespace \<lparr>nsp_Name = final_namespace sample_namespace_check, nsp_Labels = clone_labels
        (ns_TargetNamespace (nhc_Spec sample_namespace_check)) (final_namespace sample_namespace_check)
        (ns_Suffix (nhc_Spec sample_namespace_check))\<rparr>" ROk]
  show ?thesis unfolding log by auto
qed

text \<open>Kind and name of the workload a check is about.\<close>

definition check_key :: "Whc \<Rightarrow> string" where
  "check_key c = tr_Kind (ws_TargetRef (whc_Spec c)) @ ''/'' @ tr_Name (ws_TargetRef (whc_Spec c))"

text \<open>The recommendation used for a workload. Of the checks of the namespace that are about the kind and name \<open>k\<close> and have a
  recommendation, the last in the list decides; if there is none, the workload has no recommendation.\<close>

theorem recommendations_last_wins:
  "map_of (recommendations checks) k =
     (case filter (\<lambda>c. check_key c = k \<and> wst_Recommendation (whc_Status c) \<noteq> None) checks of
        [] \<Rightarrow> None
      | cs \<Rightarrow> wst_Recommendation (whc_Status (last cs)))"
  unfolding recommendations_def
  by (induction checks rule: rev_induct) (auto simp: check_key_def split: option.splits list.splits)

end
