(* ===== verification/Webhooks.thy ===== *)
theory Webhooks
  imports Manager
begin

text \<open>
  \<^verbatim>\<open>internal/webhook/v1alpha1\<close>: the defaulting and validating admission webhooks of both kinds.
  A webhook is handed a \<open>runtime.Object\<close>; a failed type assertion is an error. The warnings are nil
  on every path and left out. \<open>fmt\<close>'s \<open>%T\<close> of the object is left out of the messages.
\<close>

section \<open>The objects\<close>

datatype admission_object = OWhc Whc | ONhc Nhc | OOther

definition suffix_of_whc :: "Whc \<Rightarrow> string" where
  "suffix_of_whc w = ws_Suffix (whc_Spec w)"

definition set_whc_suffix :: "string \<Rightarrow> Whc \<Rightarrow> Whc" where
  "set_whc_suffix s w = w\<lparr>whc_Spec := (whc_Spec w)\<lparr>ws_Suffix := s\<rparr>\<rparr>"

definition suffix_of_nhc :: "Nhc \<Rightarrow> string" where
  "suffix_of_nhc n = ns_Suffix (nhc_Spec n)"

definition set_nhc_suffix :: "string \<Rightarrow> Nhc \<Rightarrow> Nhc" where
  "set_nhc_suffix s n = n\<lparr>nhc_Spec := (nhc_Spec n)\<lparr>ns_Suffix := s\<rparr>\<rparr>"

section \<open>WorkloadHardeningCheck\<close>

fun W_Default :: "admission_object \<Rightarrow> (error option \<times> admission_object) io" where
  "W_Default (OWhc w) =
     (if length (suffix_of_whc w) = 0
      then pbind (rand_string 8) (\<lambda>s. Ret (None, OWhc (set_whc_suffix s w)))
      else Ret (None, OWhc w))"
| "W_Default obj = Ret (Some (Errorf ''expected an WorkloadHardeningCheck object'' None), obj)"

text \<open>
  \<open>connected\<close>: whether \<open>NewWorkloadCheckManager\<close> found a cluster configuration and made a client; it
  returns nil otherwise.
\<close>

fun W_ValidateCreate :: "bool \<Rightarrow> admission_object \<Rightarrow> error option io" where
  "W_ValidateCreate connected (OWhc w) =
     (if suffix_of_whc w = '''' then Ret (Some (Errorf ''suffix must be set during creation of WorkloadHardeningCheck'' None))
      else if \<not> connected then Ret (Some (Errorf ''failed to create workload manager for WorkloadHardeningCheck'' None))
      else pbind (VerifyRunning w (whc_Namespace w)) (\<lambda>r. case r of
        Inl err \<Rightarrow> Ret (Some (Errorf ''failed to verify if target workload is running'' (Some err)))
      | Inr running \<Rightarrow>
          if \<not> running
          then Ret (Some (Errorf (''target workload '' @ whc_Namespace w @ ''/'' @ tr_Name (ws_TargetRef (whc_Spec w)) @
                 '' is not running'') None))
          else Ret None))"
| "W_ValidateCreate connected obj = Ret (Some (Errorf ''expected an WorkloadHardeningCheck object'' None))"

fun W_ValidateUpdate :: "admission_object \<Rightarrow> admission_object \<Rightarrow> error option" where
  "W_ValidateUpdate (OWhc old) (OWhc new) =
     (if suffix_of_whc old \<noteq> suffix_of_whc new
      then Some (Errorf ''suffix cannot be changed during update of WorkloadHardeningCheck'' None)
      else if tr_Name (ws_TargetRef (whc_Spec old)) \<noteq> tr_Name (ws_TargetRef (whc_Spec new)) \<or>
              tr_Kind (ws_TargetRef (whc_Spec old)) \<noteq> tr_Kind (ws_TargetRef (whc_Spec new))
      then Some (Errorf ''targetRef cannot be changed during update of WorkloadHardeningCheck'' None)
      else None)"
| "W_ValidateUpdate old new = Some (Errorf ''expected an WorkloadHardeningCheck object'' None)"

fun W_ValidateDelete :: "admission_object \<Rightarrow> error option" where
  "W_ValidateDelete (OWhc w) = None"
| "W_ValidateDelete obj = Some (Errorf ''expected an WorkloadHardeningCheck object'' None)"

section \<open>NamespaceHardeningCheck\<close>

fun N_Default :: "admission_object \<Rightarrow> (error option \<times> admission_object) io" where
  "N_Default (ONhc n) =
     (if length (suffix_of_nhc n) = 0
      then pbind (rand_string 5) (\<lambda>s. Ret (None, ONhc (set_nhc_suffix s n)))
      else Ret (None, ONhc n))"
| "N_Default obj = Ret (Some (Errorf ''expected an NamespaceHardeningCheck object'' None), obj)"

fun N_ValidateCreate :: "admission_object \<Rightarrow> error option io" where
  "N_ValidateCreate (ONhc n) =
     (if suffix_of_nhc n = '''' then Ret (Some (Errorf ''suffix must be set during creation of NamespaceHardeningCheck'' None))
      else if ns_TargetNamespace (nhc_Spec n) = ''''
      then Ret (Some (Errorf ''namespace must be set during creation of NamespaceHardeningCheck'' None))
      else pbind (get_namespace (ns_TargetNamespace (nhc_Spec n))) (\<lambda>r. case r of
        Inl err \<Rightarrow> Ret (Some (Errorf (''target namespace '' @ ns_TargetNamespace (nhc_Spec n) @ '' does not exist'') None))
      | Inr _ \<Rightarrow> Ret None))"
| "N_ValidateCreate obj = Ret (Some (Errorf ''expected a NamespaceHardeningCheck object'' None))"

fun N_ValidateUpdate :: "admission_object \<Rightarrow> admission_object \<Rightarrow> error option" where
  "N_ValidateUpdate (ONhc old) (ONhc new) =
     (if suffix_of_nhc old \<noteq> suffix_of_nhc new
      then Some (Errorf ''suffix cannot be changed during update of NamespaceHardeningCheck'' None)
      else if ns_TargetNamespace (nhc_Spec old) \<noteq> ns_TargetNamespace (nhc_Spec new)
      then Some (Errorf ''targetNamespace cannot be changed during update of NamespaceHardeningCheck'' None)
      else None)"
| "N_ValidateUpdate old new = Some (Errorf ''expected a NamespaceHardeningCheck object'' None)"

fun N_ValidateDelete :: "admission_object \<Rightarrow> error option" where
  "N_ValidateDelete (ONhc n) = None"
| "N_ValidateDelete obj = Some (Errorf ''expected a NamespaceHardeningCheck object'' None)"

section \<open>The contract of an admission webhook\<close>

text \<open>What the API server does with a new object: default it, then validate what came out.\<close>

definition admit ::
  "('o \<Rightarrow> (error option \<times> 'o) io) \<Rightarrow> ('o \<Rightarrow> error option io) \<Rightarrow> 'o \<Rightarrow> (error option \<times> 'o) io" where
  "admit dflt validate obj = pbind (dflt obj) (\<lambda>(e, obj'). case e of
     Some err \<Rightarrow> Ret (Some err, obj')
   | None \<Rightarrow> pbind (validate obj') (\<lambda>e. Ret (e, obj')))"

text \<open>
  \<open>mine\<close>: objects of the webhook's kind; \<open>given\<close>: what of an object must not change, its suffix
  among it. Defaulting only fills an empty suffix, creation wants one, and an update is
  accepted exactly between objects of the kind with the same \<open>given\<close>.
\<close>

locale admission_webhook =
  fixes dflt :: "'o \<Rightarrow> (error option \<times> 'o) io"
    and validate_create :: "'o \<Rightarrow> error option io"
    and validate_update :: "'o \<Rightarrow> 'o \<Rightarrow> error option"
    and mine :: "'o \<Rightarrow> bool"
    and given :: "'o \<Rightarrow> 'g"
    and suffix :: "'g \<Rightarrow> string"
  assumes default_result: "ensures (\<lambda>(e, obj'). e = None \<longrightarrow> mine obj' \<and> (suffix (given obj) \<noteq> '''' \<longrightarrow> obj' = obj)) (dflt obj)"
    and create_needs_suffix: "mine obj \<Longrightarrow> suffix (given obj) = '''' \<Longrightarrow> ensures (\<lambda>e. e \<noteq> None) (validate_create obj)"
    and update_iff: "validate_update old new = None \<longleftrightarrow> mine old \<and> mine new \<and> given old = given new"
begin

lemma admitted: "ensures (\<lambda>(e, obj'). e = None \<longrightarrow>
    mine obj' \<and> suffix (given obj') \<noteq> '''' \<and> (suffix (given obj) \<noteq> '''' \<longrightarrow> obj' = obj)) (admit dflt validate_create obj)"
proof -
  have v: "ensures (\<lambda>e. e = None \<longrightarrow> suffix (given obj') \<noteq> '''') (validate_create obj')" if "mine obj'" for obj'
  proof (cases "suffix (given obj') = ''''")
    case True
    show ?thesis by (rule ensures_mono [OF create_needs_suffix [OF that True]]) auto
  next
    case False
    then show ?thesis by (auto intro: ensures_mono [OF ensures_True])
  qed
  have after: "ensures (\<lambda>(e, obj'). e = None \<longrightarrow>
      mine obj' \<and> suffix (given obj') \<noteq> '''' \<and> (suffix (given obj) \<noteq> '''' \<longrightarrow> obj' = obj))
      (pbind (validate_create obj') (\<lambda>e. Ret (e, obj')))"
    if "mine obj'" "suffix (given obj) \<noteq> '''' \<longrightarrow> obj' = obj" for obj'
    by (rule ensures_pbindI [OF v [OF that(1)]]) (use that in auto)
  show ?thesis
    unfolding admit_def
  proof (rule ensures_pbindI [OF default_result [of obj]], clarify)
    fix e :: "error option" and obj'
    assume res: "e = None \<longrightarrow> mine obj' \<and> (suffix (given obj) \<noteq> '''' \<longrightarrow> obj' = obj)"
    show "ensures (\<lambda>(e, obj'). e = None \<longrightarrow>
        mine obj' \<and> suffix (given obj') \<noteq> '''' \<and> (suffix (given obj) \<noteq> '''' \<longrightarrow> obj' = obj))
        (case e of Some err \<Rightarrow> Ret (Some err, obj') | None \<Rightarrow> pbind (validate_create obj') (\<lambda>e. Ret (e, obj')))"
    proof (cases e)
      case None
      with res after [of obj'] show ?thesis by simp
    qed simp
  qed
qed

text \<open>However often an object is updated, what was given stays.\<close>

lemma updates_keep:
  assumes "(\<lambda>a b. validate_update a b = None)\<^sup>*\<^sup>* obj obj'"
  shows "given obj' = given obj"
  using assms by (induction) (auto simp: update_iff)

lemma update_same: "mine obj \<Longrightarrow> validate_update obj obj = None"
  by (simp add: update_iff)

end

subsection \<open>Interpretations\<close>

fun is_whc :: "admission_object \<Rightarrow> bool" where
  "is_whc (OWhc w) = True"
| "is_whc obj = False"

fun is_nhc :: "admission_object \<Rightarrow> bool" where
  "is_nhc (ONhc n) = True"
| "is_nhc obj = False"

text \<open>What users give: suffix and target.\<close>

fun whc_given :: "admission_object \<Rightarrow> string \<times> string \<times> string" where
  "whc_given (OWhc w) = (suffix_of_whc w, tr_Kind (ws_TargetRef (whc_Spec w)), tr_Name (ws_TargetRef (whc_Spec w)))"
| "whc_given obj = ('''', '''', '''')"

fun nhc_given :: "admission_object \<Rightarrow> string \<times> string" where
  "nhc_given (ONhc n) = (suffix_of_nhc n, ns_TargetNamespace (nhc_Spec n))"
| "nhc_given obj = ('''', '''')"

interpretation whc_webhook: admission_webhook W_Default "W_ValidateCreate connected" W_ValidateUpdate is_whc whc_given fst
  for connected
proof unfold_locales
  fix obj old new :: admission_object
  show "ensures (\<lambda>(e, obj'). e = None \<longrightarrow> is_whc obj' \<and> (fst (whc_given obj) \<noteq> '''' \<longrightarrow> obj' = obj)) (W_Default obj)"
    by (cases obj) auto
  show "is_whc obj \<Longrightarrow> fst (whc_given obj) = '''' \<Longrightarrow> ensures (\<lambda>e. e \<noteq> None) (W_ValidateCreate connected obj)"
    by (cases obj) auto
  show "W_ValidateUpdate old new = None \<longleftrightarrow> is_whc old \<and> is_whc new \<and> whc_given old = whc_given new"
    by (cases old; cases new) auto
qed

interpretation nhc_webhook: admission_webhook N_Default N_ValidateCreate N_ValidateUpdate is_nhc nhc_given fst
proof unfold_locales
  fix obj old new :: admission_object
  show "ensures (\<lambda>(e, obj'). e = None \<longrightarrow> is_nhc obj' \<and> (fst (nhc_given obj) \<noteq> '''' \<longrightarrow> obj' = obj)) (N_Default obj)"
    by (cases obj) auto
  show "is_nhc obj \<Longrightarrow> fst (nhc_given obj) = '''' \<Longrightarrow> ensures (\<lambda>e. e \<noteq> None) (N_ValidateCreate obj)"
    by (cases obj) auto
  show "N_ValidateUpdate old new = None \<longleftrightarrow> is_nhc old \<and> is_nhc new \<and> nhc_given old = nhc_given new"
    by (cases old; cases new) auto
qed

section \<open>Properties\<close>


definition ready_pod :: Pod where
  "ready_pod = \<lparr>pod_Name = ''web-1'', pod_Namespace = ''shop'', pod_UID = ''1'', pod_NodeName = ''node'', pod_Phase = PodRunning,
     pod_DeletionTimestamp = None,
     pod_ContainerStatuses = [\<lparr>cs_Name = ''web'', cs_Waiting = None, cs_Terminated = None, cs_Ready = True\<rparr>],
     pod_Containers = [''web''], pod_InitContainers = []\<rparr>"

definition ready_deployment :: workload where
  "ready_deployment = WDeployment \<lparr>dep_Namespace = ''shop'', dep_Name = ''web'', dep_Replicas = None, dep_Selector = Some ''app=web'',
     dep_PodSpec = \<lparr>ps_SecurityContext = None, ps_Containers = [], ps_InitContainers = []\<rparr>, dep_UpdatedReplicas = 1\<rparr>"

lemma admits_sample_check:
  "drive (admit W_Default (W_ValidateCreate True) (OWhc sample_check))
     [RWorkload ready_deployment, RSelector ''app=web'', RPods [ready_pod]] =
   ([(GetWorkload (Some KDeployment) ''shop'' ''web'', RWorkload ready_deployment), (AsSelector (Some ''app=web''), RSelector ''app=web''),
     (ListPods ''shop'' (Some ''app=web''), RPods [ready_pod])], Returned (None, OWhc sample_check))"
proof -
  have "kind_of ''Deployment'' = Some KDeployment" by code_simp
  then show ?thesis
    by (simp add: admit_def suffix_of_whc_def sample_check_def VerifyRunning_def GetWorkloadUnderTest_def VerifyReadiness_def
        GetPodsForWorkload_def drive_ask pbind_assoc ready_deployment_def ready_pod_def pod_problem_def container_problem_def)
qed


text \<open>What a readiness check that says yes has seen.\<close>

definition seen_ready :: "(call \<times> resp) list \<Rightarrow> bool" where
  "seen_ready l \<longleftrightarrow> (\<exists>ns sel pods. (ListPods ns sel, RPods pods) \<in> set l \<and> all_ready pods)"

lemma seen_readyI: "all_ready pods \<Longrightarrow> (ListPods ns sel, RPods pods) \<in> set l \<Longrightarrow> seen_ready l"
  by (auto simp: seen_ready_def)

lemma VerifyReadiness_seen: "meets logged (VerifyReadiness w) (\<lambda>l r. r = Inr True \<longrightarrow> seen_ready l) l"
proof -
  have pods: "meets logged (list_pods ns sel) (\<lambda>l r. \<forall>pods. r = Inr pods \<longrightarrow> all_ready pods \<longrightarrow> seen_ready l) l" for ns sel l
    by (auto simp: meets_ask or_err_def as_pods_def intro: seen_readyI split: resp.splits)
  have "meets logged (GetPodsForWorkload w) (\<lambda>l r. \<forall>pods. r = Inr pods \<longrightarrow> all_ready pods \<longrightarrow> seen_ready l) l"
    unfolding GetPodsForWorkload_def
    by (rule logged_ask) (auto split: sum.splits intro!: meets_mono [OF pods])
  then show ?thesis
    unfolding VerifyReadiness_def meets_pbind
    by (rule meets_mono) (auto simp: no_pod_problem split: sum.splits option.splits)
qed

lemma VerifyRunning_seen: "meets logged (VerifyRunning w ns) (\<lambda>l r. r = Inr True \<longrightarrow> seen_ready l) l"
  unfolding VerifyRunning_def GetWorkloadUnderTest_def Let_def pbind_assoc
  by (rule logged_ask) (auto simp: VerifyReadiness_seen split: sum.splits)

lemma W_ValidateCreate_seen: "meets logged (W_ValidateCreate connected obj) (\<lambda>l e. e = None \<longrightarrow> seen_ready l) l"
proof (cases obj)
  case (OWhc w)
  have "meets logged (pbind (VerifyRunning w ns) (\<lambda>r. case r of
        Inl err \<Rightarrow> Ret (Some (Errorf a (Some err)))
      | Inr running \<Rightarrow> if \<not> running then Ret (Some (Errorf b None)) else Ret None)) (\<lambda>l e. e = None \<longrightarrow> seen_ready l) l" for ns a b
    unfolding meets_pbind by (rule meets_mono [OF VerifyRunning_seen]) (auto split: sum.splits)
  then show ?thesis by (simp add: OWhc del: meets_pbind)
qed simp_all

text \<open>C33: only a running target is admitted. When the webhook admits a new object, the API server has listed pods, at least one, all
  of them running with every container ready, before the object was let in.\<close>

theorem admission_needs_ready_target:
  assumes "drive (admit W_Default (W_ValidateCreate connected) obj) rs = (l, Returned (None, obj'))"
  shows "\<exists>ns sel pods. (ListPods ns sel, RPods pods) \<in> set l \<and> all_ready pods"
proof -
  have v: "meets logged (case e of Some err \<Rightarrow> Ret (Some err, obj')
      | None \<Rightarrow> pbind (W_ValidateCreate connected obj') (\<lambda>e. Ret (e, obj'))) (\<lambda>l (e, _). e = None \<longrightarrow> seen_ready l) l" for e l obj'
    by (cases e) (auto simp del: W_ValidateCreate.simps intro: meets_mono [OF W_ValidateCreate_seen])
  have "meets logged (admit W_Default (W_ValidateCreate connected) obj) (\<lambda>l (e, _). e = None \<longrightarrow> seen_ready l) []"
  proof (cases "\<exists>w. obj = OWhc w \<and> length (suffix_of_whc w) = 0")
    case True
    then obtain w where w: "obj = OWhc w" "length (suffix_of_whc w) = 0" by blast
    show ?thesis
      using v [of _ None] by (simp add: admit_def w pbind_assoc del: meets_pbind W_ValidateCreate.simps) (rule logged_ask, simp del: meets_pbind W_ValidateCreate.simps)
  next
    case False
    then show ?thesis using v [of obj None] by (cases obj) (simp_all add: admit_def del: meets_pbind W_ValidateCreate.simps)
  qed
  from logged_drive [OF this assms] show ?thesis by (simp add: seen_ready_def)
qed

lemma admission_needs_ready_target_witness:
  "\<exists>ns sel pods. (ListPods ns sel, RPods pods) \<in> set [(GetWorkload (Some KDeployment) ''shop'' ''web'', RWorkload ready_deployment),
     (AsSelector (Some ''app=web''), RSelector ''app=web''), (ListPods ''shop'' (Some ''app=web''), RPods [ready_pod])] \<and> all_ready pods"
  by (rule admission_needs_ready_target [OF admits_sample_check])

end
