(* ===== verification/Concurrency.thy ===== *)
theory Concurrency
  imports Prog
begin

text \<open>
  Goroutines. A pool is a list of programs that run at once; a step answers the call one of them
  waits with, and a call that starts goroutines appends them to the pool. Answers are not
  constrained here, so a run of the pool is any interleaving at the calls, under any environment.
\<close>

section \<open>Interleaving semantics\<close>

type_synonym ('c, 'r, 'a) pool = "('c, 'r, 'a) prog list"

type_synonym ('c, 'r) events = "(nat \<times> 'c \<times> 'r) list"

text \<open>One step: thread \<open>i\<close> has its call \<open>c\<close> answered with \<open>r\<close>; \<open>spawn c\<close> are the goroutines the call starts.\<close>

inductive pool_step ::
  "('c \<Rightarrow> ('c, 'r, 'a) prog list) \<Rightarrow> ('c, 'r, 'a) pool \<Rightarrow> nat \<times> 'c \<times> 'r \<Rightarrow> ('c, 'r, 'a) pool \<Rightarrow> bool"
  for spawn where
  answer: "i < length ps \<Longrightarrow> ps ! i = Call c k \<Longrightarrow> pool_step spawn ps (i, c, r) (ps[i := k r] @ spawn c)"

inductive_cases pool_stepE: "pool_step spawn ps (i, c, r) ps'"

inductive pool_run ::
  "('c \<Rightarrow> ('c, 'r, 'a) prog list) \<Rightarrow> ('c, 'r, 'a) pool \<Rightarrow> ('c, 'r) events \<Rightarrow> ('c, 'r, 'a) pool \<Rightarrow> bool"
  for spawn ps where
  start: "pool_run spawn ps [] ps"
| step: "pool_run spawn ps es ps' \<Longrightarrow> pool_step spawn ps' e ps'' \<Longrightarrow> pool_run spawn ps (es @ [e]) ps''"

text \<open>What one thread did: its calls with their answers.\<close>

definition own :: "nat \<Rightarrow> ('c, 'r) events \<Rightarrow> ('c \<times> 'r) list" where
  "own i es = map snd (filter (\<lambda>e. fst e = i) es)"

lemma own_simps [simp]:
  "own i [] = []" "own i ((j, c, r) # es) = (if j = i then (c, r) # own i es else own i es)" "own i (es @ es') = own i es @ own i es'"
  by (auto simp: own_def)

lemma in_own [simp]: "p \<in> set (own i es) \<longleftrightarrow> (i, p) \<in> set es"
  by (force simp: own_def)

section \<open>One thread by itself\<close>

text \<open>\<open>along p l q\<close>: answered as in \<open>l\<close>, the program \<open>p\<close> has become \<open>q\<close>.\<close>

fun along :: "('c, 'r, 'a) prog \<Rightarrow> ('c \<times> 'r) list \<Rightarrow> ('c, 'r, 'a) prog \<Rightarrow> bool" where
  "along p [] q \<longleftrightarrow> p = q"
| "along p ((c, r) # l) q \<longleftrightarrow> (\<exists>k. p = Call c k \<and> along (k r) l q)"

lemma along_snoc: "along p l (Call c k) \<Longrightarrow> along p (l @ [(c, r)]) (k r)"
  by (induction p l "Call c k" rule: along.induct) auto

primrec status :: "('c, 'r, 'a) prog \<Rightarrow> ('c, 'a) outcome" where
  "status (Ret a) = Returned a"
| "status (Crash e) = Crashed e"
| "status (Call c k) = Waiting c"

lemma along_drive: "along p l q \<Longrightarrow> drive p (map snd l) = (l, status q)"
proof (induction p l q rule: along.induct)
  case (1 p q)
  then show ?case by (cases p) auto
qed auto

section \<open>Every thread runs as if alone\<close>

text \<open>
  The calls of a thread with their answers, the other threads' left out, are a log of one program:
  of the program that was in the pool at the start, or of one a call of the pool started before.
\<close>

lemma pool_run_length: "pool_run spawn ps es ps' \<Longrightarrow> length ps \<le> length ps'"
  by (induction rule: pool_run.induct) (auto elim!: pool_step.cases)

lemma pool_run_known: "pool_run spawn ps es ps' \<Longrightarrow> (i, c, r) \<in> set es \<Longrightarrow> i < length ps'"
  by (induction rule: pool_run.induct) (auto elim!: pool_step.cases)

lemma own_unknown: "pool_run spawn ps es ps' \<Longrightarrow> length ps' \<le> i \<Longrightarrow> own i es = []"
  using pool_run_known by (fastforce simp: own_def filter_empty_conv)

lemma thread_along:
  assumes "pool_run spawn ps es ps'" and "i < length ps'"
  shows "\<exists>p. along p (own i es) (ps' ! i) \<and>
    (if i < length ps then p = ps ! i
     else \<exists>pre j c r post. es = pre @ (j, c, r) # post \<and> own i pre = [] \<and> p \<in> set (spawn c))"
  using assms
proof (induction arbitrary: i rule: pool_run.induct)
  case start
  then show ?case by simp
next
  case (step es ps' e ps'')
  from step.hyps(2) obtain j c k r where e: "e = (j, c, r)" and j: "j < length ps'" "ps' ! j = Call c k"
    and ps'': "ps'' = ps'[j := k r] @ spawn c" by (auto elim!: pool_step.cases)
  show ?case
  proof (cases "i < length ps'")
    case True
    from step.IH [OF True] obtain p where p: "along p (own i es) (ps' ! i)"
      and origin: "if i < length ps then p = ps ! i
        else \<exists>pre j c r post. es = pre @ (j, c, r) # post \<and> own i pre = [] \<and> p \<in> set (spawn c)" by blast
    have "along p (own i (es @ [e])) (ps'' ! i)"
      using p j True by (auto simp: e ps'' nth_append along_snoc)
    moreover have "if i < length ps then p = ps ! i
        else \<exists>pre j c r post. es @ [e] = pre @ (j, c, r) # post \<and> own i pre = [] \<and> p \<in> set (spawn c)"
      using origin by (force split: if_splits)
    ultimately show ?thesis by blast
  next
    case False
    with step.prems have new: "ps'' ! i \<in> set (spawn c)" by (auto simp: ps'' nth_append)
    have none: "own i es = []" using False by (intro own_unknown [OF step.hyps(1)]) simp
    moreover have "\<not> i < length ps" using False pool_run_length [OF step.hyps(1)] by simp
    moreover have "\<exists>pre j c r post. es @ [e] = pre @ (j, c, r) # post \<and> own i pre = [] \<and> ps'' ! i \<in> set (spawn c)"
      using none new e by blast
    ultimately show ?thesis using False j by (intro exI [of _ "ps'' ! i"]) (auto simp: e)
  qed
qed

theorem thread_drive:
  assumes "pool_run spawn ps es ps'" and "(i, c, r) \<in> set es"
  shows "\<exists>p out. drive p (map snd (own i es)) = (own i es, out) \<and> (c, r) \<in> set (own i es) \<and>
    (if i < length ps then p = ps ! i
     else \<exists>pre j c r post. es = pre @ (j, c, r) # post \<and> own i pre = [] \<and> p \<in> set (spawn c))"
  using thread_along [OF assms(1) pool_run_known [OF assms]] assms(2) along_drive by (metis in_own)

section \<open>Building executions\<close>

text \<open>A log of one program is one thread's part of an execution, where it starts nothing.\<close>

lemma drive_along: "drive p rs = (l, out) \<Longrightarrow> \<exists>q. along p l q \<and> status q = out"
proof (induction p arbitrary: rs l)
  case (Call c k)
  then show ?case
  proof (cases rs)
    case (Cons r rs')
    with Call.prems obtain l' where "drive (k r) rs' = (l', out)" "l = (c, r) # l'" by (auto split: prod.splits)
    with Call.IH [of "k r" rs' l'] show ?thesis by auto
  qed auto
qed auto

lemma status_Waiting: "status q = Waiting c \<longleftrightarrow> (\<exists>k. q = Call c k)"
  by (cases q) auto

lemma pool_run_along:
  assumes "pool_run spawn ps es ps'" and "i < length ps'" and "along (ps' ! i) l q" and "\<forall>(c, r) \<in> set l. spawn c = []"
  shows "pool_run spawn ps (es @ map (Pair i) l) (ps'[i := q])"
  using assms
proof (induction l arbitrary: es ps')
  case Nil
  then show ?case by auto
next
  case (Cons p l)
  obtain c r where p: "p = (c, r)" by (cases p)
  with Cons.prems obtain k where k: "ps' ! i = Call c k" "along (k r) l q" and none: "spawn c = []" by auto
  have "pool_step spawn ps' (i, c, r) (ps'[i := k r])"
    using pool_step.answer [OF Cons.prems(2) k(1), of spawn r] by (simp add: none)
  from pool_run.step [OF Cons.prems(1) this] have "pool_run spawn ps (es @ [(i, c, r)]) (ps'[i := k r])" .
  from Cons.IH [OF this] Cons.prems k show ?case by (simp add: p)
qed

lemma pool_run_drive:
  assumes "pool_run spawn ps es ps'" and "i < length ps'" and "drive (ps' ! i) rs = (l, out)" and "\<forall>(c, r) \<in> set l. spawn c = []"
  shows "\<exists>q. pool_run spawn ps (es @ map (Pair i) l) (ps'[i := q]) \<and> status q = out"
  using drive_along [OF assms(3)] pool_run_along [OF assms(1,2) _ assms(4)] by blast

section \<open>Contracts of threads\<close>

lemma meets_along: "meets G p Q s \<Longrightarrow> along p l q \<Longrightarrow> follow G s l = Some t \<Longrightarrow> meets G q Q t"
proof (induction p l q arbitrary: s rule: along.induct)
  case (2 p c r l q)
  then obtain k where k: "p = Call c k" "along (k r) l q" by auto
  from "2.prems"(3) have "rg_ans G s c r" "follow G (rg_next G s c r) l = Some t" by (auto split: if_splits)
  with "2.prems"(1) k show ?case by (intro "2.IH" [of k]) auto
qed simp

text \<open>Where every program that is or can be started meets a contract, every thread is at a point that meets it.\<close>

lemma pool_meets:
  assumes "pool_run spawn ps es ps'" and "i < length ps'" and "\<forall>p \<in> set ps. meets G p Q s" and "\<And>c. \<forall>p \<in> set (spawn c). meets G p Q s"
    and "follow G s (own i es) = Some t"
  shows "meets G (ps' ! i) Q t"
proof -
  from thread_along [OF assms(1,2)] obtain p where p: "along p (own i es) (ps' ! i)"
    and "if i < length ps then p = ps ! i
      else \<exists>pre j c r post. es = pre @ (j, c, r) # post \<and> own i pre = [] \<and> p \<in> set (spawn c)" by blast
  then have "meets G p Q s" using assms(3,4) by (auto split: if_splits)
  from meets_along [OF this p assms(5)] show ?thesis .
qed

lemma follow_total: "(\<And>s c r. rg_ans G s c r) \<Longrightarrow> \<exists>t. follow G s l = Some t"
  by (induction l arbitrary: s) auto

lemma follow_snoc: "follow G s l = Some t \<Longrightarrow> rg_ans G t c r \<Longrightarrow> follow G s (l @ [(c, r)]) = Some (rg_next G t c r)"
proof (induction l arbitrary: s)
  case (Cons p l)
  then show ?case by (cases p) (auto split: if_splits)
qed simp

section \<open>Executions by computation\<close>

fun pool_exec ::
  "('c \<Rightarrow> ('c, 'r, 'a) prog list) \<Rightarrow> ('c, 'r, 'a) pool \<Rightarrow> ('c, 'r) events \<Rightarrow> ('c, 'r, 'a) pool option" where
  "pool_exec spawn ps [] = Some ps"
| "pool_exec spawn ps ((i, c, r) # es) = (if i < length ps
     then case ps ! i of Call c' k \<Rightarrow> if c' = c then pool_exec spawn (ps[i := k r] @ spawn c) es else None | _ \<Rightarrow> None
     else None)"

lemma pool_exec_append:
  "pool_exec spawn ps (es @ es') = (case pool_exec spawn ps es of None \<Rightarrow> None | Some ps' \<Rightarrow> pool_exec spawn ps' es')"
  by (induction spawn ps es rule: pool_exec.induct) (auto split: prog.splits)

lemma pool_run_exec: "pool_run spawn ps es ps' \<longleftrightarrow> pool_exec spawn ps es = Some ps'"
proof
  assume "pool_run spawn ps es ps'"
  then show "pool_exec spawn ps es = Some ps'"
    by (induction rule: pool_run.induct) (auto simp: pool_exec_append elim!: pool_step.cases)
next
  assume "pool_exec spawn ps es = Some ps'"
  then show "pool_run spawn ps es ps'"
  proof (induction es arbitrary: ps' rule: rev_induct)
    case Nil
    then show ?case by (auto intro: pool_run.start)
  next
    case (snoc e es)
    obtain i c r where e: "e = (i, c, r)" by (cases e)
    with snoc.prems obtain ps0 k where ps0: "pool_exec spawn ps es = Some ps0" and i: "i < length ps0" "ps0 ! i = Call c k"
      and ps': "ps' = ps0[i := k r] @ spawn c"
      by (auto simp: pool_exec_append split: option.splits prog.splits if_splits)
    from pool_run.step [OF snoc.IH [OF ps0] pool_step.answer [OF i]] show ?case by (simp add: e ps')
  qed
qed

end
