(* ===== verification/Operator.thy ===== *)
theory Operator
  imports Concurrency Rollout NamespaceReconcile
begin

text \<open>
  The whole operator: passes of both controllers and the runs of checks they start with \<open>go\<close>, all at
  once, interleaved at their calls, against an API server that may answer anything. A pass that
  begins later is a thread of the pool that has not moved yet.
\<close>

section \<open>The operator\<close>

datatype pass = WorkloadPass string string | NamespacePass string

text \<open>A goroutine's result is dropped.\<close>

definition task :: "'a io \<Rightarrow> unit io" where
  "task p = pbind p (\<lambda>_. Ret ())"

fun pass_program :: "'d drain \<Rightarrow> 'f float64 \<Rightarrow> lib \<Rightarrow> nat \<Rightarrow> pass \<Rightarrow> unit io" where
  "pass_program D F L fuel (WorkloadPass name namespace) = task (Reconcile D F L name namespace)"
| "pass_program D F L fuel (NamespacePass name) = task (NReconcile L fuel name)"

text \<open>\<open>go checkRunner.RunCheck(ctx, securityContext)\<close> on the runner made for the object and the type.\<close>

fun operator_spawn :: "'d drain \<Rightarrow> lib \<Rightarrow> nat \<Rightarrow> nat \<Rightarrow> call \<Rightarrow> unit io list" where
  "operator_spawn D L lfuel wfuel (GoRunCheck whc ty sc) = [RunCheck D L lfuel wfuel sc (NewWorkloadCheckRunner L whc ty)]"
| "operator_spawn D L lfuel wfuel c = []"

section \<open>Writes to the cluster\<close>

text \<open>
  What a thread may write while it knows a set of namespaces: the ghost state holds the namespaces
  that answers have made known (\<open>adm\<close>) and the bindings listed last; \<open>wr\<close> says whether the thread
  writes at all or only deletes.
\<close>

definition scope_may :: "bool \<Rightarrow> string set \<times> ClusterRoleBinding set \<Rightarrow> call \<Rightarrow> bool" where
  "scope_may wr = (\<lambda>(S, B) c. case c of
     UpdateWorkload w \<Rightarrow> wr \<and> wl_Namespace w \<in> S
   | CreateNamespace n \<Rightarrow> wr \<and> nsp_Name n \<in> S
   | CreateResource u \<Rightarrow> wr \<and> u_Namespace u \<in> S
   | CreateClusterRoleBinding b \<Rightarrow> wr \<and> target_label b \<in> S
   | DeleteNamespace n \<Rightarrow> n \<in> S
   | DeleteClusterRoleBinding n \<Rightarrow> (\<exists>b \<in> B. crb_Name b = n \<and> target_label b \<in> S)
   | _ \<Rightarrow> True)"

definition scope :: "bool \<Rightarrow> (call \<Rightarrow> resp \<Rightarrow> string set) \<Rightarrow> (string set \<times> ClusterRoleBinding set, call, resp) contract" where
  "scope wr adm = \<lparr>rg_may = scope_may wr,
     rg_ans = (\<lambda>_ c r. case c of
        GetWorkload k ns n \<Rightarrow> (case r of RWorkload w \<Rightarrow> wl_Namespace w = ns | _ \<Rightarrow> True)
      | ListResources g v n ns \<Rightarrow> (case r of RResources us \<Rightarrow> \<forall>u \<in> set us. u_Namespace u = ns | _ \<Rightarrow> True)
      | _ \<Rightarrow> True),
     rg_next = (\<lambda>(S, B) c r. (S \<union> adm c r,
        case c of ListClusterRoleBindings \<Rightarrow> (case r of RBindings bs \<Rightarrow> set bs | _ \<Rightarrow> B) | _ \<Rightarrow> B)),
     rg_crash = (\<lambda>_. True)\<rparr>"

text \<open>Calls that do not write to the cluster, objects of the operator's own kinds apart.\<close>

definition unscoped :: "call \<Rightarrow> bool" where
  "unscoped c \<longleftrightarrow> (\<forall>wr s. scope_may wr s c)"

lemma unscoped_simps [simp]:
  "unscoped (GetNhc n)" "unscoped (UpdateNhcStatus x)" "unscoped (ListWhcs ns)" "unscoped (GetNamespace n)" "unscoped Now"
  "unscoped (RetryAgain e)" "unscoped (Event a b c)" "unscoped (GoRunCheck w t sc)" "unscoped (RandIntn d)" "unscoped (Sleep d)"
  "unscoped (GetWhc a b)" "unscoped (ListNamespaces ls)" "unscoped (CreateWhc w)" "unscoped (RandString d)" "unscoped MapOrder"
  by (simp_all add: unscoped_def scope_may_def split_beta)

lemma plain_unscoped: "plain_call c \<Longrightarrow> unscoped c"
  by (cases c) (simp_all add: plain_call_def unscoped_def scope_may_def split_beta)

lemma early_unscoped: "early_call L c \<Longrightarrow> unscoped c"
  by (cases c) (simp_all add: early_call_def unscoped_def scope_may_def split_beta)

lemma scope_simps [simp]:
  "rg_may (scope wr adm) = scope_may wr" "rg_crash (scope wr adm) e"
  "fst (rg_next (scope wr adm) s c r) = fst s \<union> adm c r"
  by (simp_all add: scope_def split_beta)

text \<open>A namespace once known stays known.\<close>

lemma scope_keeps: "meets (scope wr adm) p Q s \<Longrightarrow> t \<in> fst s \<Longrightarrow> meets (scope wr adm) p (\<lambda>s a. Q s a \<and> t \<in> fst s) s"
  by (rule meets_stable) auto

lemma unscoped_meets: "calls_only unscoped p \<Longrightarrow> meets (scope wr adm) p (\<lambda>_ _. True) s"
  by (erule calls_only_meets) (auto simp: unscoped_def)

lemma unscoped_then:
  assumes "calls_only unscoped p" and "\<And>s a. meets (scope wr adm) (f a) Q s"
  shows "meets (scope wr adm) (pbind p f) Q s"
  unfolding meets_pbind by (rule meets_mono [OF unscoped_meets [OF assms(1)]]) (rule assms(2))

lemma unscoped_then_known:
  assumes "calls_only unscoped p" and "t \<in> fst s" and "\<And>s a. t \<in> fst s \<Longrightarrow> meets (scope wr adm) (f a) Q s"
  shows "meets (scope wr adm) (pbind p f) Q s"
  unfolding meets_pbind by (rule meets_mono [OF scope_keeps [OF unscoped_meets [OF assms(1)] assms(2)]]) (simp add: assms(3))

text \<open>Deleting and the final run, known to stay in \<open>t\<close>, seen in a larger scope.\<close>

abbreviation labelled :: "string \<Rightarrow> string set \<times> ClusterRoleBinding set \<Rightarrow> string set" where
  "labelled t s \<equiv> crb_Name ` {b \<in> snd s. target_label b = t}"

lemma Delete_scope: "t \<in> fst s \<Longrightarrow> meets (scope wr adm) (Delete t) (\<lambda>_ _. True) s"
  by (rule meets_mono [OF meets_refine_inv [where f = "labelled t" and I = "\<lambda>s. t \<in> fst s" and Q = "\<lambda>_ _. True" and s = s,
        OF Delete_meets [of t "labelled t s"]]])
    (auto simp: delete_contract_def scope_def scope_may_def split_beta split: call.splits resp.splits)

lemma final_scope_may: "t \<in> fst s \<Longrightarrow> final_may t (labelled t s) c \<Longrightarrow> scope_may True s c"
  by (cases c) (auto simp: final_may_def free_call_def scope_may_def split_beta)

lemma createFinalCheckRun_scope:
  assumes "service_conversion L" and "final_namespace nh \<in> fst s"
  shows "meets (scope True adm) (createFinalCheckRun L fuel nh) (\<lambda>_ _. True) s"
proof -
  let ?t = "final_namespace nh"
  have "meets (scope True adm) (createFinalCheckRun L fuel nh) (\<lambda>s _. True \<and> ?t \<in> fst s) s"
    by (rule meets_refine_inv [where f = "labelled ?t" and I = "\<lambda>s. ?t \<in> fst s" and Q = "\<lambda>_ _. True" and s = s,
        OF createFinalCheckRun_in [OF assms(1)] assms(2)])
      (auto simp: final_scope_may final_contract_def scope_def split_beta split: call.splits resp.splits)
  then show ?thesis by (rule meets_mono) simp
qed

section \<open>Passes\<close>

subsection \<open>Workload controller\<close>

text \<open>A pass learns of namespaces from the API server's list of clones.\<close>

fun adm_listed :: "call \<Rightarrow> resp \<Rightarrow> string set" where
  "adm_listed (ListNamespaces ls) (RNamespaces ns) = (if map fst ls = [''orakel.fhnw.ch/source-namespace''] then nsp_Name ` set ns else {})"
| "adm_listed c r = {}"

lemma unscoped_start_check [simp]: "calls_only unscoped (start_check whc t m)"
  unfolding start_check_def by (auto intro!: calls_intros)

lemma plain_then_unscoped: "plain p \<Longrightarrow> calls_only unscoped p"
  by (erule calls_only_mono) (rule plain_unscoped)

lemmas unscoped_programs [simp] = plain_programs [THEN plain_then_unscoped]

lemma unscoped_sequential [simp]: "calls_only unscoped (sequential_loop L whc ts m)"
  by (induction ts arbitrary: m) (auto intro!: calls_intros)

lemma unscoped_recordChecks [simp]: "calls_only unscoped (recordChecks L whc m)"
  unfolding recordChecks_def parallel_round_def
  by (auto intro!: calls_intros)

lemma unscoped_recordBaseline [simp]: "calls_only unscoped (recordBaseline L whc m)"
  unfolding recordBaseline_def by (auto intro!: calls_intros)

lemma unscoped_recording [simp]: "calls_only unscoped (reconcile_recording L whc m)"
  unfolding reconcile_recording_def Let_def
  by (auto intro!: calls_intros)

lemma unscoped_analysis [simp]: "calls_only unscoped (reconcile_analysis D F L whc m)"
  unfolding reconcile_analysis_def reconcile_final_def
  by (auto intro!: calls_intros split: prod.splits option.splits)

lemma cleanup_scope: "meets (scope wr adm_listed) (cleanupReconcileLoop ns) (\<lambda>_ _. True) s"
proof -
  have one: "meets (scope wr adm_listed) (pbind (Delete (nsp_Name n)) (\<lambda>_. Ret ())) (\<lambda>s _. nsp_Name ` set items \<subseteq> fst s) s"
    if "n \<in> set items" "nsp_Name ` set items \<subseteq> fst s" for n items s
  proof -
    have "meets (scope wr adm_listed) (Delete (nsp_Name n)) (\<lambda>s _. True \<and> nsp_Name ` set items \<subseteq> fst s) s"
      by (rule meets_stable [OF Delete_scope]) (use that in auto)
    then show ?thesis by (simp add: meets_mono)
  qed
  have all: "meets (scope wr adm_listed) (pfold (\<lambda>ns _. pbind (Delete (nsp_Name ns)) (\<lambda>_. Ret ())) items ())
      (\<lambda>_ _. True) s" if "nsp_Name ` set items \<subseteq> fst s" for items s
    by (rule meets_mono [OF meets_pfold [where I = "\<lambda>s _. nsp_Name ` set items \<subseteq> fst s"]]) (use one that in auto)
  have list: "meets (scope wr adm_listed) (list_namespaces [(''orakel.fhnw.ch/source-namespace'', ns)])
      (\<lambda>s r. \<forall>items. r = Inr items \<longrightarrow> nsp_Name ` set items \<subseteq> fst s) s" for s
    by (auto simp: meets_ask scope_may_def or_err_def as_namespaces_def split: resp.splits prod.splits)
  show ?thesis
    unfolding cleanupReconcileLoop_def meets_pbind
    by (rule meets_mono [OF list]) (auto split: sum.splits intro: all)
qed

lemma Reconcile_scope: "meets (scope False adm_listed) (Reconcile D F L name namespace) (\<lambda>_ _. True) s"
proof -
  have rest: "calls_only unscoped (if is_true L (conds whc) ConditionTypeFinished then Ret done_result
         else let m = whc
           in pbind (if RecommendationExists m then FinalCheckRecorded L m else Ret (False, m)) (\<lambda>(recorded, m).
                if recorded
                then pbind (SetCondition L c m) (\<lambda>(e, m). case e of
                    Some err \<Rightarrow> Ret (0, Some err)
                  | None \<Rightarrow> pbind (RemoveCheckConditions L m) (\<lambda>(e, m). Ret (0, e)))
                else reconcile_analysis D F L whc m))" for whc c
    unfolding Let_def by (auto intro!: calls_intros split: prod.splits option.splits)
  show ?thesis
    unfolding Reconcile_def
  proof (rule unscoped_then, simp)
    fix g :: "error + Whc" and s
    show "meets (scope False adm_listed) (case g of
        Inl e \<Rightarrow> if IsNotFound e then cleanupReconcileLoop namespace else Ret (1 * minute, Some e)
      | Inr whc \<Rightarrow>
         if is_true L (conds whc) ConditionTypeFinished then Ret done_result
         else
           let m = whc
           in pbind (if RecommendationExists m then FinalCheckRecorded L m else Ret (False, m)) (\<lambda>(recorded, m).
                if recorded
                then pbind (SetCondition L (mk_condition ConditionTypeFinished ConditionTrue ConditionTypeFinished
                      ''Finished, recommendation ready'') m) (\<lambda>(e, m). case e of
                    Some err \<Rightarrow> Ret (0, Some err)
                  | None \<Rightarrow> pbind (RemoveCheckConditions L m) (\<lambda>(e, m). Ret (0, e)))
                else reconcile_analysis D F L whc m)) (\<lambda>_ _. True) s"
    proof (cases g)
      case (Inl e)
      then show ?thesis by (simp add: cleanup_scope)
    next
      case (Inr whc)
      show ?thesis unfolding Inr sum.case by (rule unscoped_meets [OF rest])
    qed
  qed
qed

subsection \<open>Namespace controller\<close>

text \<open>A pass knows the clones of the namespace checks it has fetched.\<close>

fun adm_final :: "call \<Rightarrow> resp \<Rightarrow> string set" where
  "adm_final (GetNhc n) (RNhc nh) = {final_namespace nh}"
| "adm_final c r = {}"

definition known :: "Nhc \<Rightarrow> string set \<times> ClusterRoleBinding set \<Rightarrow> bool" where
  "known nh s \<longleftrightarrow> final_namespace nh \<in> fst s"

lemma final_namespace_status [simp]: "final_namespace (with_nconditions cs nh) = final_namespace nh"
  "final_namespace (nh\<lparr>nhc_Status := st\<rparr>) = final_namespace nh"
  by (simp_all add: final_namespace_def with_nconditions_def)

lemma known_status [simp]: "known (with_nconditions cs nh) s = known nh s" "known (nh\<lparr>nhc_Status := st\<rparr>) s = known nh s"
  by (simp_all add: known_def)

lemma get_nhc_known:
  "meets (scope True adm_final) (get_nhc n) (\<lambda>s r. \<forall>nh. r = Inr nh \<longrightarrow> known nh s) s"
  by (auto simp: meets_ask scope_may_def or_err_def as_nhc_def known_def split: resp.splits prod.splits)

lemma fetch_then:
  assumes "known nh s" and "\<And>s e. known nh s \<Longrightarrow> meets (scope True adm_final) (f (Inl e)) Q s"
    and "\<And>s x. known nh s \<Longrightarrow> known x s \<Longrightarrow> meets (scope True adm_final) (f (Inr x)) Q s"
  shows "meets (scope True adm_final) (pbind (get_nhc n) f) Q s"
  unfolding meets_pbind
proof (rule meets_mono [OF scope_keeps [OF get_nhc_known assms(1) [unfolded known_def]]])
  fix s and r :: "error + Nhc"
  assume "(\<forall>nh. r = Inr nh \<longrightarrow> known nh s) \<and> final_namespace nh \<in> fst s"
  then show "meets (scope True adm_final) (f r) Q s"
    using assms(2,3) [unfolded known_def] by (cases r) (auto simp: known_def)
qed

lemma write_then:
  assumes "unscoped c" and "known nh s" and "\<And>s a. known nh s \<Longrightarrow> meets (scope True adm_final) (f a) Q s"
  shows "meets (scope True adm_final) (pbind (ask c dec) f) Q s"
  by (rule unscoped_then_known [where t = "final_namespace nh"]) (use assms in \<open>auto simp: known_def\<close>)

text \<open>Both retried functions fetch the check again and write its status.\<close>

lemma retried_known:
  assumes "\<And>s nh. known nh s \<Longrightarrow> meets (scope True adm_final) (fn nh) (\<lambda>s (e, nh'). known nh' s) s" and "known nh s"
  shows "meets (scope True adm_final) (RetryOnConflict retry_again n fn nh) (\<lambda>s (e, nh'). known nh' s) s"
proof -
  have "meets (scope True adm_final) (RetryOnConflict retry_again n fn nh) (\<lambda>s (e, nh'). known nh' s \<and> True) s"
  proof (rule meets_RetryOnConflict [where Q = "\<lambda>_ _. True"])
    fix s e and nh :: Nhc
    assume "known nh s"
    then show "meets (scope True adm_final) (retry_again e) (\<lambda>s more. if more then known nh s else known nh s \<and> True) s"
      by (auto simp: meets_ask scope_may_def known_def split: option.splits prod.splits)
  qed (use assms in \<open>simp_all split: prod.splits\<close>)
  then show ?thesis by simp
qed

lemma write_twice:
  assumes "known x s" and "\<And>t s. known (g t) s = known x s"
  shows "meets (scope True adm_final) (pbind now (\<lambda>t. pbind (update_nhc_status (g t)) (\<lambda>e. Ret (e, g t)))) (\<lambda>s (e, nh'). known nh' s) s"
  by (rule write_then [OF _ assms(1)], simp, rule write_then [where nh = x]) (simp_all add: assms(2))

lemma nset_then:
  assumes "known nh s" and "\<And>s nh'. known nh' s \<Longrightarrow> meets (scope True adm_final) (f nh') Q s"
  shows "meets (scope True adm_final) (pbind (nset L st re me nh) f) Q s"
proof -
  have "meets (scope True adm_final) (NSetCondition_attempt L c nh) (\<lambda>s (e, nh'). known nh' s) s" if "known nh s" for c nh s
    unfolding NSetCondition_attempt_def
    by (rule fetch_then [OF that], simp, simp only: Let_def sum.case, rule write_twice, assumption, simp)
  from retried_known [OF this assms(1)] show ?thesis
    unfolding nset_def NSetCondition_def pbind_assoc meets_pbind
    by (rule meets_mono) (auto intro: assms(2))
qed

lemma Finalize_then:
  assumes "known nh s" and "\<And>s e nh'. known nh' s \<Longrightarrow> meets (scope True adm_final) (f (e, nh')) Q s"
  shows "meets (scope True adm_final) (pbind (RetryOnConflict retry_again n (Finalize_attempt L name recs) nh) f) Q s"
proof -
  have "meets (scope True adm_final) (Finalize_attempt L name recs nh) (\<lambda>s (e, nh'). known nh' s) s" if "known nh s" for nh s
    unfolding Finalize_attempt_def
    by (rule fetch_then [OF that], simp, simp only: Let_def sum.case, rule write_twice, assumption, simp)
  from retried_known [OF this assms(1)] show ?thesis
    unfolding meets_pbind by (rule meets_mono) (auto intro: assms(2))
qed

lemma known_then:
  assumes "calls_only unscoped p" and "known nh s" and "\<And>s a. known nh s \<Longrightarrow> meets (scope True adm_final) (f a) Q s"
  shows "meets (scope True adm_final) (pbind p f) Q s"
  by (rule unscoped_then_known [where t = "final_namespace nh"]) (use assms in \<open>auto simp: known_def\<close>)

lemma early_parts [simp]:
  "calls_only unscoped (getTopLevelResourcesToCheck L nh)" "calls_only unscoped (create_round L nh u cs)"
  by (rule calls_only_mono [OF early_resources] calls_only_mono [OF early_create], erule early_unscoped)+

lemma nset_last: "known nh s \<Longrightarrow> meets (scope True adm_final) (pbind (nset L st re me nh) (\<lambda>_. Ret res)) (\<lambda>_ _. True) s"
  by (rule nset_then) simp_all

lemma final_scope:
  assumes "service_conversion L" and "known nh s"
  shows "meets (scope True adm_final) (reconcile_namespace_final L fuel name cs nh) (\<lambda>_ _. True) s"
proof -
  have concluded: "meets (scope True adm_final) (case e of
      Some err \<Rightarrow> pbind (nset L ConditionTrue re (m err) nh) (\<lambda>_. Ret (0, Some err))
    | None \<Rightarrow> pbind (if success then nset L ConditionTrue re' m' nh else nset L ConditionTrue re'' m'' nh) (\<lambda>_. Ret done_result))
      (\<lambda>_ _. True) s" if "known nh s" for e success re m re' m' re'' m'' nh s
    using that by (auto simp del: meets_pbind intro: nset_last split: option.splits)
  have run: "meets (scope True adm_final) (createFinalCheckRun L fuel nh) (\<lambda>s _. True \<and> known nh s) s" if "known nh s" for nh s
    using scope_keeps [OF createFinalCheckRun_scope [OF assms(1)], of nh s "final_namespace nh"] that by (simp add: known_def)
  show ?thesis
    unfolding reconcile_namespace_final_def
  proof (rule Finalize_then [OF assms(2)], simp only: prod.case)
    fix s nh' and e :: "error option"
    assume "known nh' s"
    then show "meets (scope True adm_final) (pbind (createFinalCheckRun L fuel nh') (\<lambda>(success, e). case e of
       Some err \<Rightarrow> pbind (nset L ConditionTrue ConditionTypeFinished
           (''Failed to create final check run for namespace hardening: '' @ lib_Error L err) nh') (\<lambda>_. Ret (0, Some err))
     | None \<Rightarrow>
         pbind (if success
                then nset L ConditionTrue ReasonSuccess ''Namespace hardening checks completed successfully'' nh'
                else nset L ConditionTrue ReasonFailed ''Final check run failed, not all workloads are running successfully'' nh')
           (\<lambda>_. Ret done_result))) (\<lambda>_ _. True) s"
      unfolding meets_pbind [where p = "createFinalCheckRun L fuel nh'"]
      by (rule meets_mono [OF run]) (simp_all only: split_beta concluded simp_thms)
  qed
qed

lemma checks_scope:
  assumes "service_conversion L" and "known nh s"
  shows "meets (scope True adm_final) (reconcile_namespace_checks L fuel name us nh) (\<lambda>_ _. True) s"
proof -
  have listed: "meets (scope True adm_final) (pbind (list_whcs ns) (\<lambda>r. case r of
       Inl e \<Rightarrow> Ret (1 * minute, Some e)
     | Inr checks \<Rightarrow>
         let finishedCount = length (finished_checks L checks)
         in if finishedCount \<noteq> length checks
            then pbind (nset L ConditionFalse ReasonNamespaceInProgress (''NamespaceHardeningCheck is in progress, '' @
                   decimal finishedCount @ ''/'' @ decimal (length us) @ '' finished'') nh') (\<lambda>_. Ret (30 * second, None))
            else reconcile_namespace_final L fuel name checks nh')) (\<lambda>_ _. True) s" if "known nh' s" for ns nh' s
    by (rule known_then [OF _ that]) (auto simp: Let_def nset_last final_scope [OF assms(1)] simp del: meets_pbind split: sum.split)
  have created: "meets (scope True adm_final) (pbind (if b then Ret nh' else pbind (event x y z) (\<lambda>_. nset L st re me nh')) f) (\<lambda>_ _. True) s"
    if "known nh' s" "\<And>s nh'. known nh' s \<Longrightarrow> meets (scope True adm_final) (f nh') (\<lambda>_ _. True) s"
    for b x y z st re me nh' s and f :: "Nhc \<Rightarrow> reconcile_result io"
    using that by (cases b) (auto simp: pbind_assoc simp del: meets_pbind intro!: known_then [of _ nh'] nset_then)
  show ?thesis
    unfolding reconcile_namespace_checks_def
    by (rule known_then [OF _ assms(2)], rule calls_only_pfold, simp, rule created, assumption, rule listed)
qed

lemma NReconcile_scope:
  assumes "service_conversion L"
  shows "meets (scope True adm_final) (NReconcile L fuel name) (\<lambda>_ _. True) s"
proof -
  have checked: "meets (scope True adm_final) (pbind (getTopLevelResourcesToCheck L nh) (\<lambda>us. if length us = 0
      then pbind (nset L ConditionTrue ReasonAnalysisFinished me nh) (\<lambda>_. Ret done_result)
      else reconcile_namespace_checks L fuel name us nh)) (\<lambda>_ _. True) s" if "known nh s" for nh me s
    by (rule known_then [OF _ that], simp) (simp add: nset_last checks_scope [OF assms] del: meets_pbind)
  have prepared: "meets (scope True adm_final) (pbind (if b then nset L ConditionFalse re me nh else Ret nh) (\<lambda>nh.
      pbind (getTopLevelResourcesToCheck L nh) (\<lambda>us. if length us = 0
      then pbind (nset L ConditionTrue ReasonAnalysisFinished me' nh) (\<lambda>_. Ret done_result)
      else reconcile_namespace_checks L fuel name us nh))) (\<lambda>_ _. True) s" if "known nh s" for b re me me' nh s
    using nset_then [OF that checked] checked [OF that] by (cases b) (simp_all del: meets_pbind)
  have target: "meets (scope True adm_final) (pbind (get_namespace t) (\<lambda>g. case g of
        Inl e \<Rightarrow> if IsNotFound e then pbind (nset L ConditionFalse re me nh) (\<lambda>_. Ret done_result) else Ret (1 * minute, None)
      | Inr ns \<Rightarrow> pbind (if b then nset L ConditionFalse re' me' nh else Ret nh) (\<lambda>nh.
          pbind (getTopLevelResourcesToCheck L nh) (\<lambda>us. if length us = 0
          then pbind (nset L ConditionTrue ReasonAnalysisFinished me'' nh) (\<lambda>_. Ret done_result)
          else reconcile_namespace_checks L fuel name us nh)))) (\<lambda>_ _. True) s" if "known nh s" for t b nh re me re' me' me'' s
  proof (rule known_then [OF _ that], simp)
    fix s and g :: "error + Namespace"
    assume k: "known nh s"
    show "meets (scope True adm_final) (case g of
        Inl e \<Rightarrow> if IsNotFound e then pbind (nset L ConditionFalse re me nh) (\<lambda>_. Ret done_result) else Ret (1 * minute, None)
      | Inr ns \<Rightarrow> pbind (if b then nset L ConditionFalse re' me' nh else Ret nh) (\<lambda>nh.
          pbind (getTopLevelResourcesToCheck L nh) (\<lambda>us. if length us = 0
          then pbind (nset L ConditionTrue ReasonAnalysisFinished me'' nh) (\<lambda>_. Ret done_result)
          else reconcile_namespace_checks L fuel name us nh))) (\<lambda>_ _. True) s"
    proof (cases g)
      case (Inl e)
      show ?thesis unfolding Inl sum.case by (rule meets_if) (simp_all add: nset_last [OF k] del: meets_pbind)
    next
      case (Inr ns)
      show ?thesis unfolding Inr sum.case by (rule prepared [OF k])
    qed
  qed
  show ?thesis
    unfolding NReconcile_def meets_pbind [where p = "get_nhc name"]
  proof (rule meets_mono [OF get_nhc_known], goal_cases)
    case (1 s g)
    show ?case
    proof (cases g)
      case (Inr nh)
      with 1 have "known nh s" by simp
      then show ?thesis
        unfolding Inr sum.case by (intro meets_if target) simp_all
    qed simp
  qed
qed

section \<open>Along an execution\<close>

lemma follow_scope:
  "located_all l \<Longrightarrow> \<exists>S B. follow (scope wr adm) s l = Some (S, B) \<and>
     (\<forall>t \<in> S. t \<in> fst s \<or> (\<exists>(c, r) \<in> set l. t \<in> adm c r)) \<and>
     (\<forall>b \<in> B. b \<in> snd s \<or> (\<exists>bs. (ListClusterRoleBindings, RBindings bs) \<in> set l \<and> b \<in> set bs))"
proof (induction l arbitrary: s)
  case Nil
  then show ?case by (cases s) simp
next
  case (Cons p l)
  obtain c r where p: "p = (c, r)" by (cases p)
  let ?s = "rg_next (scope wr adm) s c r"
  have ans: "rg_ans (scope wr adm) s c r"
    using Cons.prems by (cases c; cases r) (auto simp: p located_all_def scope_def)
  have loc: "located_all l" using Cons.prems by (auto simp: located_all_def)
  have bindings: "\<forall>b \<in> snd ?s. b \<in> snd s \<or> (\<exists>bs. c = ListClusterRoleBindings \<and> r = RBindings bs \<and> b \<in> set bs)"
    by (cases c; cases r) (auto simp: scope_def split_beta)
  have names: "fst ?s = fst s \<union> adm c r" by simp
  obtain S B where sb: "follow (scope wr adm) ?s l = Some (S, B)"
    "\<forall>t \<in> S. t \<in> fst ?s \<or> (\<exists>(c, r) \<in> set l. t \<in> adm c r)"
    "\<forall>b \<in> B. b \<in> snd ?s \<or> (\<exists>bs. (ListClusterRoleBindings, RBindings bs) \<in> set l \<and> b \<in> set bs)"
    using Cons.IH [OF loc] by blast
  have "\<forall>t \<in> S. t \<in> fst s \<or> (\<exists>(c, r) \<in> set (p # l). t \<in> adm c r)"
    using sb(2) unfolding names p by auto
  moreover have "\<forall>b \<in> B. b \<in> snd s \<or> (\<exists>bs. (ListClusterRoleBindings, RBindings bs) \<in> set (p # l) \<and> b \<in> set bs)"
    using sb(3) bindings unfolding p by fastforce
  ultimately show ?case using ans sb(1) by (intro exI [of _ S] exI [of _ B]) (simp add: p)
qed

text \<open>What a thread that keeps to a scope writes it learned of from its answers.\<close>

lemma scope_at:
  assumes "meets (scope wr adm) p (\<lambda>_ _. True) ({}, {})" and "drive p rs = (l, out)" and "located_all l" and "(c, r) \<in> set l"
  shows "\<exists>S B. scope_may wr (S, B) c \<and> (\<forall>t \<in> S. \<exists>(c, r) \<in> set l. t \<in> adm c r) \<and>
    (\<forall>b \<in> B. \<exists>bs. (ListClusterRoleBindings, RBindings bs) \<in> set l \<and> b \<in> set bs)"
proof -
  from assms(4) obtain pre post where l: "l = pre @ (c, r) # post" by (auto simp: in_set_conv_decomp)
  have "located_all pre" using assms(3) by (auto simp: l located_all_def)
  then obtain S B where f: "follow (scope wr adm) ({}, {}) pre = Some (S, B)"
    and S: "\<forall>t \<in> S. \<exists>(c, r) \<in> set pre. t \<in> adm c r"
    and B: "\<forall>b \<in> B. \<exists>bs. (ListClusterRoleBindings, RBindings bs) \<in> set pre \<and> b \<in> set bs"
    using follow_scope [of pre wr adm "({}, {})"] by auto
  have "scope_may wr (S, B) c" using meets_at [OF assms(1) assms(2) [unfolded l] f] by simp
  with S B show ?thesis unfolding l by fastforce
qed

text \<open>The namespaces an execution makes known: clones of started runs, final clones, listed clones.\<close>

definition run_clone :: "lib \<Rightarrow> (call, resp) events \<Rightarrow> string \<Rightarrow> bool" where
  "run_clone L es t \<longleftrightarrow> (\<exists>j whc ty sc r. (j, GoRunCheck whc ty sc, r) \<in> set es \<and>
     t = generateTargetNamespaceName (NewWorkloadCheckRunner L whc ty))"

definition final_clone :: "(call, resp) events \<Rightarrow> string \<Rightarrow> bool" where
  "final_clone es t \<longleftrightarrow> (\<exists>j n nh. (j, GetNhc n, RNhc nh) \<in> set es \<and> t = final_namespace nh)"

definition listed_clone :: "(call, resp) events \<Rightarrow> string \<Rightarrow> bool" where
  "listed_clone es t \<longleftrightarrow> (\<exists>j source nss n. (j, ListNamespaces [(''orakel.fhnw.ch/source-namespace'', source)], RNamespaces nss) \<in> set es \<and>
     n \<in> set nss \<and> t = nsp_Name n)"

definition cluster_write_ok :: "(string \<Rightarrow> bool) \<Rightarrow> (string \<Rightarrow> bool) \<Rightarrow> (ClusterRoleBinding \<Rightarrow> bool) \<Rightarrow> call \<Rightarrow> bool" where
  "cluster_write_ok mine deletable seen c = (case c of
      UpdateWorkload w \<Rightarrow> mine (wl_Namespace w)
    | CreateNamespace n \<Rightarrow> mine (nsp_Name n)
    | CreateResource u \<Rightarrow> mine (u_Namespace u)
    | CreateClusterRoleBinding b \<Rightarrow> mine (target_label b)
    | DeleteNamespace n \<Rightarrow> mine n \<or> deletable n
    | DeleteClusterRoleBinding n \<Rightarrow> (\<exists>b. seen b \<and> crb_Name b = n \<and> (mine (target_label b) \<or> deletable (target_label b)))
    | _ \<Rightarrow> True)"

lemma cluster_write_mono:
  "cluster_write_ok m d s c \<Longrightarrow> (\<And>t. m t \<Longrightarrow> m' t) \<Longrightarrow> (\<And>t. d t \<Longrightarrow> d' t) \<Longrightarrow> (\<And>b. s b \<Longrightarrow> s' b) \<Longrightarrow> cluster_write_ok m' d' s' c"
  unfolding cluster_write_ok_def by (cases c) (simp_all, blast+)

lemma scope_write:
  "scope_may wr (S, B) c \<Longrightarrow> cluster_write_ok (\<lambda>t. wr \<and> t \<in> S) (\<lambda>t. t \<in> S) (\<lambda>b. b \<in> B) c"
  by (cases c) (auto simp: scope_may_def cluster_write_ok_def)

text \<open>The bindings listed in an execution.\<close>

definition listed_binding :: "(call, resp) events \<Rightarrow> ClusterRoleBinding \<Rightarrow> bool" where
  "listed_binding es b \<longleftrightarrow> (\<exists>j bs. (j, ListClusterRoleBindings, RBindings bs) \<in> set es \<and> b \<in> set bs)"

lemma run_writes:
  assumes "service_conversion L" and "drive (RunCheck D L lfuel wfuel sc r) rs = (l, out)" and "located_all l" and "(c, a) \<in> set l"
  shows "cluster_write_ok (\<lambda>t. t = generateTargetNamespaceName r) (\<lambda>_. False)
    (\<lambda>b. \<exists>bs. (ListClusterRoleBindings, RBindings bs) \<in> set l \<and> b \<in> set bs) c"
proof -
  from assms(4) obtain pre post where l: "l = pre @ (c, a) # post" by (auto simp: in_set_conv_decomp)
  have "located pre" using assms(3) by (auto simp: l located_all_def located_def)
  from RunCheck_at [OF assms(1) assms(2) [unfolded l] this] obtain t where
    "run_may L (rn_conditionType r) (generateTargetNamespaceName r) (recording_key (store_key r @ '':'' @ rn_checkType r)) t c"
    and "\<forall>n \<in> gh_bindings t. \<exists>bs b. (ListClusterRoleBindings, RBindings bs) \<in> set pre \<and> b \<in> set bs \<and>
        crb_Name b = n \<and> target_label b = generateTargetNamespaceName r" by blast
  then show ?thesis
    unfolding l by (cases c) (simp_all add: run_may_def cluster_write_ok_def, fastforce)
qed

lemma task_log: "drive (task p) rs = (l, out) \<Longrightarrow> \<exists>out'. drive p rs = (l, out')"
proof (induction p arbitrary: rs l out)
  case (Call c k)
  then show ?case by (fastforce simp: task_def split: list.splits prod.splits)
qed (auto simp: task_def)

lemma task_scope: "meets (scope wr adm) p (\<lambda>_ _. True) s \<Longrightarrow> meets (scope wr adm) (task p) (\<lambda>_ _. True) s"
  by (simp add: task_def)

lemma pass_writes:
  assumes "service_conversion L" and "drive (pass_program D F L fuel pa) rs = (l, out)" and "located_all l" and "(c, r) \<in> set l"
  shows "cluster_write_ok (\<lambda>t. \<exists>n nh. (GetNhc n, RNhc nh) \<in> set l \<and> t = final_namespace nh)
    (\<lambda>t. \<exists>src nss n. (ListNamespaces [(''orakel.fhnw.ch/source-namespace'', src)], RNamespaces nss) \<in> set l \<and> n \<in> set nss \<and> t = nsp_Name n)
    (\<lambda>b. \<exists>bs. (ListClusterRoleBindings, RBindings bs) \<in> set l \<and> b \<in> set bs) c"
proof (cases pa)
  case (WorkloadPass name namespace)
  obtain S B where may: "scope_may False (S, B) c" and S: "\<forall>t \<in> S. \<exists>(c, r) \<in> set l. t \<in> adm_listed c r"
    and B: "\<forall>b \<in> B. \<exists>bs. (ListClusterRoleBindings, RBindings bs) \<in> set l \<and> b \<in> set bs"
    using scope_at [OF task_scope [OF Reconcile_scope] assms(2) [unfolded WorkloadPass pass_program.simps] assms(3,4)] by blast
  have adm: "\<exists>src nss n. c = ListNamespaces [(''orakel.fhnw.ch/source-namespace'', src)] \<and> r = RNamespaces nss \<and> n \<in> set nss \<and> t = nsp_Name n"
    if "t \<in> adm_listed c r" for t c r
    using that by (cases "(c, r)" rule: adm_listed.cases) (auto split: if_splits)
  show ?thesis
    by (rule cluster_write_mono [OF scope_write [OF may]]) (use S B adm in fastforce)+
next
  case (NamespacePass name)
  obtain S B where may: "scope_may True (S, B) c" and S: "\<forall>t \<in> S. \<exists>(c, r) \<in> set l. t \<in> adm_final c r"
    and B: "\<forall>b \<in> B. \<exists>bs. (ListClusterRoleBindings, RBindings bs) \<in> set l \<and> b \<in> set bs"
    using scope_at [OF task_scope [OF NReconcile_scope [OF assms(1)]] assms(2) [unfolded NamespacePass pass_program.simps] assms(3,4)] by blast
  have adm: "\<exists>n nh. c = GetNhc n \<and> r = RNhc nh \<and> t = final_namespace nh" if "t \<in> adm_final c r" for t c r
    using that by (cases "(c, r)" rule: adm_final.cases) auto
  have "cluster_write_ok (\<lambda>t. t \<in> S) (\<lambda>t. t \<in> S) (\<lambda>b. b \<in> B) c" using scope_write [OF may] by simp
  then have "cluster_write_ok (\<lambda>t. t \<in> S) (\<lambda>_. False) (\<lambda>b. b \<in> B) c" by (cases c) (auto simp: cluster_write_ok_def)
  then show ?thesis
    by (rule cluster_write_mono) (use S B adm in fastforce)+
qed

section \<open>Properties\<close>

text \<open>What thread \<open>i\<close> of an execution is: a pass, or a run a pass started.\<close>

lemma operator_thread:
  assumes "pool_run (operator_spawn D L lfuel wfuel) (map (pass_program D F L fuel) passes) es ps" and "i < length ps"
  shows "\<exists>p out. drive p (map snd (own i es)) = (own i es, out) \<and>
    (if i < length passes then p = pass_program D F L fuel (passes ! i)
     else \<exists>j whc ty sc r. (j, GoRunCheck whc ty sc, r) \<in> set es \<and>
       p = RunCheck D L lfuel wfuel sc (NewWorkloadCheckRunner L whc ty))"
proof -
  obtain p where p: "along p (own i es) (ps ! i)" and origin: "if i < length (map (pass_program D F L fuel) passes)
      then p = map (pass_program D F L fuel) passes ! i
      else \<exists>pre j c r post. es = pre @ (j, c, r) # post \<and> own i pre = [] \<and> p \<in> set (operator_spawn D L lfuel wfuel c)"
    using thread_along [OF assms] by blast
  have started: "\<exists>whc ty sc. c = GoRunCheck whc ty sc \<and> p = RunCheck D L lfuel wfuel sc (NewWorkloadCheckRunner L whc ty)"
    if "p \<in> set (operator_spawn D L lfuel wfuel c)" for c
    using that by (cases c) auto
  show ?thesis
  proof (cases "i < length passes")
    case True
    with origin along_drive [OF p] show ?thesis by (intro exI [of _ p]) auto
  next
    case False
    with origin obtain pre j c r post where "es = pre @ (j, c, r) # post" and "p \<in> set (operator_spawn D L lfuel wfuel c)" by auto
    with started [of c] have run: "\<exists>j whc ty sc r. (j, GoRunCheck whc ty sc, r) \<in> set es \<and>
       p = RunCheck D L lfuel wfuel sc (NewWorkloadCheckRunner L whc ty)" by (metis in_set_conv_decomp)
    show ?thesis by (rule exI [of _ p], rule exI [of _ "status (ps ! i)"]) (simp only: False if_False along_drive [OF p] run simp_thms)
  qed
qed

lemma located_all_subset: "located_all l' \<Longrightarrow> set l \<subseteq> set l' \<Longrightarrow> located_all l"
  unfolding located_all_def by blast

lemma own_located: "located_all (map snd es) \<Longrightarrow> located_all (own i es)"
  by (erule located_all_subset) (auto simp: own_def)

text \<open>C1: the operator changes the cluster only in clones. In any interleaving of any number of passes of both controllers
  and of the runs they start, whatever the API server answers, every workload updated and every namespace, resource or role binding
  created is in, or for, the clone of a run that was started or of a namespace check that was fetched; a namespace is deleted
  only if it is one of these or was listed with the label of a clone; and a role binding is deleted only if it was listed
  with the label of such a namespace. Answers are assumed to name objects of the namespace asked for.\<close>

theorem operator_writes_clones_only:
  assumes "service_conversion L"
    and "pool_run (operator_spawn D L lfuel wfuel) (map (pass_program D F L fuel) passes) es ps"
    and "located_all (map snd es)" and "(i, c, a) \<in> set es"
  shows "case c of
      UpdateWorkload w \<Rightarrow> run_clone L es (wl_Namespace w) \<or> final_clone es (wl_Namespace w)
    | CreateNamespace n \<Rightarrow> run_clone L es (nsp_Name n) \<or> final_clone es (nsp_Name n)
    | CreateResource u \<Rightarrow> run_clone L es (u_Namespace u) \<or> final_clone es (u_Namespace u)
    | CreateClusterRoleBinding b \<Rightarrow> run_clone L es (target_label b) \<or> final_clone es (target_label b)
    | DeleteNamespace n \<Rightarrow> (run_clone L es n \<or> final_clone es n) \<or> listed_clone es n
    | DeleteClusterRoleBinding n \<Rightarrow> (\<exists>b. listed_binding es b \<and> crb_Name b = n \<and>
        ((run_clone L es (target_label b) \<or> final_clone es (target_label b)) \<or> listed_clone es (target_label b)))
    | _ \<Rightarrow> True"
proof -
  have own: "(c, a) \<in> set (own i es)" "located_all (own i es)" using assms(3,4) by (simp_all add: own_located)
  obtain p out where p: "drive p (map snd (own i es)) = (own i es, out)" and origin: "if i < length passes
      then p = pass_program D F L fuel (passes ! i)
      else \<exists>j whc ty sc r. (j, GoRunCheck whc ty sc, r) \<in> set es \<and> p = RunCheck D L lfuel wfuel sc (NewWorkloadCheckRunner L whc ty)"
    using operator_thread [OF assms(2) pool_run_known [OF assms(2,4)]] by blast
  have "cluster_write_ok (\<lambda>t. run_clone L es t \<or> final_clone es t) (listed_clone es) (listed_binding es) c"
  proof (cases "i < length passes")
    case True
    with p origin have "drive (pass_program D F L fuel (passes ! i)) (map snd (own i es)) = (own i es, out)" by simp
    from pass_writes [OF assms(1) this own(2,1)] show ?thesis
      by (rule cluster_write_mono) (auto simp: final_clone_def listed_clone_def listed_binding_def)
  next
    case False
    with origin obtain j whc ty sc r where go: "(j, GoRunCheck whc ty sc, r) \<in> set es"
      and "p = RunCheck D L lfuel wfuel sc (NewWorkloadCheckRunner L whc ty)" by auto
    with p have "drive (RunCheck D L lfuel wfuel sc (NewWorkloadCheckRunner L whc ty)) (map snd (own i es)) = (own i es, out)" by simp
    note writes = run_writes [OF assms(1) this own(2,1)]
    have "run_clone L es (generateTargetNamespaceName (NewWorkloadCheckRunner L whc ty))"
      unfolding run_clone_def using go by blast
    then show ?thesis by (intro cluster_write_mono [OF writes]) (auto simp: listed_binding_def)
  qed
  then show ?thesis unfolding cluster_write_ok_def .
qed

text \<open>C2: concurrent runs are isolated. Every thread that is not a pass is a run some pass started, and whatever else is going on all its
  writes to the cluster are in the one clone named after that run's object and check type.\<close>

theorem every_run_has_its_clone:
  assumes "service_conversion L"
    and "pool_run (operator_spawn D L lfuel wfuel) (map (pass_program D F L fuel) passes) es ps"
    and "located_all (map snd es)" and "length passes \<le> i" and "i < length ps"
  shows "\<exists>j whc ty sc r. (j, GoRunCheck whc ty sc, r) \<in> set es \<and> (\<forall>c a. (i, c, a) \<in> set es \<longrightarrow> (case c of
      UpdateWorkload w \<Rightarrow> wl_Namespace w = generateTargetNamespaceName (NewWorkloadCheckRunner L whc ty)
    | CreateNamespace n \<Rightarrow> nsp_Name n = generateTargetNamespaceName (NewWorkloadCheckRunner L whc ty)
    | CreateResource u \<Rightarrow> u_Namespace u = generateTargetNamespaceName (NewWorkloadCheckRunner L whc ty)
    | CreateClusterRoleBinding b \<Rightarrow> target_label b = generateTargetNamespaceName (NewWorkloadCheckRunner L whc ty)
    | DeleteNamespace n \<Rightarrow> n = generateTargetNamespaceName (NewWorkloadCheckRunner L whc ty)
    | DeleteClusterRoleBinding n \<Rightarrow> (\<exists>b. listed_binding es b \<and> crb_Name b = n \<and>
        target_label b = generateTargetNamespaceName (NewWorkloadCheckRunner L whc ty))
    | _ \<Rightarrow> True))"
proof -
  have loc: "located_all (own i es)" using assms(3) by (rule own_located)
  obtain p out j whc ty sc r where p: "drive p (map snd (own i es)) = (own i es, out)" and go: "(j, GoRunCheck whc ty sc, r) \<in> set es"
    and "p = RunCheck D L lfuel wfuel sc (NewWorkloadCheckRunner L whc ty)"
    using operator_thread [OF assms(2,5)] assms(4) by auto
  with p have run: "drive (RunCheck D L lfuel wfuel sc (NewWorkloadCheckRunner L whc ty)) (map snd (own i es)) = (own i es, out)" by simp
  have "cluster_write_ok (\<lambda>t. t = generateTargetNamespaceName (NewWorkloadCheckRunner L whc ty)) (\<lambda>_. False) (listed_binding es) c"
    if "(i, c, a) \<in> set es" for c a
    by (rule cluster_write_mono [OF run_writes [OF assms(1) run loc, of c a]]) (use that in \<open>auto simp: listed_binding_def\<close>)
  with go show ?thesis unfolding cluster_write_ok_def simp_thms by blast
qed

subsection \<open>A concrete execution\<close>

text \<open>A pass over a check whose baseline was left unfinished starts the baseline again; the run removes the clone that was left.\<close>

definition requeued_check :: Whc where
  "requeued_check = with_conditions [mk_condition ConditionTypeBaseline ConditionUnknown ReasonRequeue '''' ] sample_check"

abbreviation clone_object :: resp where
  "clone_object \<equiv> RNamespace \<lparr>nsp_Name = ''shop-ab12-baseline'', nsp_Labels = []\<rparr>"

abbreviation baseline_runner :: runner where
  "baseline_runner \<equiv> NewWorkloadCheckRunner list_lib requeued_check ''baseline''"

lemma baseline_target: "generateTargetNamespaceName baseline_runner = ''shop-ab12-baseline''"
  by (simp add: generateTargetNamespaceName_def NewWorkloadCheckRunner_def requeued_check_def sample_check_def) code_simp

definition restart_events :: "(call, resp) events" where
  "restart_events = map (Pair 0) (replicate 6 (GetWhc ''web-check'' ''shop'', RWhc requeued_check)) @
     [(0, GoRunCheck requeued_check ''baseline'' None, ROk),
      (1, GetNamespace ''shop-ab12-baseline'', clone_object), (1, GetNamespace ''shop-ab12-baseline'', clone_object),
      (1, DeleteNamespace ''shop-ab12-baseline'', ROk)]"

lemma restart_pass:
  "drive (pass_program D F list_lib fuel (WorkloadPass ''web-check'' ''shop'')) (replicate 6 (RWhc requeued_check)) =
     (replicate 6 (GetWhc ''web-check'' ''shop'', RWhc requeued_check), Waiting (GoRunCheck requeued_check ''baseline'' None))"
proof -
  have c: "conds requeued_check = [mk_condition ConditionTypeBaseline ConditionUnknown ReasonRequeue '''']"
    "whc_Name requeued_check = ''web-check''" "whc_Namespace requeued_check = ''shop''" "ws_SecurityContext (whc_Spec requeued_check) = None"
    by (simp_all add: requeued_check_def sample_check_def)
  have r: "\<not> RecommendationExists requeued_check"
    by (simp add: RecommendationExists_def requeued_check_def sample_check_def)
  have L: "\<not> is_true list_lib [mk_condition ConditionTypeBaseline ConditionUnknown ReasonRequeue ''''] ConditionTypeFinished"
    "\<not> lib_IsStatusConditionPresentAndEqual list_lib [mk_condition ConditionTypeBaseline ConditionUnknown ReasonRequeue ''''] ConditionTypeFinalCheck ConditionUnknown"
    "reason_in list_lib ConditionTypeBaseline ConditionTrue rs [mk_condition ConditionTypeBaseline ConditionUnknown ReasonRequeue ''''] = Inr False"
    "reason_in list_lib ConditionTypeBaseline ConditionFalse rs [mk_condition ConditionTypeBaseline ConditionUnknown ReasonRequeue ''''] = Inr False"
    "reason_in list_lib ConditionTypeFinalCheck ConditionFalse rs [mk_condition ConditionTypeBaseline ConditionUnknown ReasonRequeue ''''] = Inr False"
    for rs
    by (simp_all add: is_true_def list_lib_def reason_in_def)
  show ?thesis
    by (simp add: task_def Reconcile_def reconcile_analysis_def reconcile_final_def reconcile_recording_def recordBaseline_def AllChecksFinished_def
        refreshWorkloadHardeningCheck_def recorded_defs ask_reason_def drive_ask pbind_assoc numeral_eq_Suc c r L Let_def)
qed

lemma restart_run:
  "drive (RunCheck D list_lib lf n None baseline_runner) [clone_object, clone_object, ROk] =
     ([(GetNamespace ''shop-ab12-baseline'', clone_object), (GetNamespace ''shop-ab12-baseline'', clone_object),
       (DeleteNamespace ''shop-ab12-baseline'', ROk)], Waiting ListClusterRoleBindings)"
proof -
  have ct: "rn_conditionType baseline_runner = ConditionTypeBaseline"
    by (simp add: NewWorkloadCheckRunner_def) code_simp
  have whc: "rn_whc baseline_runner = requeued_check" by (simp add: NewWorkloadCheckRunner_def)
  have unk: "lib_IsStatusConditionPresentAndEqual list_lib (conds requeued_check) ConditionTypeBaseline ConditionUnknown"
    by (simp add: list_lib_def requeued_check_def)
  show ?thesis
    unfolding RunCheck_def prepare_namespace_def Let_def baseline_target namespaceExists_def Delete_def
    by (simp add: drive_ask pbind_assoc ct whc unk)
qed

lemma restart_execution:
  "\<exists>ps. length ps = 2 \<and> pool_run (operator_spawn D list_lib lf n) (map (pass_program D F list_lib fuel) [WorkloadPass ''web-check'' ''shop'']) restart_events ps"
proof -
  let ?sp = "operator_spawn D list_lib lf n"
  let ?p = "pass_program D F list_lib fuel (WorkloadPass ''web-check'' ''shop'')"
  let ?l = "replicate 6 (GetWhc ''web-check'' ''shop'', RWhc requeued_check)"
  obtain q where q: "pool_run ?sp [?p] (map (Pair 0) ?l) [q]" "status q = Waiting (GoRunCheck requeued_check ''baseline'' None)"
    using pool_run_drive [OF pool_run.start [of ?sp "[?p]"], of 0, simplified nth_Cons_0 list.size, OF _ restart_pass] by auto
  then obtain k where k: "q = Call (GoRunCheck requeued_check ''baseline'' None) k" unfolding status_Waiting by blast
  have "pool_step ?sp [q] (0, GoRunCheck requeued_check ''baseline'' None, ROk) [k ROk, RunCheck D list_lib lf n None baseline_runner]"
    using pool_step.answer [of 0 "[q]" "GoRunCheck requeued_check ''baseline'' None" k ?sp ROk] k by simp
  from pool_run.step [OF q(1) this] have go: "pool_run ?sp [?p] (map (Pair 0) ?l @ [(0, GoRunCheck requeued_check ''baseline'' None, ROk)])
      [k ROk, RunCheck D list_lib lf n None baseline_runner]" .
  have "\<exists>q. pool_run ?sp [?p] ((map (Pair 0) ?l @ [(0, GoRunCheck requeued_check ''baseline'' None, ROk)]) @ map (Pair 1)
        [(GetNamespace ''shop-ab12-baseline'', clone_object), (GetNamespace ''shop-ab12-baseline'', clone_object),
         (DeleteNamespace ''shop-ab12-baseline'', ROk)]) ([k ROk, RunCheck D list_lib lf n None baseline_runner][1 := q]) \<and>
      status q = Waiting ListClusterRoleBindings"
    by (rule pool_run_drive [OF go, where rs = "[clone_object, clone_object, ROk]"]) (simp_all add: restart_run)
  then obtain q' where "pool_run ?sp [?p] restart_events [k ROk, q']" by (auto simp: restart_events_def)
  then show ?thesis by (intro exI [of _ "[k ROk, q']"]) simp
qed

lemma list_lib_conversion: "service_conversion list_lib"
  by (simp add: service_conversion_def list_lib_def clear_service_def Let_def)

lemma restart_located: "located_all (map snd restart_events)"
  by (simp add: restart_events_def located_all_def numeral_eq_Suc)

lemma operator_writes_clones_only_witness:
  "\<exists>ps. pool_run (operator_spawn seen_lines list_lib 1 26)
       (map (pass_program seen_lines int_floats list_lib 1) [WorkloadPass ''web-check'' ''shop'']) restart_events ps \<and>
     (1, DeleteNamespace ''shop-ab12-baseline'', ROk) \<in> set restart_events \<and>
     ((run_clone list_lib restart_events ''shop-ab12-baseline'' \<or> final_clone restart_events ''shop-ab12-baseline'') \<or>
       listed_clone restart_events ''shop-ab12-baseline'')"
proof -
  obtain ps where ps: "pool_run (operator_spawn seen_lines list_lib 1 26)
       (map (pass_program seen_lines int_floats list_lib 1) [WorkloadPass ''web-check'' ''shop'']) restart_events ps"
    using restart_execution by blast
  have e: "(1, DeleteNamespace ''shop-ab12-baseline'', ROk) \<in> set restart_events" by (simp add: restart_events_def)
  from operator_writes_clones_only [OF list_lib_conversion ps restart_located e] ps e show ?thesis by auto
qed

lemma every_run_has_its_clone_witness:
  "\<exists>ps. pool_run (operator_spawn seen_lines list_lib 1 26)
       (map (pass_program seen_lines int_floats list_lib 1) [WorkloadPass ''web-check'' ''shop'']) restart_events ps \<and>
     (\<exists>j whc ty sc r. (j, GoRunCheck whc ty sc, r) \<in> set restart_events \<and>
       ''shop-ab12-baseline'' = generateTargetNamespaceName (NewWorkloadCheckRunner list_lib whc ty))"
proof -
  obtain ps where len: "length ps = 2" and ps: "pool_run (operator_spawn seen_lines list_lib 1 26)
       (map (pass_program seen_lines int_floats list_lib 1) [WorkloadPass ''web-check'' ''shop'']) restart_events ps"
    using restart_execution by blast
  have e: "(1, DeleteNamespace ''shop-ab12-baseline'', ROk) \<in> set restart_events" by (simp add: restart_events_def)
  from every_run_has_its_clone [OF list_lib_conversion ps restart_located, of 1] len obtain j whc ty sc r where
    go: "(j, GoRunCheck whc ty sc, r) \<in> set restart_events" and w: "\<forall>c a. (1, c, a) \<in> set restart_events \<longrightarrow> (case c of
      UpdateWorkload w \<Rightarrow> wl_Namespace w = generateTargetNamespaceName (NewWorkloadCheckRunner list_lib whc ty)
    | CreateNamespace n \<Rightarrow> nsp_Name n = generateTargetNamespaceName (NewWorkloadCheckRunner list_lib whc ty)
    | CreateResource u \<Rightarrow> u_Namespace u = generateTargetNamespaceName (NewWorkloadCheckRunner list_lib whc ty)
    | CreateClusterRoleBinding b \<Rightarrow> target_label b = generateTargetNamespaceName (NewWorkloadCheckRunner list_lib whc ty)
    | DeleteNamespace n \<Rightarrow> n = generateTargetNamespaceName (NewWorkloadCheckRunner list_lib whc ty)
    | DeleteClusterRoleBinding n \<Rightarrow> (\<exists>b. listed_binding restart_events b \<and> crb_Name b = n \<and>
        target_label b = generateTargetNamespaceName (NewWorkloadCheckRunner list_lib whc ty))
    | _ \<Rightarrow> True)" by auto
  from w [rule_format, OF e] have "''shop-ab12-baseline'' = generateTargetNamespaceName (NewWorkloadCheckRunner list_lib whc ty)" by simp
  with go ps show ?thesis by blast
qed

end
