(* ===== verification/MetricsRecording.thy ===== *)
theory MetricsRecording
  imports Effects Concurrency
begin

text \<open>
  \<^verbatim>\<open>internal/recording/metrics.go\<close>: the metrics recorder. One goroutine per pod samples the pod's usage from
  a cache of the package, which is shared by all recordings and refreshed under a mutex from the kubelets.
  The shared variables, the mutex, channels and wait groups are a memory the calls act on; API server, kubelets and
  clock answer anything.
\<close>

section \<open>Data\<close>

type_synonym uint64 = "64 word"

text \<open>What is read of \<open>statsapi.PodStats\<close>; each pointer on the way to a number may be nil.\<close>

record PodStats =
  st_CPU :: "uint64 option option"
  st_Memory :: "uint64 option option"

type_synonym stats_map = "(string \<times> PodStats) list"

record RecordedMetrics =
  rm_Pod :: string
  rm_Start :: int
  rm_End :: int
  rm_Interval :: int
  rm_Duration :: int
  rm_Usage :: "(int \<times> ResourceUsageRecord) list"

text \<open>The kubelet's answer: none, or a status code and what decoding the body gives.\<close>

datatype node_reply = Unreachable error | Response int "error + (string \<times> PodStats) list"

datatype (plugins del: code) mcall =
    MListPods string "string option"
  | MGetPod string string
  | MListNodes
  | MNodeStats string                       \<comment> \<open>GET \<open>/api/v1/nodes/../proxy/stats/summary\<close>\<close>
  | MNow
  | MSleep int
  | MOrder                                  \<comment> \<open>the runtime's picks: a map range, or the order in which goroutines finish\<close>
  | MLock
  | MUnlock
  | MReadLast
  | MWriteLast int
  | MReadMetrics
  | MWriteMetrics stats_map
  | MMakeChan                               \<comment> \<open>a channel and its wait group\<close>
  | MGo nat Pod int                         \<comment> \<open>start the collector of a pod\<close>
  | MSend nat "RecordedMetrics option"
  | MDone nat
  | MWait nat nat
  | MReceive nat                            \<comment> \<open>range over the closed channel\<close>

datatype (plugins del: code) mresp =
    MErr error
  | MOk
  | MPods "Pod list"
  | MPod Pod
  | MNodes "string list"
  | MReply node_reply
  | MTime int
  | MPicks "nat list"
  | MLast "int option"
  | MMetrics stats_map
  | MChan nat
  | MResults "RecordedMetrics option list"

type_synonym 'a mio = "(mcall, mresp, 'a) prog"

definition m_pods where "m_pods r = (case r of MPods x \<Rightarrow> Some (Inr x) | MErr e \<Rightarrow> Some (Inl e) | _ \<Rightarrow> None)"
definition m_pod where "m_pod r = (case r of MPod x \<Rightarrow> Some (Inr x) | MErr e \<Rightarrow> Some (Inl e) | _ \<Rightarrow> None)"
definition m_nodes where "m_nodes r = (case r of MNodes x \<Rightarrow> Some (Inr x) | MErr e \<Rightarrow> Some (Inl e) | _ \<Rightarrow> None)"
definition m_reply where "m_reply r = (case r of MReply x \<Rightarrow> Some x | _ \<Rightarrow> None)"
definition m_time where "m_time r = (case r of MTime x \<Rightarrow> Some x | _ \<Rightarrow> None)"
definition m_picks where "m_picks r = (case r of MPicks x \<Rightarrow> Some x | _ \<Rightarrow> None)"
definition m_last where "m_last r = (case r of MLast x \<Rightarrow> Some x | _ \<Rightarrow> None)"
definition m_metrics where "m_metrics r = (case r of MMetrics x \<Rightarrow> Some x | _ \<Rightarrow> None)"
definition m_chan where "m_chan r = (case r of MChan x \<Rightarrow> Some x | _ \<Rightarrow> None)"
definition m_results where "m_results r = (case r of MResults x \<Rightarrow> Some x | _ \<Rightarrow> None)"
definition m_ok where "m_ok r = (case r of MOk \<Rightarrow> Some () | _ \<Rightarrow> None)"

lemmas m_decoders = m_pods_def m_pod_def m_nodes_def m_reply_def m_time_def m_picks_def m_last_def m_metrics_def m_chan_def
  m_results_def m_ok_def

abbreviation "m_now \<equiv> ask MNow m_time"
abbreviation "m_sleep d \<equiv> ask (MSleep d) m_ok"
abbreviation "m_order \<equiv> ask MOrder m_picks"

section \<open>The cache\<close>

text \<open>\<open>refreshPodMetricsPerNode\<close>: the map sent on the channel, nothing sent on an error.\<close>

definition summary_map :: "(string \<times> PodStats) list \<Rightarrow> stats_map" where
  "summary_map pods = fold (\<lambda>(uid, st) m. map_put uid st m) pods []"

definition refreshPodMetricsPerNode :: "string \<Rightarrow> (error + stats_map) mio" where
  "refreshPodMetricsPerNode nodeName =
     pbind (ask (MNodeStats nodeName) m_reply) (\<lambda>r. Ret (case r of
       Unreachable err \<Rightarrow> Inl err
     | Response code body \<Rightarrow>
         if code \<noteq> 200 then Inl (Errorf ''failed to get node metrics'' None)
         else (case body of Inl err \<Rightarrow> Inl err | Inr pods \<Rightarrow> Inr (summary_map pods))))"

definition getNodes :: "(error + string list) mio" where
  "getNodes = ask MListNodes m_nodes"

text \<open>\<open>maps.Copy(dst, src)\<close>.\<close>

definition maps_Copy :: "stats_map \<Rightarrow> stats_map \<Rightarrow> stats_map" where
  "maps_Copy dst src = fold (\<lambda>(k, v) m. map_put k v m) src dst"

definition merge_node :: "string \<Rightarrow> stats_map \<Rightarrow> stats_map mio" where
  "merge_node node new = pbind (refreshPodMetricsPerNode node) (\<lambda>r. Ret (case r of Inl err \<Rightarrow> new | Inr m \<Rightarrow> maps_Copy new m))"

definition stale :: "int option \<Rightarrow> int \<Rightarrow> bool" where
  "stale updated t \<longleftrightarrow> (case updated of None \<Rightarrow> True | Some u \<Rightarrow> \<not> t - u < 10 * second)"

text \<open>
  The nodes are asked by one goroutine each; the order \<open>\<sigma>\<close> is the one in which they send. The deferred unlock runs
  on every return.
\<close>

definition refreshPodMetrics :: "error option mio" where
  "refreshPodMetrics =
     pbind (ask MLock m_ok) (\<lambda>_.
     pbind (ask MReadLast m_last) (\<lambda>last.
     pbind m_now (\<lambda>t.
       if \<not> stale last t then pbind (ask MUnlock m_ok) (\<lambda>_. Ret None)
       else pbind getNodes (\<lambda>r. case r of
         Inl err \<Rightarrow> pbind (ask MUnlock m_ok) (\<lambda>_. Ret (Some err))
       | Inr nodes \<Rightarrow>
           pbind m_order (\<lambda>\<sigma>.
           pbind (pfold merge_node (arrange \<sigma> nodes) []) (\<lambda>newPodMetrics.
           pbind m_now (\<lambda>t.
           pbind (ask (MWriteLast t) m_ok) (\<lambda>_.
           pbind (ask (MWriteMetrics newPodMetrics) m_ok) (\<lambda>_.
           pbind (ask MUnlock m_ok) (\<lambda>_. Ret None))))))))))"

definition pod_error :: "Pod \<Rightarrow> string \<Rightarrow> error" where
  "pod_error pod msg = Errorf (''pod '' @ pod_Name pod @ '': '' @ msg) None"

text \<open>Reads the package variables without the mutex, as the code does.\<close>

definition getPodResourceUsage :: "Pod \<Rightarrow> (error + PodStats) mio" where
  "getPodResourceUsage pod =
     pbind (ask MReadLast m_last) (\<lambda>last.
       if last = None then Ret (Inl (pod_error pod ''pod metrics not initialized''))
       else pbind (ask MReadMetrics m_metrics) (\<lambda>podMetrics.
         case map_of podMetrics (pod_UID pod) of
           Some podStat \<Rightarrow> Ret (Inr podStat)
         | None \<Rightarrow> Ret (Inl (pod_error pod ''pod not found in metrics''))))"

section \<open>Recording one pod\<close>

text \<open>\<open>int64(*podResources.CPU.UsageNanoCores)\<close> and its kin: the bits stay, a nil pointer panics.\<close>

definition usage_record :: "int \<Rightarrow> PodStats \<Rightarrow> crash + ResourceUsageRecord" where
  "usage_record t st = (case (st_CPU st, st_Memory st) of
     (Some (Some cpu), Some (Some memory)) \<Rightarrow> Inr \<lparr>ru_Time = t, ru_CpuNanoCores = cpu, ru_MemoryBytes = memory\<rparr>
   | _ \<Rightarrow> Inl NilDeref)"

definition metricsRecordingInterval :: int where
  "metricsRecordingInterval = 15"

text \<open>The loop; \<open>fuel\<close> bounds its rounds. None of the two breaks is a return.\<close>

primrec collect_loop ::
  "nat \<Rightarrow> Pod \<Rightarrow> int \<Rightarrow> int \<Rightarrow> (int \<times> ResourceUsageRecord) list \<Rightarrow> (error + (int \<times> ResourceUsageRecord) list) mio" where
  "collect_loop 0 pod start duration recorded = Crash OutOfFuel"
| "collect_loop (Suc fuel) pod start duration recorded =
     pbind m_now (\<lambda>t.
     let lastLoop = (t - start \<ge> duration) in
     if pod_NodeName pod = '''' then Ret (Inl (Errorf (''pod '' @ pod_Name pod @ '' has no node assigned'') None))
     else pbind refreshPodMetrics (\<lambda>e. case e of
       Some err \<Rightarrow> Ret (Inl err)
     | None \<Rightarrow> pbind (getPodResourceUsage pod) (\<lambda>u. case u of
         Inl err \<Rightarrow>
           if lastLoop then Ret (Inr recorded)
           else pbind (m_sleep (5 * second)) (\<lambda>_. collect_loop fuel pod start duration recorded)
       | Inr podResources \<Rightarrow>
           pbind m_now (\<lambda>t.
           pbind (lift_go (usage_record t podResources)) (\<lambda>metric.
           let recorded = map_put (ru_Time metric) metric recorded in
           if lastLoop then Ret (Inr recorded)
           else pbind (m_sleep (metricsRecordingInterval * second)) (\<lambda>_. collect_loop fuel pod start duration recorded))))))"

definition recordPodMetrics :: "nat \<Rightarrow> Pod \<Rightarrow> int \<Rightarrow> (error + RecordedMetrics) mio" where
  "recordPodMetrics fuel pod duration =
     pbind m_now (\<lambda>start.
     pbind (collect_loop fuel pod start duration []) (\<lambda>r. case r of
       Inl err \<Rightarrow> Ret (Inl err)
     | Inr recorded \<Rightarrow> pbind m_now (\<lambda>end.
         Ret (Inr \<lparr>rm_Pod = pod_Name pod, rm_Start = start, rm_End = end, rm_Interval = metricsRecordingInterval,
                   rm_Duration = duration, rm_Usage = recorded\<rparr>))))"

section \<open>Recording a workload\<close>

text \<open>The wait for assigned pods, as in the log recorder.\<close>

primrec await_assigned :: "nat \<Rightarrow> string \<Rightarrow> string option \<Rightarrow> (error + Pod list) mio" where
  "await_assigned 0 ns sel = Crash OutOfFuel"
| "await_assigned (Suc fuel) ns sel =
     pbind (ask (MListPods ns sel) m_pods) (\<lambda>r. case r of
       Inl e \<Rightarrow> Ret (Inl e)
     | Inr pods \<Rightarrow>
         if length pods > 0
         then if list_all (\<lambda>p. pod_NodeName p \<noteq> '''') pods then Ret (Inr pods)
              else pbind (m_sleep (1 * second)) (\<lambda>_. await_assigned fuel ns sel)
         else await_assigned fuel ns sel)"

text \<open>One round of the filter: the pod is fetched again, an error of the fetch leaves it as it was.\<close>

definition keep_pod :: "Pod \<Rightarrow> Pod list \<Rightarrow> Pod list mio" where
  "keep_pod pod podsToRecord =
     pbind (ask (MGetPod (pod_Namespace pod) (pod_Name pod)) m_pod) (\<lambda>r.
       let pod = (case r of Inl e \<Rightarrow> pod | Inr p \<Rightarrow> p)
       in if pod_Phase pod \<noteq> PodRunning \<and> pod_Phase pod \<noteq> PodPending then Ret podsToRecord
          else if pod_DeletionTimestamp pod \<noteq> None then Ret podsToRecord
          else Ret (podsToRecord @ [pod]))"

text \<open>A goroutine of \<open>RecordMetrics\<close>: a failed recording sends nil.\<close>

definition collector :: "nat \<Rightarrow> nat \<Rightarrow> Pod \<Rightarrow> int \<Rightarrow> unit mio" where
  "collector fuel ch pod checkDuration =
     pbind (recordPodMetrics fuel pod checkDuration) (\<lambda>r.
     pbind (ask (MSend ch (case r of Inl err \<Rightarrow> None | Inr recordedMetrics \<Rightarrow> Some recordedMetrics)) m_ok) (\<lambda>_.
     ask (MDone ch) m_ok))"

text \<open>The loop over the results dereferences each of them; its inner range visits a map.\<close>

definition gather_result ::
  "RecordedMetrics option \<Rightarrow> ResourceUsageRecord list \<Rightarrow> ResourceUsageRecord list mio" where
  "gather_result result acc = (case result of
     None \<Rightarrow> Crash NilDeref
   | Some rm \<Rightarrow> pbind m_order (\<lambda>\<sigma>. Ret (acc @ map snd (arrange \<sigma> (rm_Usage rm)))))"

definition RecordMetrics :: "nat \<Rightarrow> string \<Rightarrow> string option \<Rightarrow> int \<Rightarrow> (error + ResourceUsageRecord list) mio" where
  "RecordMetrics fuel targetNamespace labelSelector checkDuration =
     pbind (await_assigned fuel targetNamespace labelSelector) (\<lambda>r. case r of
       Inl err \<Rightarrow> Ret (Inl err)
     | Inr pods \<Rightarrow>
         pbind (pfold keep_pod pods []) (\<lambda>podsToRecord.
         pbind (ask MMakeChan m_chan) (\<lambda>ch.
         pbind (pfold (\<lambda>pod _. ask (MGo ch pod checkDuration) m_ok) podsToRecord ()) (\<lambda>_.
         pbind (ask (MWait ch (length podsToRecord)) m_ok) (\<lambda>_.
         pbind (ask (MReceive ch) m_results) (\<lambda>results.
         pbind (pfold gather_result results []) (\<lambda>records. Ret (Inr records))))))))"

text \<open>The threads: \<open>RecordMetrics\<close> of any number of runs, and the collectors they start.\<close>

fun metrics_spawn :: "nat \<Rightarrow> mcall \<Rightarrow> (error + ResourceUsageRecord list) mio list" where
  "metrics_spawn fuel (MGo ch pod checkDuration) = [pbind (collector fuel ch pod checkDuration) (\<lambda>_. Ret (Inr []))]"
| "metrics_spawn fuel c = []"

end
