(* ===== verification/MetricsMutex.thy ===== *)
theory MetricsMutex
  imports MetricsRecording
begin

text \<open>
  The threads of the metrics recorder and the memory they share: any number of recordings and the collectors they start, in
  any interleaving which the mutex, the shared variables, the channels and the wait groups allow. The refresh of the cache is
  exclusive, and the kubelets are asked in it only when the cache is stale.
\<close>

section \<open>The memory\<close>

record memory =
  me_locked :: bool
  me_last :: "int option"
  me_metrics :: stats_map
  me_next :: nat
  me_chans :: "nat \<Rightarrow> RecordedMetrics option list"
  me_done :: "nat \<Rightarrow> nat"

definition initial_memory :: memory where
  "initial_memory = \<lparr>me_locked = False, me_last = None, me_metrics = [], me_next = 0, me_chans = (\<lambda>_. []), me_done = (\<lambda>_. 0)\<rparr>"

text \<open>
  What the memory allows: None where a call cannot go on yet (a lock that is held, a wait group that is not done) or
  the answer is not what the memory holds. Calls to the outside may be answered with anything.
\<close>

fun memory_step :: "mcall \<Rightarrow> mresp \<Rightarrow> memory \<Rightarrow> memory option" where
  "memory_step MLock r m = (if me_locked m \<or> r \<noteq> MOk then None else Some (m\<lparr>me_locked := True\<rparr>))"
| "memory_step MUnlock r m = (if r \<noteq> MOk then None else Some (m\<lparr>me_locked := False\<rparr>))"
| "memory_step MReadLast r m = (if r \<noteq> MLast (me_last m) then None else Some m)"
| "memory_step (MWriteLast t) r m = (if r \<noteq> MOk then None else Some (m\<lparr>me_last := Some t\<rparr>))"
| "memory_step MReadMetrics r m = (if r \<noteq> MMetrics (me_metrics m) then None else Some m)"
| "memory_step (MWriteMetrics x) r m = (if r \<noteq> MOk then None else Some (m\<lparr>me_metrics := x\<rparr>))"
| "memory_step MMakeChan r m = (if r \<noteq> MChan (me_next m) then None else Some (m\<lparr>me_next := Suc (me_next m)\<rparr>))"
| "memory_step (MGo ch pod d) r m = (if r \<noteq> MOk then None else Some m)"
| "memory_step (MSend ch x) r m = (if r \<noteq> MOk then None else Some (m\<lparr>me_chans := (me_chans m)(ch := me_chans m ch @ [x])\<rparr>))"
| "memory_step (MDone ch) r m = (if r \<noteq> MOk then None else Some (m\<lparr>me_done := (me_done m)(ch := Suc (me_done m ch))\<rparr>))"
| "memory_step (MWait ch n) r m = (if me_done m ch < n \<or> r \<noteq> MOk then None else Some m)"
| "memory_step (MReceive ch) r m = (if r \<noteq> MResults (me_chans m ch) then None else Some (m\<lparr>me_chans := (me_chans m)(ch := [])\<rparr>))"
| "memory_step _ r m = Some m"

fun memory_after :: "(mcall, mresp) events \<Rightarrow> memory \<Rightarrow> memory option" where
  "memory_after [] m = Some m"
| "memory_after ((i, c, r) # es) m = (case memory_step c r m of None \<Rightarrow> None | Some m' \<Rightarrow> memory_after es m')"

lemma memory_after_append:
  "memory_after (es @ es') m = (case memory_after es m of None \<Rightarrow> None | Some m' \<Rightarrow> memory_after es' m')"
  by (induction es m rule: memory_after.induct) (auto split: option.splits)

section \<open>Who asks the kubelets\<close>

text \<open>Where a thread is in the refresh, and what it read there.\<close>

datatype position = Outside | Entered | HasRead "int option" | Timed "int option" int | Wrote

definition cache_may :: "position \<Rightarrow> mcall \<Rightarrow> bool" where
  "cache_may s c = (case c of
     MLock \<Rightarrow> s = Outside
   | MUnlock \<Rightarrow> s \<noteq> Outside
   | MNodeStats n \<Rightarrow> (\<exists>u t. s = Timed u t \<and> stale u t)
   | MWriteLast t \<Rightarrow> (\<exists>u t. s = Timed u t \<and> stale u t)
   | MWriteMetrics x \<Rightarrow> s = Wrote
   | _ \<Rightarrow> True)"

definition cache_next :: "position \<Rightarrow> mcall \<Rightarrow> mresp \<Rightarrow> position" where
  "cache_next s c r = (case c of
     MLock \<Rightarrow> Entered
   | MUnlock \<Rightarrow> Outside
   | MReadLast \<Rightarrow> (case (s, r) of (Entered, MLast u) \<Rightarrow> HasRead u | _ \<Rightarrow> s)
   | MNow \<Rightarrow> (case (s, r) of (HasRead u, MTime t) \<Rightarrow> Timed u t | _ \<Rightarrow> s)
   | MWriteLast t \<Rightarrow> Wrote
   | _ \<Rightarrow> s)"

definition cache_contract :: "(position, mcall, mresp) contract" where
  "cache_contract = \<lparr>rg_may = cache_may, rg_ans = (\<lambda>_ _ _. True), rg_next = cache_next, rg_crash = (\<lambda>_. True)\<rparr>"

lemma cache_contract_simps [simp]:
  "rg_may cache_contract = cache_may" "rg_ans cache_contract s c r" "rg_next cache_contract = cache_next" "rg_crash cache_contract e"
  by (simp_all add: cache_contract_def)

text \<open>Calls that say nothing about the refresh.\<close>

definition off_cache :: "mcall \<Rightarrow> bool" where
  "off_cache c \<longleftrightarrow> (\<forall>s. cache_may s c) \<and> (\<forall>r. cache_next Outside c r = Outside)"

lemma off_cache_simps [simp]:
  "off_cache (MListPods a b)" "off_cache (MGetPod a c)" "off_cache MNow" "off_cache (MSleep d)" "off_cache MOrder" "off_cache MReadLast"
  "off_cache MReadMetrics" "off_cache MMakeChan" "off_cache (MGo ch p d)" "off_cache (MSend ch x)" "off_cache (MDone ch)"
  "off_cache (MWait ch n)" "off_cache (MReceive ch)"
  by (simp_all add: off_cache_def cache_may_def cache_next_def)

abbreviation settled :: "'a mio \<Rightarrow> bool" where
  "settled p \<equiv> meets cache_contract p (\<lambda>s _. s = Outside) Outside"

lemma settled_ask [simp]: "off_cache c \<Longrightarrow> settled (ask c dec)"
  by (auto simp: meets_ask off_cache_def split: option.splits)

lemma settled_pbind: "settled p \<Longrightarrow> (\<And>a. settled (f a)) \<Longrightarrow> settled (pbind p f)"
  unfolding meets_pbind by (rule meets_mono [where Q = "\<lambda>s _. s = Outside"]) auto

lemma settled_lift [simp]: "settled (lift_go x)"
  by (simp add: meets_lift_go split: sum.splits)

lemma settled_pfold: "(\<And>x s. settled (f x s)) \<Longrightarrow> settled (pfold f xs a)"
  by (induction xs arbitrary: a) (auto simp del: meets_pbind intro: settled_pbind)

lemma merge_nodes_timed:
  "stale u t \<Longrightarrow> meets cache_contract (pfold merge_node ns m) (\<lambda>s _. s = Timed u t) (Timed u t)"
  by (induction ns arbitrary: m)
    (auto simp: merge_node_def refreshPodMetricsPerNode_def meets_ask cache_may_def cache_next_def split: option.splits)

lemma settled_refresh: "settled refreshPodMetrics"
  unfolding refreshPodMetrics_def getNodes_def
  by (auto simp: meets_ask cache_may_def cache_next_def m_last_def m_time_def split: option.splits mresp.splits sum.splits
      intro!: meets_mono [OF merge_nodes_timed])

lemma settled_usage: "settled (getPodResourceUsage pod)"
  unfolding getPodResourceUsage_def by (auto simp del: meets_pbind intro!: settled_pbind split: option.splits)

lemma settled_loop: "settled (collect_loop fuel pod start duration recorded)"
  by (induction fuel arbitrary: recorded)
    (auto simp: Let_def simp del: meets_pbind intro!: settled_pbind settled_refresh settled_usage split: option.splits sum.splits)

lemma settled_collector: "settled (pbind (collector fuel ch pod d) (\<lambda>_. Ret x))"
  unfolding collector_def recordPodMetrics_def
  by (auto simp del: meets_pbind intro!: settled_pbind settled_loop split: sum.splits)

lemma settled_await: "settled (await_assigned fuel ns sel)"
  by (induction fuel) (auto simp del: meets_pbind intro!: settled_pbind split: sum.splits)

lemma settled_RecordMetrics: "settled (RecordMetrics fuel ns sel d)"
  unfolding RecordMetrics_def keep_pod_def gather_result_def
  by (auto simp: Let_def simp del: meets_pbind intro!: settled_pbind settled_pfold settled_await split: sum.splits option.splits)

text \<open>The threads of the recorder.\<close>

type_synonym job = "string \<times> string option \<times> int"

definition recorder :: "nat \<Rightarrow> job list \<Rightarrow> (mcall, mresp, error + ResourceUsageRecord list) pool" where
  "recorder fuel jobs = map (\<lambda>(ns, sel, d). RecordMetrics fuel ns sel d) jobs"

definition position_of :: "(mcall, mresp) events \<Rightarrow> nat \<Rightarrow> position" where
  "position_of es i = the (follow cache_contract Outside (own i es))"

lemma position_follow: "follow cache_contract Outside (own i es) = Some (position_of es i)"
  using follow_total [of cache_contract Outside "own i es"] by (auto simp: position_of_def)

lemma position_snoc: "position_of (es @ [(j, c, r)]) i = (if i = j then cache_next (position_of es i) c r else position_of es i)"
  using follow_snoc [OF position_follow [of i es], of c r] position_follow [of i "es @ [(j, c, r)]"] by (auto simp: position_follow)

lemma position_start [simp]: "position_of [] i = Outside"
  by (simp add: position_of_def)

lemma recorder_may:
  assumes "pool_run (metrics_spawn fuel) (recorder fuel jobs) es ps" and "i < length ps" and "ps ! i = Call c k"
  shows "cache_may (position_of es i) c"
proof -
  have spawned: "\<forall>p \<in> set (metrics_spawn fuel c). settled p" for c
    by (cases c) (simp_all add: settled_collector del: meets_pbind)
  have "\<forall>p \<in> set (recorder fuel jobs). settled p" by (auto simp: recorder_def settled_RecordMetrics)
  from pool_meets [OF assms(1,2) this spawned position_follow] assms(3) show ?thesis by simp
qed

text \<open>
  What the positions say of the memory: the mutex is held exactly if a thread is inside, only one is, and what it
  read there still holds.
\<close>

fun still_holds :: "position \<Rightarrow> int option \<Rightarrow> bool" where
  "still_holds (HasRead u) v \<longleftrightarrow> u = v"
| "still_holds (Timed u t) v \<longleftrightarrow> u = v"
| "still_holds p v \<longleftrightarrow> True"

definition exclusive :: "(nat \<Rightarrow> position) \<Rightarrow> memory \<Rightarrow> bool" where
  "exclusive pos m \<longleftrightarrow>
     (if me_locked m then \<exists>i. pos i \<noteq> Outside \<and> (\<forall>j. j \<noteq> i \<longrightarrow> pos j = Outside) \<and> still_holds (pos i) (me_last m)
      else \<forall>i. pos i = Outside)"

lemma exclusive_inside:
  "exclusive pos m \<Longrightarrow> pos j \<noteq> Outside \<Longrightarrow> me_locked m \<and> (\<forall>i. i \<noteq> j \<longrightarrow> pos i = Outside) \<and> still_holds (pos j) (me_last m)"
  unfolding exclusive_def by (metis (mono_tags, lifting))

lemma exclusive_move:
  assumes "exclusive pos m" and "pos j \<noteq> Outside" and "p \<noteq> Outside" and "me_locked m' = me_locked m" and "still_holds p (me_last m')"
  shows "exclusive (pos(j := p)) m'"
  using exclusive_inside [OF assms(1,2)] assms(3-5) by (auto simp: exclusive_def)

lemma exclusive_same:
  "exclusive pos m \<Longrightarrow> me_locked m' = me_locked m \<Longrightarrow> me_last m' = me_last m \<Longrightarrow> exclusive pos m'"
  by (simp add: exclusive_def)

text \<open>Calls that neither move the thread nor touch mutex and time.\<close>

lemma other_step:
  assumes "c \<notin> {MLock, MUnlock, MReadLast, MNow}" and "\<And>t. c \<noteq> MWriteLast t" and "memory_step c r m = Some m'"
  shows "cache_next s c r = s" and "me_locked m' = me_locked m" and "me_last m' = me_last m"
  using assms by (cases c; auto simp: cache_next_def split: if_splits)+

lemma exclusive_step:
  assumes ex: "exclusive pos m" and may: "cache_may (pos j) c" and mem: "memory_step c r m = Some m'"
  shows "exclusive (pos(j := cache_next (pos j) c r)) m'"
proof (cases c)
  case MLock
  with may mem have "pos j = Outside" "\<not> me_locked m" "m' = m\<lparr>me_locked := True\<rparr>" by (auto simp: cache_may_def split: if_splits)
  with ex MLock show ?thesis by (auto simp: exclusive_def cache_next_def)
next
  case MUnlock
  with may mem have "pos j \<noteq> Outside" "m' = m\<lparr>me_locked := False\<rparr>" by (auto simp: cache_may_def split: if_splits)
  with exclusive_inside [OF ex, of j] MUnlock show ?thesis by (auto simp: exclusive_def cache_next_def)
next
  case MReadLast
  with mem have r: "r = MLast (me_last m)" "m' = m" by (auto split: if_splits)
  show ?thesis
  proof (cases "pos j = Entered")
    case True
    with MReadLast r show ?thesis by (auto simp: cache_next_def intro: exclusive_move [OF ex])
  next
    case False
    then have "cache_next (pos j) c r = pos j" by (cases "pos j") (simp_all add: MReadLast cache_next_def)
    with ex r show ?thesis by simp
  qed
next
  case MNow
  with mem have m: "m' = m" by simp
  show ?thesis
  proof (cases "\<exists>u t. pos j = HasRead u \<and> r = MTime t")
    case True
    then obtain u t where ut: "pos j = HasRead u" "r = MTime t" by blast
    with exclusive_inside [OF ex, of j] have "still_holds (Timed u t) (me_last m)" by simp
    with ut MNow m show ?thesis by (auto simp: cache_next_def intro: exclusive_move [OF ex])
  next
    case False
    then have "cache_next (pos j) c r = pos j" by (cases "pos j"; cases r) (simp_all add: MNow cache_next_def)
    with ex m show ?thesis by simp
  qed
next
  case (MWriteLast t)
  with may mem have "pos j \<noteq> Outside" "m' = m\<lparr>me_last := Some t\<rparr>" by (auto simp: cache_may_def split: if_splits)
  with MWriteLast show ?thesis by (auto simp: cache_next_def intro: exclusive_move [OF ex])
qed (use exclusive_same [OF ex] other_step [OF _ _ mem] in \<open>simp_all only: fun_upd_triv insert_iff empty_iff mcall.distinct simp_thms\<close>)

lemma exclusive_initial [simp]: "exclusive (\<lambda>_. Outside) initial_memory"
  by (simp add: exclusive_def initial_memory_def)

lemma recorder_exclusive:
  assumes "pool_run (metrics_spawn fuel) (recorder fuel jobs) es ps" and "memory_after es initial_memory = Some m"
  shows "exclusive (position_of es) m"
  using assms
proof (induction arbitrary: m rule: pool_run.induct)
  case start
  have "position_of [] = (\<lambda>_. Outside)" by (rule ext) simp
  with start show ?case by simp
next
  case (step es ps e ps')
  from step.hyps(2) obtain j c k r where e: "e = (j, c, r)" and j: "j < length ps" "ps ! j = Call c k"
    by (auto elim!: pool_step.cases)
  from step.prems obtain m0 where m0: "memory_after es initial_memory = Some m0" and m: "memory_step c r m0 = Some m"
    by (auto simp: e memory_after_append split: option.splits)
  have pos: "position_of (es @ [e]) = (position_of es)(j := cache_next (position_of es j) c r)"
    by (rule ext) (simp add: e position_snoc)
  show ?case unfolding pos by (rule exclusive_step [OF step.IH [OF m0] recorder_may [OF step.hyps(1) j] m])
qed

text \<open>Along an execution there is an execution up to each event, and the thread's call was waiting there.\<close>

lemma pool_run_prefix:
  assumes "pool_run spawn ps es ps'" and "es = pre @ (i, c, r) # post"
  shows "\<exists>ps0 k. pool_run spawn ps pre ps0 \<and> i < length ps0 \<and> ps0 ! i = Call c k"
  using assms
proof (induction arbitrary: post rule: pool_run.induct)
  case (step es ps' e ps'')
  show ?case
  proof (cases "post = []")
    case True
    with step.prems step.hyps show ?thesis by (auto elim!: pool_step.cases)
  next
    case False
    then obtain post' e' where "post = post' @ [e']" by (metis rev_exhaust)
    with step.prems have "es = pre @ (i, c, r) # post'" by simp
    then show ?thesis by (rule step.IH)
  qed
qed simp

lemma timed_read: "follow cache_contract s l = Some (Timed u t) \<Longrightarrow> (\<forall>u. s \<noteq> Timed u t) \<Longrightarrow> (MNow, MTime t) \<in> set l"
proof (induction l arbitrary: s)
  case (Cons p l)
  obtain c r where p: "p = (c, r)" by (cases p)
  have f: "follow cache_contract (cache_next s c r) l = Some (Timed u t)" using Cons.prems(1) by (simp add: p)
  show ?case
  proof (cases "\<exists>u. cache_next s c r = Timed u t")
    case True
    with Cons.prems(2) have "(c, r) = (MNow, MTime t)"
      by (cases s; cases c; cases r) (auto simp: cache_next_def)
    then show ?thesis by (simp add: p)
  next
    case False
    with Cons.IH [OF f] show ?thesis by simp
  qed
qed simp

section \<open>An execution\<close>

text \<open>One recording of a workload with one pod on one node.\<close>

definition web_pod :: Pod where
  "web_pod = \<lparr>pod_Name = ''web'', pod_Namespace = ''ns'', pod_UID = ''1'', pod_NodeName = ''n'', pod_Phase = PodRunning,
     pod_DeletionTimestamp = None, pod_ContainerStatuses = [], pod_Containers = [], pod_InitContainers = []\<rparr>"

definition web_stats :: PodStats where
  "web_stats = \<lparr>st_CPU = Some (Some 7), st_Memory = Some (Some 9)\<rparr>"

definition web_usage :: ResourceUsageRecord where
  "web_usage = \<lparr>ru_Time = 6, ru_CpuNanoCores = 7, ru_MemoryBytes = 9\<rparr>"

definition web_recording :: RecordedMetrics where
  "web_recording = \<lparr>rm_Pod = ''web'', rm_Start = 1, rm_End = 7, rm_Interval = 15, rm_Duration = 0, rm_Usage = [(6, web_usage)]\<rparr>"

definition before_request :: "(mcall, mresp) events" where
  "before_request =
    [(0, MListPods ''ns'' None, MPods [web_pod]), (0, MGetPod ''ns'' ''web'', MPod web_pod), (0, MMakeChan, MChan 0),
     (0, MGo 0 web_pod 0, MOk), (1, MNow, MTime 1), (1, MNow, MTime 2), (1, MLock, MOk), (1, MReadLast, MLast None), (1, MNow, MTime 3),
     (1, MListNodes, MNodes [''n'']), (1, MOrder, MPicks [])]"

definition after_request :: "(mcall, mresp) events" where
  "after_request =
    [(1, MNow, MTime 4), (1, MWriteLast 4, MOk), (1, MWriteMetrics [(''1'', web_stats)], MOk), (1, MUnlock, MOk), (1, MReadLast, MLast (Some 4)),
     (1, MReadMetrics, MMetrics [(''1'', web_stats)]), (1, MNow, MTime 6), (1, MNow, MTime 7), (1, MSend 0 (Some web_recording), MOk),
     (1, MDone 0, MOk), (0, MWait 0 1, MOk), (0, MReceive 0, MResults [Some web_recording]), (0, MOrder, MPicks [])]"

definition one_recording :: "(mcall, mresp) events" where
  "one_recording = before_request @ (1, MNodeStats ''n'', MReply (Response 200 (Inr [(''1'', web_stats)]))) # after_request"

lemma one_recording_memory: "memory_after one_recording initial_memory \<noteq> None"
  by (simp add: one_recording_def before_request_def after_request_def initial_memory_def)

lemma one_recording_runs:
  "pool_run (metrics_spawn 1) (recorder 1 [(''ns'', None, 0)]) one_recording [Ret (Inr [web_usage]), Ret (Inr [])]"
  unfolding pool_run_exec one_recording_def before_request_def after_request_def
  by (simp add: recorder_def RecordMetrics_def keep_pod_def collector_def recordPodMetrics_def refreshPodMetrics_def getNodes_def merge_node_def
      refreshPodMetricsPerNode_def getPodResourceUsage_def usage_record_def gather_result_def ask_def m_decoders web_pod_def web_stats_def
      web_usage_def web_recording_def summary_map_def maps_Copy_def arrange_no_picks stale_def metricsRecordingInterval_def)

section \<open>Property\<close>



end
