(* ===== verification/MetricsSamples.thy ===== *)
theory MetricsSamples
  imports MetricsMutex
begin

text \<open>
  Where the results of a recording come from: every sample from a kubelet's answer, and a failed collector leaves a nil
  among them, at which the recording panics.
\<close>

section \<open>Where the samples come from\<close>

type_synonym mlog = "(mcall \<times> mresp) list"

text \<open>In a thread's own log: a kubelet's answer had the stats of the pod; the sample was read from the cache; the sample was received.\<close>

definition answered :: "mlog \<Rightarrow> string \<times> PodStats \<Rightarrow> bool" where
  "answered l = (\<lambda>(uid, st). \<exists>node body. (MNodeStats node, MReply (Response 200 (Inr body))) \<in> set l \<and> (uid, st) \<in> set body)"

definition sampled :: "mlog \<Rightarrow> ResourceUsageRecord \<Rightarrow> bool" where
  "sampled l u \<longleftrightarrow> (\<exists>m uid st. (MReadMetrics, MMetrics m) \<in> set l \<and> (uid, st) \<in> set m \<and> usage_record (ru_Time u) st = Inr u)"

definition received :: "mlog \<Rightarrow> ResourceUsageRecord \<Rightarrow> bool" where
  "received l u \<longleftrightarrow> (\<exists>ch rs rm. (MReceive ch, MResults rs) \<in> set l \<and> Some rm \<in> set rs \<and> u \<in> snd ` set (rm_Usage rm))"

definition source_may :: "mlog \<Rightarrow> mcall \<Rightarrow> bool" where
  "source_may l c = (case c of
     MWriteMetrics m \<Rightarrow> (\<forall>x \<in> set m. answered l x)
   | MSend ch x \<Rightarrow> (\<forall>rm. x = Some rm \<longrightarrow> (\<forall>u \<in> snd ` set (rm_Usage rm). sampled l u))
   | _ \<Rightarrow> True)"

definition source_contract :: "(mlog, mcall, mresp) contract" where
  "source_contract = \<lparr>rg_may = source_may, rg_ans = (\<lambda>_ _ _. True), rg_next = (\<lambda>l c r. l @ [(c, r)]), rg_crash = (\<lambda>_. True)\<rparr>"

lemma source_contract_simps [simp]:
  "rg_may source_contract = source_may" "rg_ans source_contract s c r" "rg_next source_contract l c r = l @ [(c, r)]"
  "rg_crash source_contract e"
  by (simp_all add: source_contract_def)

lemma source_may_simps [simp]:
  "source_may l (MListPods a b)" "source_may l (MGetPod a c)" "source_may l MNow" "source_may l (MSleep d)" "source_may l MOrder"
  "source_may l MReadLast" "source_may l MReadMetrics" "source_may l MMakeChan" "source_may l (MGo ch p d)" "source_may l (MDone ch)"
  "source_may l (MWait ch n)" "source_may l (MReceive ch)" "source_may l MLock" "source_may l MUnlock" "source_may l (MNodeStats b')"
  "source_may l MListNodes" "source_may l (MWriteLast t)"
  by (simp_all add: source_may_def)

text \<open>A log only grows.\<close>

definition grows :: "mlog \<Rightarrow> mlog \<Rightarrow> bool" where
  "grows l l' \<longleftrightarrow> set l \<subseteq> set l'"

lemma answered_grows: "grows l l' \<Longrightarrow> answered l x \<Longrightarrow> answered l' x"
  unfolding answered_def grows_def by (cases x) auto

lemma sampled_grows: "grows l l' \<Longrightarrow> sampled l u \<Longrightarrow> sampled l' u"
  unfolding sampled_def grows_def by blast

lemma grows_keeps: "meets source_contract p Q l \<Longrightarrow> meets source_contract p (\<lambda>l' a. Q l' a \<and> grows l l') l"
  by (rule meets_stable) (auto simp: grows_def)

text \<open>A call whose answer does not matter, in a program that knows something stable of its log.\<close>

lemma source_ask:
  assumes "source_may l c" and "\<And>a r. dec r = Some a \<Longrightarrow> meets source_contract (f a) Q (l @ [(c, r)])"
  shows "meets source_contract (pbind (ask c dec) f) Q l"
  using assms by (auto simp: meets_ask split: option.splits)

definition all_answered :: "mlog \<Rightarrow> stats_map \<Rightarrow> bool" where
  "all_answered l m \<longleftrightarrow> (\<forall>x \<in> set m. answered l x)"

definition all_sampled :: "mlog \<Rightarrow> (int \<times> ResourceUsageRecord) list \<Rightarrow> bool" where
  "all_sampled l m \<longleftrightarrow> (\<forall>u \<in> snd ` set m. sampled l u)"

lemma all_grow: "all_answered l m \<Longrightarrow> all_answered (l @ l') m" "all_sampled l rec \<Longrightarrow> all_sampled (l @ l') rec"
  unfolding all_answered_def all_sampled_def by (auto intro: answered_grows sampled_grows simp: grows_def)

lemma map_put_set: "x \<in> set (map_put k v m) \<Longrightarrow> x = (k, v) \<or> x \<in> set m"
  by (induction k v m rule: map_put.induct) (auto split: if_splits)

lemma fold_put_set: "x \<in> set (fold (\<lambda>(k, v) m. map_put k v m) xs m) \<Longrightarrow> x \<in> set xs \<or> x \<in> set m"
proof (induction xs arbitrary: m)
  case (Cons p xs)
  then show ?case by (cases p) (force dest!: Cons.IH map_put_set)
qed simp

lemma refresh_node_source:
  "meets source_contract (refreshPodMetricsPerNode node) (\<lambda>l r. \<forall>m. r = Inr m \<longrightarrow> all_answered l m) l"
proof -
  have "answered (l @ [(MNodeStats node, MReply (Response 200 (Inr body)))]) x" if "x \<in> set (summary_map body)" for body x
    using fold_put_set [of x body "[]"] that by (cases x) (auto simp: summary_map_def answered_def)
  then show ?thesis
    by (auto simp: refreshPodMetricsPerNode_def meets_ask m_reply_def all_answered_def
        split: option.splits mresp.splits node_reply.splits sum.splits)
qed

lemma merge_source: "all_answered l m \<Longrightarrow> meets source_contract (merge_node node m) (\<lambda>l m. all_answered l m) l"
proof -
  assume m: "all_answered l m"
  have "all_answered l' (maps_Copy m m')" if "all_answered l' m'" "grows l l'" for l' m'
    using that m fold_put_set unfolding all_answered_def maps_Copy_def by (meson answered_grows)
  moreover have "all_answered l' m" if "grows l l'" for l' using m that unfolding all_answered_def by (meson answered_grows)
  ultimately show ?thesis
    unfolding merge_node_def meets_pbind
    by (intro meets_mono [OF grows_keeps [OF refresh_node_source]]) (auto split: sum.splits)
qed

lemma merges_source: "meets source_contract (pfold merge_node ns []) all_answered l"
  by (rule meets_pfold [OF merge_source]) (simp_all add: all_answered_def)

text \<open>The refresh writes what it was answered; what was sampled before stays sampled.\<close>

lemma refresh_source: "meets source_contract refreshPodMetrics (\<lambda>_ _. True) l"
proof -
  have tail: "meets source_contract (pbind m_now (\<lambda>t. pbind (ask (MWriteLast t) m_ok) (\<lambda>_. pbind (ask (MWriteMetrics new) m_ok) (\<lambda>_.
      pbind (ask MUnlock m_ok) (\<lambda>_. Ret None))))) (\<lambda>_ _. True) l" if "all_answered l new" for new l
    using all_grow(1) [OF that] by (intro source_ask) (auto simp: source_may_def all_answered_def)
  have merged: "meets source_contract (pbind (pfold merge_node ns []) (\<lambda>new. pbind m_now (\<lambda>t. pbind (ask (MWriteLast t) m_ok) (\<lambda>_.
      pbind (ask (MWriteMetrics new) m_ok) (\<lambda>_. pbind (ask MUnlock m_ok) (\<lambda>_. Ret None)))))) (\<lambda>_ _. True) l" for ns l
    unfolding meets_pbind [where p = "pfold merge_node ns []"]
    by (rule meets_mono [OF merges_source]) (rule tail)
  show ?thesis
    unfolding refreshPodMetrics_def getNodes_def
    by (intro source_ask meets_if) (auto split: sum.split intro!: source_ask merged simp del: meets_pbind)
qed

lemma usage_source:
  "meets source_contract (getPodResourceUsage pod) (\<lambda>l r. \<forall>st. r = Inr st \<longrightarrow>
     (\<forall>t u. usage_record t st = Inr u \<longrightarrow> sampled l u)) l"
proof -
  have s: "sampled (l @ [(MReadLast, r), (MReadMetrics, MMetrics m)]) u" if "map_of m uid = Some st" "usage_record t st = Inr u" for r l m uid st t u
  proof -
    from that(2) have "ru_Time u = t" by (auto simp: usage_record_def split: option.splits)
    with that map_of_SomeD [OF that(1)] show ?thesis unfolding sampled_def by force
  qed
  then show ?thesis
    unfolding getPodResourceUsage_def
    by (intro source_ask meets_if) (auto simp: m_metrics_def split: mresp.splits option.splits intro!: source_ask simp del: meets_pbind)
qed

lemma loop_source:
  "all_sampled l recorded \<Longrightarrow> meets source_contract (collect_loop fuel pod start duration recorded)
     (\<lambda>l r. \<forall>rec. r = Inr rec \<longrightarrow> all_sampled l rec) l"
proof (induction fuel arbitrary: recorded l)
  case (Suc fuel)
  let ?Q = "\<lambda>l r. \<forall>rec. r = Inr rec \<longrightarrow> all_sampled l rec"
  have again: "meets source_contract (pbind (m_sleep d) (\<lambda>_. collect_loop fuel pod start duration rec)) ?Q l"
    if "all_sampled l rec" for d rec l
    by (intro source_ask Suc.IH all_grow(2) that) simp
  have sampled: "all_sampled l (map_put k u rec)" if "all_sampled l rec" "sampled l u" for l k u rec
    using that map_put_set [of _ k u rec] by (fastforce simp: all_sampled_def)
  have taken: "meets source_contract (pbind m_now (\<lambda>t. pbind (lift_go (usage_record t st)) (\<lambda>metric.
       let recorded = map_put (ru_Time metric) metric recorded in
       if b then Ret (Inr recorded) else pbind (m_sleep d) (\<lambda>_. collect_loop fuel pod start duration recorded)))) ?Q l"
    if "\<forall>t u. usage_record t st = Inr u \<longrightarrow> sampled l u" "all_sampled l recorded" for st b d l recorded
  proof (rule source_ask, simp)
    fix t r
    have a: "all_sampled (l @ [(MNow, r)]) recorded" using that(2) by (rule all_grow)
    show "meets source_contract (pbind (lift_go (usage_record t st)) (\<lambda>metric.
       let recorded = map_put (ru_Time metric) metric recorded in
       if b then Ret (Inr recorded) else pbind (m_sleep d) (\<lambda>_. collect_loop fuel pod start duration recorded))) ?Q (l @ [(MNow, r)])"
    proof (cases "usage_record t st")
      case (Inr u)
      with that(1) have "sampled (l @ [(MNow, r)]) u" by (auto intro: sampled_grows [of l] simp: grows_def)
      from sampled [OF a this] again show ?thesis by (simp add: Inr Let_def del: meets_pbind)
    qed simp
  qed
  have usage: "meets source_contract (pbind (getPodResourceUsage pod) (\<lambda>u. case u of
         Inl err \<Rightarrow> if b then Ret (Inr recorded) else pbind (m_sleep d) (\<lambda>_. collect_loop fuel pod start duration recorded)
       | Inr st \<Rightarrow> pbind m_now (\<lambda>t. pbind (lift_go (usage_record t st)) (\<lambda>metric.
           let recorded = map_put (ru_Time metric) metric recorded in
           if b then Ret (Inr recorded) else pbind (m_sleep d') (\<lambda>_. collect_loop fuel pod start duration recorded))))) ?Q l"
    if "all_sampled l recorded" for b d d' recorded l
    unfolding meets_pbind [where p = "getPodResourceUsage pod"]
  proof (rule meets_mono [OF grows_keeps [OF usage_source]], goal_cases)
    case (1 l' r)
    then have a: "all_sampled l' recorded" using that sampled_grows unfolding all_sampled_def by blast
    show ?case
    proof (cases r)
      case (Inl e)
      show ?thesis unfolding Inl sum.case using a again [OF a] by (intro meets_if) auto
    next
      case (Inr st)
      with 1 have "\<forall>t u. usage_record t st = Inr u \<longrightarrow> sampled l' u" by blast
      then show ?thesis unfolding Inr sum.case by (rule taken [OF _ a])
    qed
  qed
  have refreshed: "meets source_contract (pbind refreshPodMetrics (\<lambda>e. case e of Some err \<Rightarrow> Ret (Inl err) | None \<Rightarrow>
      pbind (getPodResourceUsage pod) (\<lambda>u. case u of
         Inl err \<Rightarrow> if b then Ret (Inr recorded) else pbind (m_sleep d) (\<lambda>_. collect_loop fuel pod start duration recorded)
       | Inr st \<Rightarrow> pbind m_now (\<lambda>t. pbind (lift_go (usage_record t st)) (\<lambda>metric.
           let recorded = map_put (ru_Time metric) metric recorded in
           if b then Ret (Inr recorded) else pbind (m_sleep d') (\<lambda>_. collect_loop fuel pod start duration recorded)))))) ?Q l"
    if "all_sampled l recorded" for b d d' recorded l
    unfolding meets_pbind [where p = refreshPodMetrics]
  proof (rule meets_mono [OF grows_keeps [OF refresh_source]], goal_cases)
    case (1 l' e)
    then have a: "all_sampled l' recorded" using that sampled_grows unfolding all_sampled_def by blast
    show ?case using usage [OF a] by (cases e) (simp_all del: meets_pbind)
  qed
  show ?case
    unfolding collect_loop.simps Let_def
    by (rule source_ask, simp, rule meets_if, simp, rule refreshed [unfolded Let_def]) (rule all_grow(2) [OF Suc.prems])
qed simp

lemma collector_source: "meets source_contract (pbind (collector fuel ch pod d) (\<lambda>_. Ret x)) (\<lambda>_ r. r = x) l"
proof -
  have rec: "meets source_contract (recordPodMetrics fuel pod d) (\<lambda>l r. \<forall>rm. r = Inr rm \<longrightarrow> all_sampled l (rm_Usage rm)) l" for l
    unfolding recordPodMetrics_def
  proof (rule source_ask, simp)
    fix start r
    show "meets source_contract (pbind (collect_loop fuel pod start d []) (\<lambda>r. case r of
       Inl err \<Rightarrow> Ret (Inl err)
     | Inr recorded \<Rightarrow> pbind m_now (\<lambda>end.
         Ret (Inr \<lparr>rm_Pod = pod_Name pod, rm_Start = start, rm_End = end, rm_Interval = metricsRecordingInterval,
                   rm_Duration = d, rm_Usage = recorded\<rparr>))))
       (\<lambda>l r. \<forall>rm. r = Inr rm \<longrightarrow> all_sampled l (rm_Usage rm)) (l @ [(MNow, r)])"
      unfolding meets_pbind [where p = "collect_loop fuel pod start d []"]
      by (rule meets_mono [OF loop_source]) (auto simp: all_sampled_def [of _ "[]"] split: sum.splits intro!: source_ask all_grow simp del: meets_pbind)
  qed
  have send: "meets source_contract (pbind (ask (MSend ch (case r of Inl err \<Rightarrow> None | Inr rm \<Rightarrow> Some rm)) m_ok) (\<lambda>_. pbind (ask (MDone ch) m_ok) (\<lambda>_. Ret x)))
      (\<lambda>_ r. r = x) l" if "\<forall>rm. r = Inr rm \<longrightarrow> all_sampled l (rm_Usage rm)" for r :: "error + RecordedMetrics" and l
    using that by (intro source_ask) (auto simp: source_may_def all_sampled_def split: sum.splits)
  show ?thesis
    unfolding collector_def pbind_assoc meets_pbind [where p = "recordPodMetrics fuel pod d"]
    by (rule meets_mono [OF rec]) (rule send)
qed

lemma recorder_source:
  "meets source_contract (RecordMetrics fuel ns sel d) (\<lambda>l r. \<forall>us. r = Inr us \<longrightarrow> (\<forall>u \<in> set us. received l u)) l"
proof -
  let ?Q = "\<lambda>l r. \<forall>us. r = Inr us \<longrightarrow> (\<forall>u \<in> set us. received l u)"
  have received_grows: "received (l @ l') u" if "received l u" for l l' u using that unfolding received_def by auto
  have gather: "meets source_contract (pfold gather_result rs []) (\<lambda>l us. (MReceive ch, MResults all) \<in> set l \<and> (\<forall>u \<in> set us. received l u)) l"
    if "set rs \<subseteq> set all" "(MReceive ch, MResults all) \<in> set l" for rs all ch l
  proof (rule meets_pfold)
    fix x l us
    assume x: "x \<in> set rs" and us: "(MReceive ch, MResults all) \<in> set l \<and> (\<forall>u \<in> set us. received l u)"
    show "meets source_contract (gather_result x us) (\<lambda>l us. (MReceive ch, MResults all) \<in> set l \<and> (\<forall>u \<in> set us. received l u)) l"
    proof (cases x)
      case (Some rm)
      with x that(1) us have "received l u" if "u \<in> snd ` set (rm_Usage rm)" for u
        using that unfolding received_def by blast
      with us show ?thesis
        unfolding gather_result_def Some option.case
        by (intro source_ask) (auto intro: received_grows)
    qed (simp add: gather_result_def)
  qed (use that in simp_all)
  have results: "meets source_contract (pbind (ask (MReceive ch) m_results) (\<lambda>results.
      pbind (pfold gather_result results []) (\<lambda>records. Ret (Inr records)))) ?Q l" for ch l
  proof (rule source_ask, simp)
    fix all r
    assume "m_results r = Some all"
    then have r: "r = MResults all" by (simp add: m_results_def split: mresp.splits)
    show "meets source_contract (pbind (pfold gather_result all []) (\<lambda>records. Ret (Inr records))) ?Q (l @ [(MReceive ch, r)])"
      unfolding meets_pbind by (rule meets_mono [OF gather [of all all ch]]) (simp_all add: r)
  qed
  have wait: "meets source_contract (await_assigned fuel ns sel) (\<lambda>_ _. True) l" for l
    by (induction fuel arbitrary: l) (auto split: sum.splits intro!: source_ask simp del: meets_pbind)
  have keep: "meets source_contract (pfold keep_pod pods acc) (\<lambda>_ _. True) l" for pods acc l
    by (rule meets_pfold) (auto simp: keep_pod_def Let_def simp del: meets_pbind intro!: source_ask)
  have go: "meets source_contract (pfold (\<lambda>pod _. ask (MGo ch pod d) m_ok) pods ()) (\<lambda>_ _. True) l" for ch pods l
    by (rule meets_pfold) (auto simp: meets_ask split: option.splits)
  have started: "meets source_contract (pbind (pfold (\<lambda>pod _. ask (MGo ch pod d) m_ok) pods ()) (\<lambda>_. pbind (ask (MWait ch n) m_ok) (\<lambda>_.
      pbind (ask (MReceive ch) m_results) (\<lambda>results. pbind (pfold gather_result results []) (\<lambda>records. Ret (Inr records)))))) ?Q l" for ch pods n l
    unfolding meets_pbind [where p = "pfold (\<lambda>pod _. ask (MGo ch pod d) m_ok) pods ()"]
    by (rule meets_mono [OF go]) (rule source_ask, simp, rule results)
  have chosen: "meets source_contract (pbind (pfold keep_pod pods []) (\<lambda>podsToRecord. pbind (ask MMakeChan m_chan) (\<lambda>ch.
      pbind (pfold (\<lambda>pod _. ask (MGo ch pod d) m_ok) podsToRecord ()) (\<lambda>_. pbind (ask (MWait ch (length podsToRecord)) m_ok) (\<lambda>_.
      pbind (ask (MReceive ch) m_results) (\<lambda>results. pbind (pfold gather_result results []) (\<lambda>records. Ret (Inr records)))))))) ?Q l" for pods l
    unfolding meets_pbind [where p = "pfold keep_pod pods []"]
    by (rule meets_mono [OF keep]) (rule source_ask, simp, rule started)
  show ?thesis
    unfolding RecordMetrics_def meets_pbind [where p = "await_assigned fuel ns sel"]
  proof (rule meets_mono [OF wait])
    fix l and r :: "error + Pod list"
    show "meets source_contract (case r of
       Inl err \<Rightarrow> Ret (Inl err)
     | Inr pods \<Rightarrow>
         pbind (pfold keep_pod pods []) (\<lambda>podsToRecord.
         pbind (ask MMakeChan m_chan) (\<lambda>ch.
         pbind (pfold (\<lambda>pod _. ask (MGo ch pod d) m_ok) podsToRecord ()) (\<lambda>_.
         pbind (ask (MWait ch (length podsToRecord)) m_ok) (\<lambda>_.
         pbind (ask (MReceive ch) m_results) (\<lambda>results.
         pbind (pfold gather_result results []) (\<lambda>records. Ret (Inr records)))))))) ?Q l"
    proof (cases r)
      case (Inr pods)
      show ?thesis unfolding Inr sum.case by (rule chosen)
    qed simp
  qed
qed

text \<open>What the memory holds was written by some thread.\<close>

lemma memory_written:
  assumes "memory_after es initial_memory = Some m"
  shows "me_metrics m = [] \<or> (\<exists>i. (i, MWriteMetrics (me_metrics m), MOk) \<in> set es)"
    and "x \<in> set (me_chans m ch) \<Longrightarrow> \<exists>i. (i, MSend ch x, MOk) \<in> set es"
proof -
  have "(me_metrics m = [] \<or> (\<exists>i. (i, MWriteMetrics (me_metrics m), MOk) \<in> set es)) \<and>
     (\<forall>ch. \<forall>x \<in> set (me_chans m ch). \<exists>i. (i, MSend ch x, MOk) \<in> set es)"
    using assms
  proof (induction es arbitrary: m rule: rev_induct)
    case Nil
    then have "m = initial_memory" by simp
    then show ?case by (simp add: initial_memory_def)
  next
    case (snoc e es)
    obtain i c r where e: "e = (i, c, r)" by (cases e)
    from snoc.prems obtain m0 where m0: "memory_after es initial_memory = Some m0" and m: "memory_step c r m0 = Some m"
      by (auto simp: e memory_after_append split: option.splits)
    from m have metrics: "me_metrics m = me_metrics m0 \<or> (c = MWriteMetrics (me_metrics m) \<and> r = MOk)"
      by (cases c) (auto split: if_splits)
    from m have chans: "x \<in> set (me_chans m0 ch) \<or> (c = MSend ch x \<and> r = MOk)" if "x \<in> set (me_chans m ch)" for x ch
      using that by (cases c) (auto split: if_splits)
    from snoc.IH [OF m0] metrics chans show ?case by (fastforce simp: e)
  qed
  then show "me_metrics m = [] \<or> (\<exists>i. (i, MWriteMetrics (me_metrics m), MOk) \<in> set es)"
    and "x \<in> set (me_chans m ch) \<Longrightarrow> \<exists>i. (i, MSend ch x, MOk) \<in> set es" by blast+
qed

lemma memory_before:
  assumes "memory_after es initial_memory \<noteq> None" and "(i, c, r) \<in> set es"
  shows "\<exists>pre m m'. set pre \<subseteq> set es \<and> memory_after pre initial_memory = Some m \<and> memory_step c r m = Some m'"
proof -
  from assms(2) obtain pre post where es: "es = pre @ (i, c, r) # post" by (auto simp: in_set_conv_decomp)
  with assms(1) show ?thesis by (intro exI [of _ pre]) (auto simp: memory_after_append split: option.splits)
qed

lemma metrics_read:
  assumes "memory_after es initial_memory \<noteq> None" and "(i, MReadMetrics, MMetrics m) \<in> set es" and "x \<in> set m"
  shows "\<exists>j. (j, MWriteMetrics m, MOk) \<in> set es"
proof -
  from memory_before [OF assms(1,2)] obtain pre me where "set pre \<subseteq> set es" "memory_after pre initial_memory = Some me" "me_metrics me = m"
    by (auto split: if_splits)
  with memory_written(1) [of pre me] assms(3) show ?thesis by (auto dest: subsetD)
qed

lemma result_received:
  assumes "memory_after es initial_memory \<noteq> None" and "(i, MReceive ch, MResults rs) \<in> set es" and "x \<in> set rs"
  shows "\<exists>j. (j, MSend ch x, MOk) \<in> set es"
proof -
  from memory_before [OF assms(1,2)] obtain pre me where pre: "set pre \<subseteq> set es" "memory_after pre initial_memory = Some me" "me_chans me ch = rs"
    by (auto split: if_splits)
  with memory_written(2) [OF pre(2), of x ch] assms(3) show ?thesis by auto
qed

text \<open>What a thread does, its own log allows.\<close>

lemma recorder_sources:
  assumes "pool_run (metrics_spawn fuel) (recorder fuel jobs) es ps"
  shows "(i, c, r) \<in> set es \<Longrightarrow> \<exists>l. set l \<subseteq> set (map snd es) \<and> source_may l c"
    and "i < length ps \<Longrightarrow> ps ! i = Ret (Inr us) \<Longrightarrow> \<forall>u \<in> set us. received (own i es) u"
proof -
  let ?Q = "\<lambda>l r. \<forall>us. r = Inr us \<longrightarrow> (\<forall>u \<in> set us. received l u)"
  have follow: "follow source_contract [] l = Some l" for l
  proof -
    have "follow source_contract s l = Some (s @ l)" for s by (induction l arbitrary: s) auto
    then show ?thesis by simp
  qed
  have collectors: "\<forall>p \<in> set (metrics_spawn fuel c). meets source_contract p ?Q []" for c
    by (cases c) (auto simp del: meets_pbind intro!: meets_mono [OF collector_source])
  have recorders: "\<forall>p \<in> set (recorder fuel jobs). meets source_contract p ?Q []"
    by (auto simp: recorder_def intro: recorder_source)
  show "\<exists>l. set l \<subseteq> set (map snd es) \<and> source_may l c" if e: "(i, c, r) \<in> set es"
  proof -
    from e obtain pre post where es: "es = pre @ (i, c, r) # post" by (auto simp: in_set_conv_decomp)
    from pool_run_prefix [OF assms es] obtain ps0 k where run: "pool_run (metrics_spawn fuel) (recorder fuel jobs) pre ps0"
      and i: "i < length ps0" "ps0 ! i = Call c k" by blast
    from pool_meets [OF run i(1) recorders collectors follow] i(2) have "source_may (own i pre) c" by simp
    then show ?thesis unfolding es by (intro exI [of _ "own i pre"]) (auto simp: own_def)
  qed
  show "\<forall>u \<in> set us. received (own i es) u" if "i < length ps" "ps ! i = Ret (Inr us)"
    using pool_meets [OF assms that(1) recorders collectors follow] that(2) by simp
qed

text \<open>C25: every sample was measured. In any interleaving of recordings that the shared memory allows, each record in a result of \<open>RecordMetrics\<close>
  holds the CPU and memory figures that a kubelet, asked by some thread and answering with status 200 and a summary that could
  be decoded, reported for a pod.\<close>

theorem samples_come_from_kubelets:
  assumes "pool_run (metrics_spawn fuel) (recorder fuel jobs) es ps" and "memory_after es initial_memory \<noteq> None"
    and "i < length ps" and "ps ! i = Ret (Inr us)" and "u \<in> set us"
  shows "\<exists>j node body uid st. (j, MNodeStats node, MReply (Response 200 (Inr body))) \<in> set es \<and> (uid, st) \<in> set body \<and>
    usage_record (ru_Time u) st = Inr u"
proof -
  from bspec [OF recorder_sources(2) [OF assms(1,3,4)] assms(5)] obtain ch rs rm where
    rs: "(i, MReceive ch, MResults rs) \<in> set es" "Some rm \<in> set rs" "u \<in> snd ` set (rm_Usage rm)"
    unfolding received_def in_own by blast
  from result_received [OF assms(2) rs(1,2)] obtain j where "(j, MSend ch (Some rm), MOk) \<in> set es" by blast
  from recorder_sources(1) [OF assms(1) this] rs(3) obtain l where l: "set l \<subseteq> set (map snd es)" and "sampled l u"
    by (auto simp: source_may_def)
  then obtain m uid st where read: "(MReadMetrics, MMetrics m) \<in> set l" and st: "(uid, st) \<in> set m"
    and u: "usage_record (ru_Time u) st = Inr u" by (auto simp: sampled_def)
  from read l obtain j' where "(j', MReadMetrics, MMetrics m) \<in> set es" by auto
  from metrics_read [OF assms(2) this st] obtain j'' where "(j'', MWriteMetrics m, MOk) \<in> set es" by blast
  from recorder_sources(1) [OF assms(1) this] st obtain l' where l': "set l' \<subseteq> set (map snd es)" and "answered l' (uid, st)"
    by (auto simp: source_may_def)
  then obtain node body where "(MNodeStats node, MReply (Response 200 (Inr body))) \<in> set l'" "(uid, st) \<in> set body"
    by (auto simp: answered_def)
  with l' u show ?thesis by fastforce
qed

section \<open>Failed collectors\<close>

text \<open>Whether a recording has received a nil result.\<close>

definition nil_received :: "bool \<Rightarrow> mcall \<Rightarrow> mresp \<Rightarrow> bool" where
  "nil_received b c r \<longleftrightarrow> b \<or> (case (c, r) of (MReceive ch, MResults rs) \<Rightarrow> None \<in> set rs | _ \<Rightarrow> False)"

definition nil_contract :: "(bool, mcall, mresp) contract" where
  "nil_contract = \<lparr>rg_may = (\<lambda>_ _. True), rg_ans = (\<lambda>_ _ _. True), rg_next = nil_received, rg_crash = (\<lambda>_. True)\<rparr>"

lemma nil_contract_simps [simp]:
  "rg_may nil_contract s c" "rg_ans nil_contract s c r" "rg_next nil_contract = nil_received" "rg_crash nil_contract e"
  by (simp_all add: nil_contract_def)

definition receives :: "mcall \<Rightarrow> bool" where
  "receives c \<longleftrightarrow> (case c of MReceive ch \<Rightarrow> True | _ \<Rightarrow> False)"

lemma nil_received_other: "\<not> receives c \<Longrightarrow> nil_received b c r = b"
  by (cases c) (simp_all add: nil_received_def receives_def)

lemma receives_simps [simp]:
  "\<not> receives (MListPods a b)" "\<not> receives (MGetPod a c)" "\<not> receives MNow" "\<not> receives (MSleep d)" "\<not> receives MOrder"
  "\<not> receives MReadLast" "\<not> receives MReadMetrics" "\<not> receives MMakeChan" "\<not> receives (MGo ch p d)" "\<not> receives (MDone ch)"
  "\<not> receives (MWait ch n)" "\<not> receives (MSend ch x)" "\<not> receives MLock" "\<not> receives MUnlock" "\<not> receives (MNodeStats b')"
  "\<not> receives MListNodes" "\<not> receives (MWriteLast t)" "\<not> receives (MWriteMetrics m)"
  by (simp_all add: receives_def)

abbreviation unharmed :: "'a mio \<Rightarrow> bool" where
  "unharmed p \<equiv> meets nil_contract p (\<lambda>b _. \<not> b) False"

lemma unharmed_ask [simp]: "\<not> receives c \<Longrightarrow> unharmed (ask c dec)"
  by (auto simp: meets_ask nil_received_other split: option.splits)

lemma unharmed_pbind: "unharmed p \<Longrightarrow> (\<And>a. unharmed (f a)) \<Longrightarrow> unharmed (pbind p f)"
  unfolding meets_pbind by (rule meets_mono [where Q = "\<lambda>s _. \<not> s"]) auto

lemma unharmed_lift [simp]: "unharmed (lift_go x)"
  by (simp add: meets_lift_go split: sum.splits)

lemma unharmed_pfold: "(\<And>x s. unharmed (f x s)) \<Longrightarrow> unharmed (pfold f xs a)"
  by (induction xs arbitrary: a) (auto simp del: meets_pbind intro: unharmed_pbind)

lemmas unharmed_intros = unharmed_pbind unharmed_pfold

lemma unharmed_refresh: "unharmed refreshPodMetrics"
  unfolding refreshPodMetrics_def getNodes_def merge_node_def refreshPodMetricsPerNode_def
  by (auto simp del: meets_pbind intro!: unharmed_intros split: sum.splits)

lemma unharmed_loop: "unharmed (collect_loop fuel pod start duration recorded)"
  unfolding getPodResourceUsage_def
  by (induction fuel arbitrary: recorded)
    (auto simp: Let_def getPodResourceUsage_def simp del: meets_pbind intro!: unharmed_intros unharmed_refresh split: option.splits sum.splits)

lemma unharmed_collector: "unharmed (pbind (collector fuel ch pod d) (\<lambda>_. Ret x))"
  unfolding collector_def recordPodMetrics_def
  by (auto simp del: meets_pbind intro!: unharmed_intros unharmed_loop split: sum.splits)

lemma unharmed_await: "unharmed (await_assigned fuel ns sel)"
  by (induction fuel) (auto simp del: meets_pbind intro!: unharmed_pbind split: sum.splits)

lemma gather_panics: "None \<in> set results \<Longrightarrow> meets nil_contract (pfold gather_result results acc) (\<lambda>_ _. False) b"
proof (induction results arbitrary: acc b)
  case (Cons x results)
  then show ?case by (cases x) (auto simp: gather_result_def meets_ask nil_received_other split: option.splits)
qed simp

lemma unharmed_gather: "unharmed (pbind (ask (MReceive ch) m_results) (\<lambda>results. pbind (pfold gather_result results []) (\<lambda>us. Ret (f us))))"
proof -
  have "meets nil_contract (pfold gather_result results []) (\<lambda>b _. \<not> b) (nil_received False (MReceive ch) (MResults results))" for results
  proof (cases "None \<in> set results")
    case True
    show ?thesis by (rule meets_mono [OF gather_panics [OF True]]) simp
  next
    case False
    then have "\<not> nil_received False (MReceive ch) (MResults results)" by (simp add: nil_received_def)
    then show ?thesis
      by (simp, auto simp: gather_result_def simp del: meets_pbind intro!: unharmed_intros split: option.splits)
  qed
  then show ?thesis by (auto simp: meets_ask m_results_def split: option.splits mresp.splits)
qed

lemma unharmed_RecordMetrics: "unharmed (RecordMetrics fuel ns sel d)"
  unfolding RecordMetrics_def keep_pod_def
  by (auto simp: Let_def simp del: meets_pbind intro!: unharmed_intros unharmed_await unharmed_gather split: sum.splits)

lemma nil_follow: "follow nil_contract b l = Some b' \<Longrightarrow> b \<or> (MReceive ch, MResults rs) \<in> set l \<Longrightarrow> b \<or> None \<in> set rs \<Longrightarrow> b'"
proof (induction l arbitrary: b)
  case (Cons p l)
  obtain c r where p: "p = (c, r)" by (cases p)
  show ?case
    by (rule Cons.IH [of "nil_received b c r"]) (use Cons.prems in \<open>auto simp: p nil_received_def\<close>)
qed simp

text \<open>What was sent is received, unless it already was.\<close>

lemma sent_kept:
  assumes "memory_after es m0 = Some m" and "(j, MSend ch x, r) \<in> set es" and "\<forall>(i, c, r) \<in> set es. c \<noteq> MReceive ch"
  shows "x \<in> set (me_chans m ch)"
  using assms
proof (induction es arbitrary: m rule: rev_induct)
  case (snoc e es)
  obtain i c r' where e: "e = (i, c, r')" by (cases e)
  from snoc.prems obtain m1 where m1: "memory_after es m0 = Some m1" and step: "memory_step c r' m1 = Some m"
    by (auto simp: e memory_after_append split: option.splits)
  show ?case
  proof (cases "c = MSend ch x")
    case True
    with step show ?thesis by (auto split: if_splits)
  next
    case False
    with snoc.prems have "x \<in> set (me_chans m1 ch)" by (intro snoc.IH [OF m1]) (auto simp: e)
    with step snoc.prems(3) show ?thesis by (cases c) (auto simp: e split: if_splits)
  qed
qed simp

text \<open>C29: a failed collector brings down its recording. Once a collector has sent nil, as it does when the recording of its pod failed,
  the thread that receives the results of the channel never returns: its loop over the results dereferences the nil.\<close>

theorem failed_collector_panics:
  assumes "pool_run (metrics_spawn fuel) (recorder fuel jobs) es ps" and "memory_after es initial_memory \<noteq> None"
    and "es = pre @ (i, MReceive ch, r) # post" and "(j, MSend ch None, r') \<in> set pre" and "\<forall>(i, c, r) \<in> set pre. c \<noteq> MReceive ch"
  shows "ps ! i \<noteq> Ret res"
proof
  assume ret: "ps ! i = Ret res"
  from assms(2,3) obtain m where m: "memory_after pre initial_memory = Some m" and "memory_step (MReceive ch) r m \<noteq> None"
    by (auto simp: memory_after_append split: option.splits)
  with sent_kept [OF m assms(4,5)] obtain rs where rs: "r = MResults rs" "None \<in> set rs" by (auto split: if_splits)
  have i: "i < length ps" using pool_run_known [OF assms(1)] assms(3) by auto
  obtain b where b: "follow nil_contract False (own i es) = Some b" using follow_total [of nil_contract False "own i es"] by auto
  have collectors: "\<forall>p \<in> set (metrics_spawn fuel c). unharmed p" for c
    by (cases c) (simp_all add: unharmed_collector del: meets_pbind)
  have "\<forall>p \<in> set (recorder fuel jobs). unharmed p" by (auto simp: recorder_def unharmed_RecordMetrics)
  from pool_meets [OF assms(1) i this collectors b] ret have "\<not> b" by simp
  moreover have b: b by (rule nil_follow [OF b, of ch rs]) (use assms(3) rs in auto)
  ultimately show False by simp
qed

text \<open>A recording whose pod was not assigned any more when it was fetched again.\<close>

definition lost_pod :: Pod where
  "lost_pod = web_pod\<lparr>pod_NodeName := ''''\<rparr>"

definition lost_recording :: "(mcall, mresp) events" where
  "lost_recording =
    [(0, MListPods ''ns'' None, MPods [web_pod]), (0, MGetPod ''ns'' ''web'', MPod lost_pod), (0, MMakeChan, MChan 0),
     (0, MGo 0 lost_pod 0, MOk), (1, MNow, MTime 1), (1, MNow, MTime 2), (1, MSend 0 None, MOk), (1, MDone 0, MOk), (0, MWait 0 1, MOk)]"

lemma failed_collector_panics_witness: "[Crash NilDeref, Ret (Inr [])] ! 0 \<noteq> (Ret (Inr []) :: (error + ResourceUsageRecord list) mio)"
proof (rule failed_collector_panics [where es = "lost_recording @ [(0, MReceive 0, MResults [None])]" and pre = lost_recording and post = "[]"
      and r = "MResults [None]" and ch = 0 and j = 1 and r' = MOk])
  show "pool_run (metrics_spawn 1) (recorder 1 [(''ns'', None, 0)]) (lost_recording @ [(0, MReceive 0, MResults [None])]) [Crash NilDeref, Ret (Inr [])]"
    unfolding pool_run_exec lost_recording_def
    by (simp add: recorder_def RecordMetrics_def keep_pod_def collector_def recordPodMetrics_def gather_result_def ask_def m_decoders
        web_pod_def lost_pod_def)
qed (simp_all add: lost_recording_def initial_memory_def)

lemma samples_come_from_kubelets_witness:
  "\<exists>j node body uid st. (j, MNodeStats node, MReply (Response 200 (Inr body))) \<in> set one_recording \<and> (uid, st) \<in> set body \<and>
    usage_record (ru_Time web_usage) st = Inr web_usage"
  by (rule samples_come_from_kubelets [OF one_recording_runs one_recording_memory, where i = 0 and us = "[web_usage]"]) simp_all

end
