(* ===== verification/MetricsTermination.thy ===== *)
theory MetricsTermination
  imports MetricsMutex
begin

text \<open>
  The recording of one pod ends, and not before its duration is over.
\<close>

section \<open>Recordings end\<close>

text \<open>
  An environment that answers every call by its type, whose clock goes forward at least by what is slept, and whose
  stats have their figures. The ghost state is the earliest time the clock can show.
\<close>

definition has_figures :: "PodStats \<Rightarrow> bool" where
  "has_figures st \<longleftrightarrow> (\<exists>cpu memory. st_CPU st = Some (Some cpu) \<and> st_Memory st = Some (Some memory))"

definition prompt :: "(int, mcall, mresp) contract" where
  "prompt = \<lparr>
     rg_may = (\<lambda>_ _. True),
     rg_ans = (\<lambda>lb c r. case c of
        MNow \<Rightarrow> (\<exists>t. r = MTime t \<and> lb \<le> t)
      | MListNodes \<Rightarrow> m_nodes r \<noteq> None
      | MNodeStats n \<Rightarrow> m_reply r \<noteq> None
      | MOrder \<Rightarrow> m_picks r \<noteq> None
      | MReadLast \<Rightarrow> m_last r \<noteq> None
      | MReadMetrics \<Rightarrow> (\<exists>m. r = MMetrics m \<and> (\<forall>(uid, st) \<in> set m. has_figures st))
      | MListPods a b \<Rightarrow> m_pods r \<noteq> None
      | MGetPod a b \<Rightarrow> m_pod r \<noteq> None
      | MMakeChan \<Rightarrow> m_chan r \<noteq> None
      | MReceive ch \<Rightarrow> m_results r \<noteq> None
      | _ \<Rightarrow> r = MOk),
     rg_next = (\<lambda>lb c r. case c of MNow \<Rightarrow> (case r of MTime t \<Rightarrow> t | _ \<Rightarrow> lb) | MSleep d \<Rightarrow> lb + d | _ \<Rightarrow> lb),
     rg_crash = (\<lambda>_. False)\<rparr>"

lemma prompt_simps [simp]:
  "rg_may prompt s c" "rg_crash prompt e = False"
  "rg_ans prompt lb MNow r \<longleftrightarrow> (\<exists>t. r = MTime t \<and> lb \<le> t)" "rg_next prompt lb MNow (MTime t) = t"
  "rg_ans prompt lb MListNodes r \<longleftrightarrow> m_nodes r \<noteq> None" "rg_next prompt lb MListNodes r = lb"
  "rg_ans prompt lb (MNodeStats n) r \<longleftrightarrow> m_reply r \<noteq> None" "rg_next prompt lb (MNodeStats n) r = lb"
  "rg_ans prompt lb MOrder r \<longleftrightarrow> m_picks r \<noteq> None" "rg_next prompt lb MOrder r = lb"
  "rg_ans prompt lb MReadLast r \<longleftrightarrow> m_last r \<noteq> None" "rg_next prompt lb MReadLast r = lb"
  "rg_ans prompt lb MReadMetrics r \<longleftrightarrow> (\<exists>m. r = MMetrics m \<and> (\<forall>(uid, st) \<in> set m. has_figures st))"
  "rg_next prompt lb MReadMetrics r = lb"
  "rg_ans prompt lb MLock r \<longleftrightarrow> r = MOk" "rg_next prompt lb MLock r = lb"
  "rg_ans prompt lb MUnlock r \<longleftrightarrow> r = MOk" "rg_next prompt lb MUnlock r = lb"
  "rg_ans prompt lb (MWriteLast t) r \<longleftrightarrow> r = MOk" "rg_next prompt lb (MWriteLast t) r = lb"
  "rg_ans prompt lb (MWriteMetrics m) r \<longleftrightarrow> r = MOk" "rg_next prompt lb (MWriteMetrics m) r = lb"
  "rg_ans prompt lb (MSleep d) r \<longleftrightarrow> r = MOk" "rg_next prompt lb (MSleep d) r = lb + d"
  by (auto simp: prompt_def)

lemma m_simps [simp]:
  "m_time (MTime t) = Some t" "m_ok MOk = Some ()" "m_metrics (MMetrics m) = Some m"
  by (simp_all add: m_decoders)

lemma prompt_merges: "meets prompt (pfold merge_node ns m) (\<lambda>s _. s = lb) lb"
  by (induction ns arbitrary: m) (auto simp: merge_node_def refreshPodMetricsPerNode_def meets_ask split: option.splits)

lemma prompt_refresh: "meets prompt refreshPodMetrics (\<lambda>s _. lb \<le> s) lb"
proof -
  have tail: "meets prompt (pbind m_now (\<lambda>t. pbind (ask (MWriteLast t) m_ok) (\<lambda>_. pbind (ask (MWriteMetrics new) m_ok) (\<lambda>_.
      pbind (ask MUnlock m_ok) (\<lambda>_. Ret None))))) (\<lambda>s _. lb \<le> s) t" if "lb \<le> t" for new t
    using that by (auto simp: meets_ask split: option.splits)
  show ?thesis
    unfolding refreshPodMetrics_def getNodes_def
    by (auto simp: meets_ask split: option.splits sum.splits intro!: meets_mono [OF prompt_merges] tail [unfolded meets_pbind])
qed

lemma prompt_usage: "meets prompt (getPodResourceUsage pod) (\<lambda>s r. s = lb \<and> (\<forall>st. r = Inr st \<longrightarrow> has_figures st)) lb"
  by (auto simp: getPodResourceUsage_def meets_ask split: option.splits dest!: map_of_SomeD)

lemma usage_record_figures: "has_figures st \<Longrightarrow> \<exists>u. usage_record t st = Inr u"
  by (auto simp: usage_record_def has_figures_def)

lemma prompt_now: "(\<And>t. lb \<le> t \<Longrightarrow> meets prompt (f t) Q t) \<Longrightarrow> meets prompt (pbind m_now f) Q lb"
  by (auto simp: meets_ask)

text \<open>A round that is not the last sleeps at least five seconds.\<close>

lemma collect_round:
  assumes goes_on: "\<And>recorded t s. lb \<le> t \<Longrightarrow> t - start < duration \<Longrightarrow> t + 5 * second \<le> s \<Longrightarrow>
      meets prompt (collect_loop fuel pod start duration recorded) Q s"
    and stops: "\<And>recorded s. start + duration \<le> s \<Longrightarrow> Q s (Inr recorded)" and fails: "\<And>e s. Q s (Inl e)"
  shows "meets prompt (collect_loop (Suc fuel) pod start duration recorded) Q lb"
proof -
  have sampled: "meets prompt (pbind m_now (\<lambda>t. pbind (lift_go (usage_record t st)) (\<lambda>metric.
      let recorded = map_put (ru_Time metric) metric recorded in
      if duration \<le> t0 - start then Ret (Inr recorded)
      else pbind (m_sleep (metricsRecordingInterval * second)) (\<lambda>_. collect_loop fuel pod start duration recorded)))) Q s"
    if "has_figures st" "lb \<le> t0" "t0 \<le> s" for st t0 s
  proof -
    have u: "\<exists>u. usage_record t st = Inr u" for t using usage_record_figures [OF that(1)] .
    show ?thesis
      using that u by (auto simp: meets_ask meets_lift_go Let_def metricsRecordingInterval_def intro!: stops goes_on [of t0]
          split: option.splits sum.splits) (metis old.sum.simps(5) u sum.distinct(1))+
  qed
  have used: "meets prompt (pbind (getPodResourceUsage pod) (\<lambda>u. case u of
         Inl err \<Rightarrow> if duration \<le> t0 - start then Ret (Inr recorded)
           else pbind (m_sleep (5 * second)) (\<lambda>_. collect_loop fuel pod start duration recorded)
       | Inr st \<Rightarrow> pbind m_now (\<lambda>t. pbind (lift_go (usage_record t st)) (\<lambda>metric.
           let recorded = map_put (ru_Time metric) metric recorded in
           if duration \<le> t0 - start then Ret (Inr recorded)
           else pbind (m_sleep (metricsRecordingInterval * second)) (\<lambda>_. collect_loop fuel pod start duration recorded))))) Q s"
    if "lb \<le> t0" "t0 \<le> s" for t0 s
    unfolding meets_pbind [where p = "getPodResourceUsage pod"]
  proof (rule meets_mono [OF prompt_usage [of pod s]], goal_cases)
    case (1 s' u)
    show ?case
    proof (cases u)
      case (Inl err)
      with 1 that show ?thesis by (auto simp: meets_ask intro!: stops goes_on [of t0] split: option.splits)
    next
      case (Inr st)
      with 1 that sampled [of st t0 s'] show ?thesis by (simp del: meets_pbind)
    qed
  qed
  show ?thesis
    unfolding collect_loop.simps Let_def
  proof (rule prompt_now, rule meets_if)
    fix t0
    assume t0: "lb \<le> t0"
    show "meets prompt (pbind refreshPodMetrics (\<lambda>e. case e of Some err \<Rightarrow> Ret (Inl err) | None \<Rightarrow>
      pbind (getPodResourceUsage pod) (\<lambda>u. case u of
         Inl err \<Rightarrow> if duration \<le> t0 - start then Ret (Inr recorded)
           else pbind (m_sleep (5 * second)) (\<lambda>_. collect_loop fuel pod start duration recorded)
       | Inr st \<Rightarrow> pbind m_now (\<lambda>t. pbind (lift_go (usage_record t st)) (\<lambda>metric.
           if duration \<le> t0 - start then Ret (Inr (map_put (ru_Time metric) metric recorded))
           else pbind (m_sleep (metricsRecordingInterval * second))
             (\<lambda>_. collect_loop fuel pod start duration (map_put (ru_Time metric) metric recorded))))))) Q t0"
      unfolding meets_pbind [where p = refreshPodMetrics]
    proof (rule meets_mono [OF prompt_refresh [of t0]], goal_cases)
      case (1 s e)
      show ?case
      proof (cases e)
        case None
        with 1 t0 show ?thesis unfolding None option.case by (intro used [unfolded Let_def])
      qed (simp add: fails)
    qed
  qed (simp_all add: fails)
qed

lemma collect_loop_ends:
  "start + duration - lb \<le> 5 * second * int fuel \<Longrightarrow>
   meets prompt (collect_loop (Suc fuel) pod start duration recorded) (\<lambda>s r. \<forall>us. r = Inr us \<longrightarrow> start + duration \<le> s) lb"
proof (induction fuel arbitrary: lb recorded)
  case 0
  show ?case by (rule collect_round) (use 0 in auto)
next
  case (Suc fuel)
  show ?case by (rule collect_round, rule Suc.IH) (use Suc.prems in \<open>auto simp: algebra_simps\<close>)
qed

text \<open>A handler that keeps this contract, \<open>clk\<close> its reading of the earliest time.\<close>

definition prompt_server :: "(mcall, mresp, 'w) handler \<Rightarrow> ('w \<Rightarrow> int) \<Rightarrow> bool" where
  "prompt_server h clk \<longleftrightarrow> (\<forall>c w r w'. h c w = (r, w') \<longrightarrow>
     rg_ans prompt (clk w) c r \<and> clk w' = rg_next prompt (clk w) c r)"


text \<open>A cluster whose kubelets never answer; its clock moves when a goroutine sleeps.\<close>

fun mute_kubelets :: "(mcall, mresp, int) handler" where
  "mute_kubelets MNow t = (MTime t, t)"
| "mute_kubelets (MSleep d) t = (MOk, t + d)"
| "mute_kubelets MListNodes t = (MNodes [''n''], t)"
| "mute_kubelets (MNodeStats n) t = (MReply (Unreachable (ApiError NotFound)), t)"
| "mute_kubelets MOrder t = (MPicks [], t)"
| "mute_kubelets MReadLast t = (MLast (Some 0), t)"
| "mute_kubelets MReadMetrics t = (MMetrics [], t)"
| "mute_kubelets (MListPods a b) t = (MPods [], t)"
| "mute_kubelets (MGetPod a b) t = (MErr (ApiError NotFound), t)"
| "mute_kubelets MMakeChan t = (MChan 0, t)"
| "mute_kubelets (MReceive ch) t = (MResults [], t)"
| "mute_kubelets c t = (MOk, t)"

lemma mute_kubelets_prompt: "prompt_server mute_kubelets (\<lambda>t. t)"
  unfolding prompt_server_def
proof (intro allI impI)
  fix c t r t'
  assume "mute_kubelets c t = (r, t')"
  then show "rg_ans prompt t c r \<and> t' = rg_next prompt t c r"
    by (cases c) (auto simp: prompt_def m_decoders)
qed


end
