(* ===== verification/Progress.thy ===== *)
theory Progress
  imports WorkloadReconcile Concurrency
begin

text \<open>
  Whether the workload controller comes back to a check: a pass that starts a run asks to be called again when the run
  should be over, in sequential mode a pass that starts none is not called again, and when the checks count as finished.
\<close>

section \<open>The durations a pass has read\<close>

text \<open>
  \<open>GetCheckDuration\<close> depends on one field of the specification. The ghost state is the set of values the pass has read
  of it and whether it started a run.
\<close>

definition spec_duration :: "string \<Rightarrow> int" where
  "spec_duration d = (if d = '''' then 5 * minute else case ParseDuration d of Inl e \<Rightarrow> 5 * minute | Inr d \<Rightarrow> d)"

abbreviation duration_field :: "Whc \<Rightarrow> string" where
  "duration_field m \<equiv> ws_RecordingDuration (whc_Spec m)"

lemma GetCheckDuration_field: "GetCheckDuration m = spec_duration (duration_field m)"
  by (simp add: GetCheckDuration_def spec_duration_def)

lemma duration_field_kept [simp]:
  "duration_field (with_conditions cs m) = duration_field m"
  "duration_field (set_recommendation r m) = duration_field m"
  "duration_field (set_check_runs rs m) = duration_field m"
  by (simp_all add: with_conditions_def set_recommendation_def set_check_runs_def)

record progress =
  pg_durations :: "string set"
  pg_started :: bool

definition progress_next :: "progress \<Rightarrow> call \<Rightarrow> resp \<Rightarrow> progress" where
  "progress_next s c r = \<lparr>
     pg_durations = (case (c, r) of (GetWhc n ns, RWhc x) \<Rightarrow> insert (duration_field x) (pg_durations s) | _ \<Rightarrow> pg_durations s),
     pg_started = (pg_started s \<or> start_of c \<noteq> [])\<rparr>"

definition progress_contract :: "(progress, call, resp) contract" where
  "progress_contract = \<lparr>rg_may = (\<lambda>_ _. True), rg_ans = (\<lambda>_ _ _. True), rg_next = progress_next, rg_crash = (\<lambda>_. True)\<rparr>"

lemma progress_simps [simp]:
  "rg_may progress_contract s c" "rg_ans progress_contract s c r" "rg_crash progress_contract e"
  "rg_next progress_contract = progress_next"
  "pg_durations (progress_next s (GetWhc n ns) (RWhc x)) = insert (duration_field x) (pg_durations s)"
  "pg_started (progress_next s c r) \<longleftrightarrow> pg_started s \<or> start_of c \<noteq> []"
  by (simp_all add: progress_contract_def progress_next_def)

text \<open>A copy of the check whose duration was read.\<close>

definition read_in :: "progress \<Rightarrow> Whc \<Rightarrow> bool" where
  "read_in s m \<longleftrightarrow> duration_field m \<in> pg_durations s"

lemma read_in_kept [simp]:
  "read_in s (with_conditions cs m) = read_in s m" "read_in s (set_recommendation r m) = read_in s m"
  "read_in s (set_check_runs rs m) = read_in s m"
  by (simp_all add: read_in_def)

lemma read_in_get [simp]: "read_in (progress_next s (GetWhc n ns) (RWhc x)) x"
  by (simp add: read_in_def)

lemma read_in_grows [intro]: "read_in s m \<Longrightarrow> read_in (progress_next s c r) m"
  by (auto simp: read_in_def progress_next_def split: call.splits resp.splits)

text \<open>A program that, run on such a copy, returns one.\<close>

definition tracks :: "(Whc \<Rightarrow> ('a \<times> Whc) io) \<Rightarrow> bool" where
  "tracks p \<longleftrightarrow> (\<forall>m s. read_in s m \<longrightarrow> meets progress_contract (p m) (\<lambda>s' r. read_in s' (snd r)) s)"

lemma tracksI:
  "(\<And>m s. read_in s m \<Longrightarrow> meets progress_contract (p m) (\<lambda>s' r. read_in s' (snd r)) s) \<Longrightarrow> tracks p"
  by (simp add: tracks_def)

lemma tracksD: "tracks p \<Longrightarrow> read_in s m \<Longrightarrow> meets progress_contract (p m) (\<lambda>s' r. read_in s' (snd r)) s"
  by (simp add: tracks_def)

lemma tracks_then:
  assumes "tracks p" and "read_in s m" and "\<And>a m' s. read_in s m' \<Longrightarrow> meets progress_contract (f (a, m')) Q s"
  shows "meets progress_contract (pbind (p m) f) Q s"
  unfolding meets_pbind by (rule meets_mono [OF tracksD [OF assms(1,2)]]) (use assms(3) in auto)

text \<open>A step whose result does not matter, while what was read stays read.\<close>

lemma progress_step:
  assumes "read_in s m" and "\<And>a s. read_in s m \<Longrightarrow> meets progress_contract (f a) Q s"
  shows "meets progress_contract (pbind p f) Q s"
proof -
  have "meets progress_contract p (\<lambda>_ _. True) s" by (induction p arbitrary: s) auto
  then have "meets progress_contract p (\<lambda>s a. True \<and> read_in s m) s"
    by (rule meets_stable) (simp_all add: assms(1) read_in_grows)
  then show ?thesis unfolding meets_pbind by (rule meets_mono) (use assms(2) in auto)
qed

lemma progress_get:
  assumes "read_in s m" and "\<And>e s. read_in s m \<Longrightarrow> meets progress_contract (f e) Q s"
    and "\<And>x s. read_in s m \<Longrightarrow> read_in s x \<Longrightarrow> meets progress_contract (g x) Q s"
  shows "meets progress_contract (pbind (get_whc n ns) (case_sum f g)) Q s"
  using assms(1) by (auto simp: meets_ask or_err_def as_whc_def split: option.splits resp.splits intro!: assms)

lemma tracks_retry:
  assumes "tracks p"
  shows "tracks (RetryOnConflict retry_again n p)"
proof (induction n)
  case (Suc n)
  show ?case
    by (rule tracksI, unfold RetryOnConflict.simps, rule tracks_then [OF assms], assumption)
      (use tracksD [OF Suc] in \<open>auto simp del: meets_pbind intro!: progress_step\<close>)
qed (use assms in \<open>simp add: tracks_def\<close>)

lemma tracks_SetCondition: "tracks (SetCondition L c)"
proof -
  have "tracks (SetCondition_attempt L c)"
    by (rule tracksI, unfold SetCondition_attempt_def Let_def)
      (rule progress_get, assumption, simp, rule progress_step, assumption, rule progress_step, assumption, simp)
  then show ?thesis unfolding SetCondition_def by (rule tracks_retry)
qed

lemma set_cond_then:
  assumes "read_in s m" and "\<And>m' s. read_in s m' \<Longrightarrow> meets progress_contract (f m') Q s"
  shows "meets progress_contract (pbind (set_cond L ty st re me m) f) Q s"
  unfolding set_cond_def pbind_assoc
  by (rule tracks_then [OF tracks_SetCondition assms(1)]) (simp add: assms(2))

lemma tracks_refresh_then:
  assumes "read_in s m" and "\<And>m' s. read_in s m' \<Longrightarrow> meets progress_contract (f m') Q s"
  shows "meets progress_contract (pbind (refreshWorkloadHardeningCheck m) f) Q s"
proof -
  have "pbind (refreshWorkloadHardeningCheck m) f = pbind (get_whc (whc_Name m) (whc_Namespace m)) (case_sum (\<lambda>_. f m) f)"
    unfolding refreshWorkloadHardeningCheck_def pbind_assoc by (rule arg_cong [where f = "pbind _"]) (auto split: sum.splits)
  then show ?thesis using assms by (auto simp del: meets_pbind intro!: progress_get)
qed

lemma tracks_ask_reason: "tracks (ask_reason L ty st rs)"
  by (rule tracksI, unfold ask_reason_def, rule tracks_refresh_then, assumption, rule progress_step, assumption) simp

lemma tracks_questions:
  "tracks (BaselineRecorded L)" "tracks (BaselineInProgress L)" "tracks (FinalCheckRecorded L)" "tracks (FinalCheckInProgress L)"
  "tracks (CheckRecorded L t)" "tracks (CheckInProgress L t)"
  by (simp_all add: recorded_defs tracks_ask_reason)

lemma tracks_overdue: "tracks p \<Longrightarrow> tracks (ask_overdue L ty p)"
  by (rule tracksI, unfold ask_overdue_def, rule tracks_then, assumption, assumption)
    (auto simp del: meets_pbind intro!: progress_step split: option.splits)

lemma tracks_overdues: "tracks (BaselineOverdue L)" "tracks (FinalCheckOverdue L)" "tracks (CheckOverdue L t)"
  by (simp_all add: BaselineOverdue_def FinalCheckOverdue_def CheckOverdue_def tracks_overdue tracks_questions)

lemma tracks_all_recorded: "tracks (all_recorded L ts)"
proof (induction ts)
  case (Cons t ts)
  show ?case
    by (rule tracksI, unfold all_recorded.simps, rule tracks_then [OF tracks_questions(5)], assumption)
      (use tracksD [OF Cons] in simp)
qed (simp add: tracks_def)

lemma tracks_required: "tracks (GetRequiredCheckRuns L)"
proof -
  have round: "tracks (\<lambda>m. require_check L w c (types, m))" for w c types
    by (rule tracksI, unfold require_check_def Let_def split_beta prod.sel, rule progress_step, assumption)
      (auto simp del: meets_pbind intro!: tracks_then [OF tracks_SetCondition] split: prod.splits)
  have loop: "tracks (\<lambda>m. pfold (require_check L w) cs (types, m))" for w cs types
  proof (induction cs arbitrary: types)
    case (Cons c cs)
    show ?case
      by (rule tracksI, unfold pfold.simps, rule tracks_then [OF round], assumption) (use tracksD [OF Cons] in simp)
  qed (simp add: tracks_def)
  show ?thesis
  proof (rule tracksI)
    fix m s
    assume "read_in s m"
    then show "meets progress_contract (GetRequiredCheckRuns L m) (\<lambda>s' r. read_in s' (snd r)) s"
      unfolding GetRequiredCheckRuns_def
    proof (rule progress_step, goal_cases)
      case (1 r s)
      show ?case
      proof (cases r)
        case (Inr w)
        show ?thesis
          unfolding Inr sum.case
          by (rule progress_step [OF 1], rule tracks_then [OF loop], assumption)
            (auto simp del: meets_pbind intro!: progress_step)
      qed (use 1 in simp)
    qed
  qed
qed

section \<open>What a pass asks for\<close>

text \<open>The result of a pass that started a run: no error, and the next call ten seconds after a duration it read.\<close>

definition followed :: "progress \<Rightarrow> reconcile_result \<Rightarrow> bool" where
  "followed s r \<longleftrightarrow> (pg_started s \<longrightarrow> snd r = None \<and> (\<exists>d \<in> pg_durations s. fst r = duration_add (spec_duration d) (10 * second)))"

abbreviation follows :: "reconcile_result io \<Rightarrow> progress \<Rightarrow> bool" where
  "follows p s \<equiv> meets progress_contract p followed s"

lemma followed_requeue [simp]: "read_in s m \<Longrightarrow> followed s (duration_add (GetCheckDuration m) 10000000000, None)"
  by (auto simp: followed_def read_in_def GetCheckDuration_field)

lemma followed_fresh [simp]: "\<not> pg_started s \<Longrightarrow> followed s r"
  by (simp add: followed_def)

text \<open>Before the first start.\<close>

lemma plain_fresh: "plain p \<Longrightarrow> meets progress_contract p Q s \<Longrightarrow> \<not> pg_started s \<Longrightarrow> meets progress_contract p (\<lambda>s a. Q s a \<and> \<not> pg_started s) s"
  unfolding calls_only_def by (induction p arbitrary: s) (auto simp: plain_start)

lemma fresh_then:
  assumes "tracks p" and "plain (p m)" and "read_in s m" and "\<not> pg_started s"
    and "\<And>a m' s. read_in s m' \<Longrightarrow> \<not> pg_started s \<Longrightarrow> follows (f (a, m')) s"
  shows "follows (pbind (p m) f) s"
  unfolding meets_pbind by (rule meets_mono [OF plain_fresh [OF assms(2) tracksD [OF assms(1,3)] assms(4)]]) (use assms(5) in auto)

lemma fresh_set_cond:
  assumes "read_in s m" and "\<not> pg_started s" and "\<And>m' s. read_in s m' \<Longrightarrow> \<not> pg_started s \<Longrightarrow> follows (f m') s"
  shows "follows (pbind (set_cond L ty st re me m) f) s"
  unfolding set_cond_def pbind_assoc
  by (rule fresh_then [OF tracks_SetCondition _ assms(1,2)]) (simp_all add: assms(3))

lemma plain_end_fresh: "plain p \<Longrightarrow> \<not> pg_started s \<Longrightarrow> follows p s"
proof -
  assume p: "plain p" and s: "\<not> pg_started s"
  have "meets progress_contract p (\<lambda>_ _. True) s" by (induction p arbitrary: s) auto
  then show ?thesis by (rule meets_mono [OF plain_fresh [OF p _ s]]) simp
qed

lemma baseline_follows: "read_in s m \<Longrightarrow> follows (recordBaseline L whc m) s"
  unfolding recordBaseline_def
  by (rule progress_step, assumption, rule set_cond_then, assumption, rule progress_step, assumption, rule progress_step, assumption,
      rule progress_step, assumption) simp

lemma start_check_then:
  assumes "read_in s m" and "\<And>m' s. read_in s m' \<Longrightarrow> meets progress_contract (f m') Q s"
  shows "meets progress_contract (pbind (start_check whc t m) f) Q s"
proof (cases "GetSecurityContextForCheckType t m")
  case (Inr r)
  obtain sc m' where r: "r = (sc, m')" by (cases r)
  with Inr assms(1) have "read_in s m'"
    by (auto simp: GetSecurityContextForCheckType_def read_in_def split: option.splits sum.splits)
  with Inr r assms(2) show ?thesis
    by (auto simp: start_check_def pbind_assoc simp del: meets_pbind intro!: progress_step)
qed (simp add: start_check_def)

lemma tracks_may_start: "tracks (may_start L msg t)"
  by (rule tracksI, unfold may_start_def, rule tracks_then [OF tracks_questions(5)], assumption)
    (auto simp del: meets_pbind intro!: tracks_then [OF tracks_questions(6)] tracks_then [OF tracks_overdues(3)] set_cond_then)

lemma parallel_round_then:
  assumes "read_in s m" and "\<And>m' s. read_in s m' \<Longrightarrow> meets progress_contract (f m') Q s"
  shows "meets progress_contract (pbind (parallel_round L whc t m) f) Q s"
  unfolding parallel_round_def pbind_assoc
  by (rule tracks_then [OF tracks_may_start assms(1)]) (auto simp: assms(2) simp del: meets_pbind intro!: start_check_then)

lemma parallel_then:
  assumes "read_in s m" and "\<And>m' s. read_in s m' \<Longrightarrow> meets progress_contract (f m') Q s"
  shows "meets progress_contract (pbind (pfold (parallel_round L whc) ts m) f) Q s"
  using assms(1)
proof (induction ts arbitrary: m s)
  case (Cons t ts)
  show ?case unfolding pfold.simps pbind_assoc by (rule parallel_round_then [OF Cons.prems]) (rule Cons.IH)
qed (simp add: assms(2))

lemma sequential_follows: "read_in s m \<Longrightarrow> \<not> pg_started s \<Longrightarrow> follows (sequential_loop L whc ts m) s"
proof (induction ts arbitrary: m s)
  case (Cons t ts)
  show ?case
    unfolding sequential_loop.simps
    by (rule fresh_then [OF tracks_may_start _ Cons.prems])
      (auto simp: Cons.IH simp del: meets_pbind intro!: start_check_then)
qed simp

lemma checks_follow: "read_in s m \<Longrightarrow> \<not> pg_started s \<Longrightarrow> follows (recordChecks L whc m) s"
  unfolding recordChecks_def
  by (rule fresh_then [OF tracks_required plain_GetRequiredCheckRuns], assumption, assumption)
    (auto simp del: meets_pbind intro!: fresh_set_cond parallel_then sequential_follows)

lemma tracks_finished: "tracks (AllChecksFinished L)"
  by (rule tracksI, unfold AllChecksFinished_def, rule tracks_refresh_then, assumption, rule tracks_then [OF tracks_questions(1)], assumption)
    (auto simp del: meets_pbind intro!: tracks_then [OF tracks_required] tracksD [OF tracks_all_recorded])

subsection \<open>The analysis\<close>

lemma tracks_SetRecommendation: "tracks (SetRecommendation L)"
proof -
  have attempt: "tracks (SetRecommendation_attempt r)" for r
    by (rule tracksI, unfold SetRecommendation_attempt_def Let_def) (rule progress_get, assumption, simp, rule progress_step, assumption, simp)
  show ?thesis
    by (rule tracksI, unfold SetRecommendation_def Let_def, rule progress_step, assumption, rule progress_step, assumption)
      (auto simp del: meets_pbind intro!: progress_step tracks_then [OF tracks_retry [OF attempt]] split: sum.splits prod.splits)
qed

lemma tracks_AnalyzeCheckRuns: "tracks (AnalyzeCheckRuns D F L)"
proof -
  have "tracks (UpdateCheckRuns_attempt updated)" for updated
    by (rule tracksI, unfold UpdateCheckRuns_attempt_def Let_def) (rule progress_get, assumption, simp, rule progress_step, assumption, simp)
  note update = tracksD [OF tracks_retry [OF this]]
  show ?thesis
    by (rule tracksI, unfold AnalyzeCheckRuns_def Let_def, rule progress_step, assumption)
      (auto simp del: meets_pbind intro!: progress_step update split: sum.splits option.splits prod.splits)
qed

lemma set_cond_tracks: "read_in s m \<Longrightarrow> meets progress_contract (pbind (set_cond L ty st re me m) (\<lambda>m. Ret (a, m))) (\<lambda>s' r. read_in s' (snd r)) s"
  by (rule set_cond_then, assumption) simp

lemma tracks_analyze: "tracks (analyze_results D F L)"
  by (rule tracksI, unfold analyze_results_def, rule set_cond_then, assumption, rule set_cond_then, assumption,
      rule tracks_then [OF tracks_AnalyzeCheckRuns], assumption)
    (auto simp del: meets_pbind intro!: set_cond_then tracks_then [OF tracks_SetRecommendation] split: option.splits)

subsection \<open>The pass\<close>

lemma recording_follows: "read_in s m \<Longrightarrow> \<not> pg_started s \<Longrightarrow> follows (reconcile_recording L whc m) s"
  unfolding reconcile_recording_def Let_def
  by (rule fresh_then [OF tracks_questions(2)])
    (auto simp del: meets_pbind intro!: fresh_then [OF tracks_overdues(1)] fresh_then [OF tracks_questions(1)] fresh_then [OF tracks_finished]
      fresh_set_cond baseline_follows checks_follow)

lemma final_follows: "read_in s m \<Longrightarrow> \<not> pg_started s \<Longrightarrow> follows (reconcile_final L whc m) s"
proof -
  assume m: "read_in s m" "\<not> pg_started s"
  have start: "follows (pbind (go_run_check whc ''Final'' sc) (\<lambda>_.
      pbind (set_cond L ConditionTypeFinished ConditionFalse (''Final'' @ ReasonCheckRecording)
        ''Final check run with recommended security context started'' m) (\<lambda>m. Ret (duration_add (GetCheckDuration m) (10 * second), None)))) s"
    if "read_in s m" for sc m s
    by (rule progress_step [OF that], rule set_cond_then, assumption) simp
  show ?thesis
    unfolding reconcile_final_def
    by (rule fresh_then [OF tracks_questions(4) _ m])
      (auto simp: pbind_assoc simp del: meets_pbind intro!: fresh_then [OF tracks_overdues(2)] fresh_then [OF tracks_questions(3)]
        fresh_set_cond start [simplified] recording_follows)
qed

lemma analysis_follows: "read_in s m \<Longrightarrow> \<not> pg_started s \<Longrightarrow> follows (reconcile_analysis D F L whc m) s"
  unfolding reconcile_analysis_def
  by (rule fresh_then [OF tracks_finished])
    (auto simp: pbind_assoc simp del: meets_pbind intro!: fresh_then [OF tracks_analyze] fresh_then [OF tracks_SetCondition] final_follows
      split: option.splits)

lemma quiet_follows: "quiet p \<Longrightarrow> \<not> pg_started s \<Longrightarrow> follows p s"
  unfolding calls_only_def by (induction p arbitrary: s) auto

lemma pass_follows:
  assumes "\<not> pg_started s"
  shows "follows (Reconcile D F L name namespace) s"
proof -
  have removed: "follows (pbind (RemoveCheckConditions L m) (\<lambda>(e, m). Ret (0, e))) s" if "\<not> pg_started s" for m s
    by (rule plain_end_fresh [OF _ that]) (auto intro!: calls_only_pbind)
  have found: "follows (if is_true L (conds whc) ConditionTypeFinished then Ret done_result
     else pbind (if RecommendationExists whc then FinalCheckRecorded L whc else Ret (False, whc)) (\<lambda>(recorded, m).
        if recorded
        then pbind (SetCondition L (mk_condition ConditionTypeFinished ConditionTrue ConditionTypeFinished
              ''Finished, recommendation ready'') m) (\<lambda>(e, m). case e of
            Some err \<Rightarrow> Ret (0, Some err)
          | None \<Rightarrow> pbind (RemoveCheckConditions L m) (\<lambda>(e, m). Ret (0, e)))
        else reconcile_analysis D F L whc m)) s" if "read_in s whc" "\<not> pg_started s" for whc s
    using that by (auto simp del: meets_pbind intro!: fresh_then [OF tracks_questions(3)] fresh_then [OF tracks_SetCondition]
        removed analysis_follows split: option.splits)
  show ?thesis
    unfolding Reconcile_def meets_pbind [where p = "get_whc name namespace"] meets_ask
  proof (intro conjI allI impI, simp, goal_cases)
    case (1 r)
    let ?s = "progress_next s (GetWhc name namespace) r"
    have fresh: "\<not> pg_started ?s" using assms by simp
    show ?case
    proof (cases r)
      case (RWhc x)
      then have "read_in ?s x" by simp
      from found [OF this fresh] show ?thesis unfolding RWhc by (simp only: answers option.case sum.case Let_def progress_simps)
    next
      case (RErr e)
      then show ?thesis using fresh quiet_follows [OF quiet_cleanup] by (simp del: meets_pbind)
    qed (simp_all add: or_err_def as_whc_def)
  qed
qed

text \<open>What an execution leaves in the ghost state.\<close>

lemma durations_next:
  "d \<in> pg_durations (progress_next s c r) \<Longrightarrow> d \<in> pg_durations s \<or> (\<exists>n ns x. (c, r) = (GetWhc n ns, RWhc x) \<and> d = duration_field x)"
  by (auto simp: progress_next_def split: call.splits resp.splits)

lemma durations_follow:
  "follow progress_contract s l = Some t \<Longrightarrow> d \<in> pg_durations t \<Longrightarrow>
     d \<in> pg_durations s \<or> (\<exists>n ns x. (GetWhc n ns, RWhc x) \<in> set l \<and> d = duration_field x)"
proof (induction l arbitrary: s)
  case (Cons p l)
  obtain c r where p: "p = (c, r)" by (cases p)
  with Cons.prems have "follow progress_contract (progress_next s c r) l = Some t" by simp
  from Cons.IH [OF this Cons.prems(2)] show ?case by (auto simp: p dest!: durations_next)
qed simp

lemma started_follow:
  "follow progress_contract s l = Some t \<Longrightarrow> pg_started s \<or> started (map fst l) \<noteq> [] \<Longrightarrow> pg_started t"
proof (induction l arbitrary: s)
  case (Cons p l)
  obtain c r where p: "p = (c, r)" by (cases p)
  with Cons.prems(1) have f: "follow progress_contract (progress_next s c r) l = Some t" by simp
  show ?case by (rule Cons.IH [OF f]) (use Cons.prems(2) in \<open>auto simp: p started_def\<close>)
qed (simp add: started_def)

lemma started_nonempty: "(GoRunCheck w t sc, a) \<in> set l \<Longrightarrow> started (map fst l) \<noteq> []"
  by (force simp: started_def)

section \<open>Properties\<close>

text \<open>C5: a run that was started is followed up. In every pass of the workload controller that returns after it started a run, whatever the
  answers, the result is no error and the request to be called again ten seconds after the recording duration of a check it read,
  added as Go adds 64-bit durations; with durations from zero to ten seconds below the maximum this is a positive delay.\<close>

theorem started_run_is_followed_up:
  assumes "drive (Reconcile D F L name namespace) rs = (l, Returned (delay, err))" and "(GoRunCheck whc ty sc, a) \<in> set l"
  shows "err = None \<and> (\<exists>n ns x. (GetWhc n ns, RWhc x) \<in> set l \<and> delay = duration_add (GetCheckDuration x) (10 * second) \<and>
    (0 \<le> GetCheckDuration x \<and> GetCheckDuration x < 2 ^ 63 - 10 * second \<longrightarrow> 10 * second \<le> delay))"
proof -
  let ?s = "\<lparr>pg_durations = {}, pg_started = False\<rparr>"
  obtain t where t: "follow progress_contract ?s l = Some t" using follow_total [of progress_contract ?s l] by auto
  have "meets progress_contract (Reconcile D F L name namespace) followed ?s" by (rule pass_follows) simp
  from meets_drive [OF this assms(1) t] have "followed t (delay, err)" by simp
  moreover have "pg_started t" using started_follow [OF t] started_nonempty [OF assms(2)] by simp
  ultimately obtain n ns x where
    x: "err = None" "(GetWhc n ns, RWhc x) \<in> set l" "delay = duration_add (GetCheckDuration x) (10 * second)"
    using durations_follow [OF t] by (fastforce simp: followed_def GetCheckDuration_field)
  have "10 * second \<le> delay" if "0 \<le> GetCheckDuration x" "GetCheckDuration x < 2 ^ 63 - 10 * second"
    using that duration_add_eq [of "GetCheckDuration x" "10 * second"] by (simp add: x(3))
  with x show ?thesis by blast
qed

subsection \<open>Concrete passes\<close>

lemma first_pass:
  "drive (Reconcile D F list_lib ''web-check'' ''shop'')
      (replicate 6 (RWhc sample_check) @ [ROk, RWhc sample_check, RInt 0, ROk, RBool False, RInt 3, ROk, ROk]) =
     (replicate 6 (GetWhc ''web-check'' ''shop'', RWhc sample_check) @
      [(GoRunCheck sample_check ''baseline'' None, ROk), (GetWhc ''web-check'' ''shop'', RWhc sample_check), (Now, RInt 0),
       (UpdateWhcStatus (with_conditions (set_condition_list [] (mk_condition ConditionTypeFinished ConditionFalse ReasonBaselineRecording
          ''Baseline recording started'') 0) sample_check), ROk), (RetryAgain None, RBool False), (RandIntn 9, RInt 3), (Sleep (13 * second), ROk),
       (GoRunCheck sample_check ''baseline-2'' None, ROk)], Returned (duration_add (GetCheckDuration sample_check) (10 * second), None))"
proof -
  have c: "conds sample_check = []" "whc_Name sample_check = ''web-check''" "whc_Namespace sample_check = ''shop''"
    "ws_SecurityContext (whc_Spec sample_check) = None" "\<not> RecommendationExists sample_check"
    by (simp_all add: sample_check_def RecommendationExists_def)
  have L: "\<not> is_true list_lib [] ty" "\<not> lib_IsStatusConditionPresentAndEqual list_lib [] ty st" "reason_in list_lib ty st rs [] = Inr False"
    "lib_SetStatusCondition list_lib = set_condition_list" "lib_retries list_lib = 4" for ty st rs
    by (simp_all add: is_true_def list_lib_def reason_in_def)
  have d: "GetCheckDuration (with_conditions cs sample_check) = GetCheckDuration sample_check" for cs
    by (simp add: GetCheckDuration_field)
  show ?thesis
    by (simp add: Reconcile_def reconcile_analysis_def reconcile_final_def reconcile_recording_def recordBaseline_def AllChecksFinished_def
        refreshWorkloadHardeningCheck_def recorded_defs ask_reason_def set_cond_def SetCondition_def SetCondition_attempt_def
        drive_ask pbind_assoc numeral_eq_Suc c L Let_def d)
qed

lemma sample_duration: "GetCheckDuration sample_check = 600000000000"
  using ParseDuration_crd [of "''10''" "CHR ''m''" 60000000000]
  by (simp add: GetCheckDuration_def sample_check_def is_digit_def digit_val_def digits_val_def unitMap_def unit_char_def)

definition recorded_check :: Whc where
  "recorded_check = with_conditions [mk_condition ConditionTypeBaseline ConditionTrue ReasonBaselineRecordingFinished ''''] sample_check"

text \<open>In sequential mode a pass that starts no check is not called again. If every required check is found recorded or still
  running, or the workload could not be read, \<open>recordChecks\<close> returns no error and no delay, although the check is not finished.\<close>

theorem sequential_pass_stalls:
  assumes "ws_RunMode (whc_Spec whc) \<noteq> RunModeParallel"
    and "drive (recordChecks L whc m) rs = (l, Returned res)" and "\<forall>(c, a) \<in> set l. start_of c = []"
  shows "res = done_result"
proof -
  let ?s = "\<lparr>pg_durations = {}, pg_started = False\<rparr>"
  obtain t where t: "follow progress_contract ?s l = Some t" using follow_total [of progress_contract ?s l] by auto
  have any: "meets progress_contract p (\<lambda>_ _. True) s" for p :: "'z io" and s
    by (induction p arbitrary: s) auto
  have started: "meets progress_contract (pbind (start_check whc ty m) f) (\<lambda>s r. pg_started s \<or> Q r) s" for ty m s Q and f :: "Whc \<Rightarrow> reconcile_result io"
  proof -
    have "meets progress_contract (f m) (\<lambda>s r. True \<and> pg_started s) s" if "pg_started s" for m s
      by (rule meets_stable [where I = pg_started and G = progress_contract, OF any]) (use that in simp_all)
    then have "meets progress_contract (f m) (\<lambda>s r. pg_started s \<or> Q r) s" if "pg_started s" for m s
      by (rule meets_mono) (use that in auto)
    then show ?thesis
      by (cases "GetSecurityContextForCheckType ty m") (auto simp: start_check_def meets_ask as_done_def split: option.splits resp.splits)
  qed
  have loop: "meets progress_contract (sequential_loop L whc ts m) (\<lambda>s r. pg_started s \<or> r = done_result) s" for ts m s
  proof (induction ts arbitrary: m s)
    case (Cons ty ts)
    show ?case
      unfolding sequential_loop.simps meets_pbind [where p = "may_start _ _ _ _"]
      by (rule meets_mono [OF any]) (use Cons started in \<open>auto simp del: meets_pbind\<close>)
  qed simp
  have "meets progress_contract (recordChecks L whc m) (\<lambda>s r. pg_started s \<or> r = done_result) ?s"
    unfolding recordChecks_def meets_pbind [where p = "GetRequiredCheckRuns _ _"]
    by (rule meets_mono [OF any]) (use assms(1) loop in \<open>auto simp: meets_pbind [where p = "set_cond _ _ _ _ _ _"] simp del: meets_pbind intro: meets_mono [OF any]\<close>)
  from meets_drive [OF this assms(2) t] have "pg_started t \<or> res = done_result" by simp
  moreover have "\<not> pg_started t" if "follow progress_contract s l = Some t" "\<not> pg_started s" for s
    using assms(3) that
  proof (induction l arbitrary: s)
    case (Cons p l)
    obtain c r where "p = (c, r)" by (cases p)
    with Cons.prems show ?case by (intro Cons.IH [of "progress_next s c r"]) auto
  qed simp
  from this [OF t] have "\<not> pg_started t" by simp
  ultimately show ?thesis by blast
qed

text \<open>A workload that cannot be read makes all checks count as finished. If the baseline is recorded in the check that was read and the read of
  the workload fails with any error, \<open>AllChecksFinished\<close> says yes, so that the pass goes on to the analysis.\<close>

theorem AllChecksFinished_unreadable:
  assumes "reason_in L ConditionTypeBaseline ConditionTrue [ReasonBaselineRecordingFinished, ReasonBaselineRecordingFailed] (conds x) = Inr True"
  shows "drive (AllChecksFinished L m) [RWhc y, RWhc x, RErr e] =
     ([(GetWhc (whc_Name m) (whc_Namespace m), RWhc y), (GetWhc (whc_Name y) (whc_Namespace y), RWhc x),
       (GetWorkload (kind_of (tr_Kind (ws_TargetRef (whc_Spec x)))) (whc_Namespace x) (tr_Name (ws_TargetRef (whc_Spec x))), RErr e)],
      Returned (True, x))"
  using assms
  by (simp add: AllChecksFinished_def refreshWorkloadHardeningCheck_def BaselineRecorded_def ask_reason_def GetRequiredCheckRuns_def
      GetWorkloadUnderTest_def drive_ask pbind_assoc Let_def)

lemma started_run_is_followed_up_witness:
  "10 * second \<le> duration_add (GetCheckDuration sample_check) (10 * second)"
proof -
  from started_run_is_followed_up [OF first_pass [of seen_lines int_floats], of sample_check "''baseline''" None ROk]
  have "\<exists>n ns x. (GetWhc n ns, RWhc x) = (GetWhc ''web-check'' ''shop'', RWhc sample_check) \<and>
    (0 \<le> GetCheckDuration x \<and> GetCheckDuration x < 2 ^ 63 - 10 * second \<longrightarrow>
      10 * second \<le> duration_add (GetCheckDuration sample_check) (10 * second))"
    by (simp add: numeral_eq_Suc)
  then show ?thesis by (simp add: sample_duration)
qed

text \<open>A sequential pass whose workload cannot be read.\<close>

definition sequential_check :: Whc where
  "sequential_check = recorded_check\<lparr>whc_Spec := (whc_Spec recorded_check)\<lparr>ws_RunMode := RunModeSequential\<rparr>\<rparr>"

lemma unread_pass:
  "\<exists>l. drive (recordChecks list_lib sequential_check sequential_check)
       [RErr (Errorf ''timeout'' None), RErr (ApiError NotFound), RBool False] = (l, Returned done_result) \<and> (\<forall>(c, a) \<in> set l. start_of c = [])"
proof -
  have "lib_retries list_lib = 4" by (simp add: list_lib_def)
  then show ?thesis
    by (simp add: recordChecks_def GetRequiredCheckRuns_def GetWorkloadUnderTest_def set_cond_def SetCondition_def SetCondition_attempt_def
        drive_ask pbind_assoc numeral_eq_Suc Let_def sequential_check_def)
qed

lemma sequential_pass_stalls_witness:
  "\<exists>l res. drive (recordChecks list_lib sequential_check sequential_check)
       [RErr (Errorf ''timeout'' None), RErr (ApiError NotFound), RBool False] = (l, Returned res) \<and> res = done_result"
proof -
  from unread_pass obtain l where l: "drive (recordChecks list_lib sequential_check sequential_check)
       [RErr (Errorf ''timeout'' None), RErr (ApiError NotFound), RBool False] = (l, Returned done_result)"
    and none: "\<forall>(c, a) \<in> set l. start_of c = []" by blast
  have "ws_RunMode (whc_Spec sequential_check) \<noteq> RunModeParallel" by (simp add: sequential_check_def)
  from sequential_pass_stalls [OF this l none] l show ?thesis by blast
qed

lemma AllChecksFinished_unreadable_witness:
  "\<exists>l. drive (AllChecksFinished list_lib recorded_check) [RWhc recorded_check, RWhc recorded_check, RErr (Errorf ''timeout'' None)] =
     (l, Returned (True, recorded_check))"
  using AllChecksFinished_unreadable [of list_lib recorded_check recorded_check recorded_check "Errorf ''timeout'' None"]
  by (simp add: recorded_check_def list_lib_def reason_in_def)

end
