(* ===== verification/Lifecycle.thy ===== *)
theory Lifecycle
  imports Operator
begin

text \<open>
  What the life of a run is, without its details: the clone is built, the workload in it hardened, measured, its recording
  stored and the clone removed, in this order; or the run gives up on the rollout, stores what logs there are and removes the clone, after
  which it still measures. The detailed run refines this.
\<close>

section \<open>The abstract run\<close>

datatype act = Build | Harden | Measure | ReadLogs | Store | Remove

datatype phase = Cloning | Hardening | GivingUp | GivenUp | Measuring | Kept

inductive life_step :: "phase \<Rightarrow> act \<Rightarrow> phase \<Rightarrow> bool" where
  build: "life_step Cloning Build Cloning"
| clear: "life_step Cloning Remove Cloning"
| harden: "s \<in> {Cloning, Hardening} \<Longrightarrow> life_step s Harden Hardening"
| last_logs: "s \<in> {Cloning, Hardening, GivingUp} \<Longrightarrow> life_step s ReadLogs GivingUp"
| last_store: "s \<in> {Cloning, Hardening, GivingUp} \<Longrightarrow> life_step s Store GivenUp"
| last_remove: "s \<in> {Hardening, GivingUp, GivenUp} \<Longrightarrow> life_step s Remove GivenUp"
| measure: "s \<in> {Cloning, Hardening, GivingUp, GivenUp} \<Longrightarrow> life_step s Measure Measuring"
| logs: "life_step Measuring ReadLogs Measuring"
| store: "life_step Measuring Store Kept"
| remove: "life_step Kept Remove Kept"

inductive life :: "phase \<Rightarrow> act list \<Rightarrow> phase \<Rightarrow> bool" where
  none: "life s [] s"
| more: "life_step s a t \<Longrightarrow> life t as u \<Longrightarrow> life s (a # as) u"

inductive_simps life_simps [simp]: "life s [] t" "life s (a # as) t"

inductive_simps life_step_simps:
  "life_step s Build t" "life_step s Harden t" "life_step s Measure t" "life_step s ReadLogs t" "life_step s Store t" "life_step s Remove t"

lemma life_append: "life s (as @ bs) u \<longleftrightarrow> (\<exists>t. life s as t \<and> life t bs u)"
  by (induction as arbitrary: s) auto

text \<open>The machine is deterministic; its next phase as a function.\<close>

fun life_next :: "phase \<Rightarrow> act \<Rightarrow> phase option" where
  "life_next s Build = (if s = Cloning then Some Cloning else None)"
| "life_next s Harden = (if s \<in> {Cloning, Hardening} then Some Hardening else None)"
| "life_next s Measure = (if s \<in> {Measuring, Kept} then None else Some Measuring)"
| "life_next s ReadLogs = (if s = Measuring then Some Measuring else if s \<in> {GivenUp, Kept} then None else Some GivingUp)"
| "life_next s Store = (if s = Measuring then Some Kept else if s \<in> {GivenUp, Kept} then None else Some GivenUp)"
| "life_next s Remove = (if s \<in> {Cloning, Kept} then Some s else if s = Measuring then None else Some GivenUp)"

lemma life_step_next: "life_step s a t \<longleftrightarrow> life_next s a = Some t"
  by (cases s; cases a) (auto simp: life_step_simps)

text \<open>What the machine promises.\<close>

lemma measuring_steps: "life_step s a t \<Longrightarrow> s \<in> {Measuring, Kept} \<Longrightarrow> t \<in> {Measuring, Kept} \<and> a \<in> {ReadLogs, Store, Remove}"
  by (cases a) (auto simp: life_step_simps)

lemma after_measuring: "life s as t \<Longrightarrow> s \<in> {Measuring, Kept} \<Longrightarrow> set as \<subseteq> {ReadLogs, Store, Remove}"
  by (induction rule: life.induct) (use measuring_steps in auto)

lemma stored_before_removed: "life s as t \<Longrightarrow> s = Measuring \<Longrightarrow> Remove \<in> set as \<Longrightarrow>
    \<exists>pre post. as = pre @ Store # post \<and> set pre \<subseteq> {ReadLogs} \<and> set post \<subseteq> {Remove}"
proof (induction rule: life.induct)
  case (more s a t as u)
  have kept: "life x bs y \<Longrightarrow> x = Kept \<Longrightarrow> set bs \<subseteq> {Remove}" for x bs y
  proof (induction rule: life.induct)
    case (more s a t as u)
    then show ?case by (cases a) (auto simp: life_step_simps)
  qed simp
  from more show ?case
  proof (cases a)
    case ReadLogs
    with more obtain pre post where "as = pre @ Store # post" "set pre \<subseteq> {ReadLogs}" "set post \<subseteq> {Remove}"
      by (auto simp: life_step_simps)
    with ReadLogs show ?thesis by (intro exI [of _ "ReadLogs # pre"] exI [of _ post]) auto
  next
    case Store
    with more.hyps more.prems have "life Kept as u" by (auto simp: life_step_simps)
    with kept Store show ?thesis by (intro exI [of _ "[]"] exI [of _ as]) auto
  qed (auto simp: life_step_simps)
qed simp

lemma life_promise:
  assumes "life s (pre @ Measure # post) t"
  shows "set post \<subseteq> {ReadLogs, Store, Remove}"
    and "Remove \<in> set post \<Longrightarrow> \<exists>as bs. post = as @ Store # bs \<and> set as \<subseteq> {ReadLogs} \<and> set bs \<subseteq> {Remove}"
proof -
  from assms obtain u where "life u (Measure # post) t" by (auto simp: life_append)
  then have post: "life Measuring post t" by (auto simp: life_step_simps)
  from after_measuring [OF post] show "set post \<subseteq> {ReadLogs, Store, Remove}" by simp
  show "\<exists>as bs. post = as @ Store # bs \<and> set as \<subseteq> {ReadLogs} \<and> set bs \<subseteq> {Remove}" if "Remove \<in> set post"
    using stored_before_removed [OF post] that by simp
qed

section \<open>The acts of a run\<close>

fun act_of :: "call \<Rightarrow> act option" where
  "act_of (CreateNamespace n) = Some Build"
| "act_of (CreateResource u) = Some Build"
| "act_of (CreateClusterRoleBinding b) = Some Build"
| "act_of (UpdateWorkload w) = Some Harden"
| "act_of (RecordMetrics ns sel d) = Some Measure"
| "act_of (PodLogs ns n c p) = Some ReadLogs"
| "act_of (KvSet k v d) = Some Store"
| "act_of (DeleteNamespace n) = Some Remove"
| "act_of (DeleteClusterRoleBinding n) = Some Remove"
| "act_of c = None"

definition acts :: "call list \<Rightarrow> act list" where
  "acts cs = List.map_filter act_of cs"

lemma acts_simps [simp]: "acts [] = []" "acts (c # cs) = (case act_of c of None \<Rightarrow> acts cs | Some a \<Rightarrow> a # acts cs)"
  by (auto simp: acts_def map_filter_simps split: option.splits)

definition phase_after :: "phase \<Rightarrow> call \<Rightarrow> phase" where
  "phase_after s c = (case act_of c of None \<Rightarrow> s | Some a \<Rightarrow> the (life_next s a))"

definition life_contract :: "(phase, call, resp) contract" where
  "life_contract = \<lparr>rg_may = (\<lambda>s c. \<forall>a. act_of c = Some a \<longrightarrow> life_next s a \<noteq> None), rg_ans = (\<lambda>_ _ _. True),
     rg_next = (\<lambda>s c _. phase_after s c), rg_crash = (\<lambda>_. True)\<rparr>"

lemma life_contract_simps [simp]:
  "rg_may life_contract s c \<longleftrightarrow> (\<forall>a. act_of c = Some a \<longrightarrow> life_next s a \<noteq> None)" "rg_ans life_contract s c r"
  "rg_next life_contract s c r = phase_after s c" "rg_crash life_contract e"
  by (simp_all add: life_contract_def)

lemma life_drive: "meets life_contract p Q s \<Longrightarrow> drive p rs = (l, out) \<Longrightarrow> \<exists>t. life s (acts (map fst l)) t"
proof (induction p arbitrary: s rs l)
  case (Call c k)
  show ?case
  proof (cases rs)
    case Nil
    with Call.prems show ?thesis by auto
  next
    case (Cons r rs')
    with Call.prems(2) obtain l' where l': "drive (k r) rs' = (l', out)" "l = (c, r) # l'" by (auto split: prod.splits)
    from Call.prems(1) have "meets life_contract (k r) Q (phase_after s c)" by simp
    from Call.IH [OF _ this l'(1)] obtain t where "life (phase_after s c) (acts (map fst l')) t" by auto
    with Call.prems(1) l'(2) show ?thesis by (auto simp: phase_after_def life_step_next split: option.splits)
  qed
qed auto

text \<open>A part whose acts are among \<open>A\<close>, under which the phases \<open>P\<close> are closed.\<close>

definition does :: "act set \<Rightarrow> call \<Rightarrow> bool" where
  "does A c \<longleftrightarrow> (\<forall>a. act_of c = Some a \<longrightarrow> a \<in> A)"

lemma does_simps [simp]:
  "does A (GetWhc a b)" "does A (UpdateWhcStatus x)" "does A (GetWorkload kd a b)" "does A (AsSelector sel)" "does A (ListPods a sel')"
  "does A (GetNamespace a)" "does A ListClusterRoleBindings" "does A Now" "does A (Sleep d)" "does A MapOrder" "does A (RetryAgain e)"
  "does A (Event a b a')" "does A (KvSet k v d') \<longleftrightarrow> Store \<in> A" "does A (PodLogs a b a' pv) \<longleftrightarrow> ReadLogs \<in> A"
  "does A (UpdateWorkload w) \<longleftrightarrow> Harden \<in> A" "does A (DeleteNamespace a) \<longleftrightarrow> Remove \<in> A"
  "does A (DeleteClusterRoleBinding a) \<longleftrightarrow> Remove \<in> A"
  by (simp_all add: does_def)

lemma does_meets:
  assumes "calls_only (does A) p" and "s \<in> P" and closed: "\<And>s a. s \<in> P \<Longrightarrow> a \<in> A \<Longrightarrow> \<exists>t \<in> P. life_next s a = Some t"
  shows "meets life_contract p (\<lambda>t _. t \<in> P) s"
  using assms(1,2) unfolding calls_only_def
proof (induction p arbitrary: s)
  case (Call c k)
  have "\<exists>t \<in> P. life_next s a = Some t" if "act_of c = Some a" for a
    using closed [OF Call.prems(2), of a] Call.prems(1) that by (simp add: does_def)
  moreover from this have "phase_after s c \<in> P"
    using Call.prems(2) by (auto simp: phase_after_def split: option.splits)
  ultimately show ?case using Call by auto
qed auto

lemma does_mono: "calls_only (does A) p \<Longrightarrow> A \<subseteq> B \<Longrightarrow> calls_only (does B) p"
  by (erule calls_only_mono) (auto simp: does_def)

section \<open>The parts of a run\<close>

lemma does_SetCondition [simp]: "calls_only (does A) (SetCondition L c m)"
  unfolding SetCondition_def SetCondition_attempt_def Let_def by (auto intro!: calls_intros)

lemma does_set_condition [simp]: "calls_only (does A) (set_condition L c r)"
  unfolding set_condition_def by (auto intro!: calls_intros)

lemma does_mine [simp]: "calls_only (does A) (mine_container D c a)"
  unfolding mine_container_def by (auto intro!: calls_intros split: prod.splits)

lemma does_file [simp]:
  "calls_only (does A) (FileSuccess_attempt ct c x)" "calls_only (does A) (FileFailure_attempt ct c x)"
  unfolding FileSuccess_attempt_def FileFailure_attempt_def Let_def by (auto intro!: calls_intros)

lemma does_running [simp]:
  "calls_only (does A) (setStatusFailed L msg r)" "calls_only (does A) (setStatusRunning L msg r)"
  unfolding setStatusFailed_def setStatusRunning_def Let_def by simp_all

lemma does_finished [simp]:
  "calls_only (does A) (setStatusFinishedSuccessfully L msg sc r)"
  "calls_only (does A) (setStatusFinishedFailure D L msg why rec r)"
  unfolding setStatusFinishedSuccessfully_def setStatusFinishedFailure_def Let_def
  by (auto intro!: calls_intros)

lemma does_readings [simp]:
  "calls_only (does A) (GetWorkloadUnderTest m ns)" "calls_only (does A) (GetLabelSelector m)" "calls_only (does A) (VerifyReadiness w)"
  "calls_only (does A) (GetReplicaCount m ns)" "calls_only (does A) (namespaceExists n)" "calls_only (does A) (map_orders k)"
  "calls_only (does A) (refresh_workload ns w)"
proof -
  show w: "calls_only (does A) (GetWorkloadUnderTest m ns)" for m ns
    unfolding GetWorkloadUnderTest_def Let_def by (auto intro!: calls_intros)
  then show "calls_only (does A) (GetLabelSelector m)" "calls_only (does A) (GetReplicaCount m ns)"
    unfolding GetLabelSelector_def GetReplicaCount_def by (auto intro!: calls_intros split: sum.splits workload.splits)
  show "calls_only (does A) (VerifyReadiness w)" by (rule calls_only_mono [OF VerifyReadiness_calls]) auto
  show "calls_only (does A) (namespaceExists n)" unfolding namespaceExists_def by (auto intro!: calls_intros)
  show "calls_only (does A) (map_orders k)" by (induction k) (auto intro!: calls_intros)
  show "calls_only (does A) (refresh_workload ns w)" unfolding refresh_workload_def by (auto intro!: calls_intros)
qed

lemma does_recordLogs: "ReadLogs \<in> A \<Longrightarrow> calls_only (does A) (recordLogs fuel ns prev sel)"
proof -
  assume A: "ReadLogs \<in> A"
  have "calls_only (does A) (await_pods fuel ns sel)" by (induction fuel) (auto intro!: calls_intros)
  with A show ?thesis
    unfolding recordLogs_def RecordLogs_def log_step_def GetLogs_def by (auto intro!: calls_intros split: prod.splits)
qed

lemma does_Delete: "Remove \<in> A \<Longrightarrow> calls_only (does A) (Delete t)"
  unfolding Delete_def delete_bindings_def by (auto intro!: calls_intros)

lemma does_StoreRecording: "Store \<in> A \<Longrightarrow> calls_only (does A) (StoreRecording L suffix rec)"
  unfolding StoreRecording_def storeEntry_def Let_def by (auto intro!: calls_intros split: sum.splits)

lemma does_prepare:
  assumes "service_conversion L"
  shows "calls_only (does {Build, Remove}) (prepare_namespace L r)"
proof -
  have "calls_only (does {Build, Remove}) (Clone L source t suffix)" for source t suffix
    by (rule calls_only_mono [OF Clone_calls [OF assms]]) (auto simp: clone_call_def does_def split: call.splits)
  then show ?thesis
    unfolding prepare_namespace_def createCheckNamespace_def Let_def
    by (auto intro!: calls_intros does_Delete split: sum.splits option.splits)
qed

lemma does_apply: "calls_only (does {Harden}) (applySecurityContext_runner L w sc r)"
proof -
  have scale: "calls_only (does {Harden}) (ScaleWorkloadUnderTest L m ns n)" for m ns n
    unfolding ScaleWorkloadUnderTest_def Scale_attempt_def by (auto intro!: calls_intros split: sum.splits prod.splits)
  have "calls_only (does {Harden}) (Apply_attempt sc w)" for sc w
    unfolding Apply_attempt_def by (auto intro!: calls_intros split: sum.splits)
  with scale show ?thesis
    unfolding applySecurityContext_runner_def Let_def by (auto intro!: calls_intros split: option.splits sum.splits prod.splits)
qed

text \<open>One part after the other.\<close>

abbreviation lives :: "phase set \<Rightarrow> 'a io \<Rightarrow> phase set \<Rightarrow> bool" where
  "lives P p P' \<equiv> \<forall>s \<in> P. meets life_contract p (\<lambda>t _. t \<in> P') s"

lemma does_then:
  assumes "calls_only (does A) p" and "s \<in> P" and "\<And>s a. s \<in> P \<Longrightarrow> a \<in> A \<Longrightarrow> \<exists>t \<in> P. life_next s a = Some t"
    and "\<And>a t. t \<in> P \<Longrightarrow> meets life_contract (f a) Q t"
  shows "meets life_contract (pbind p f) Q s"
  unfolding meets_pbind by (rule meets_mono [OF does_meets [OF assms(1-3)]]) (use assms(4) in auto)

lemma idle_then:
  assumes "calls_only (does {}) p" and "\<And>a. meets life_contract (f a) Q s"
  shows "meets life_contract (pbind p f) Q s"
  by (rule does_then [OF assms(1), of s "{s}"]) (use assms(2) in auto)

abbreviation "early_phases \<equiv> {Cloning, Hardening}"
abbreviation "open_phases \<equiv> {Cloning, Hardening, GivingUp}"
abbreviation "unmeasured \<equiv> {Cloning, Hardening, GivingUp, GivenUp}"

lemma Store_once:
  assumes "life_next s Store = Some t"
  shows "meets life_contract (StoreRecording L key rec) (\<lambda>u e. u \<in> {s, t} \<and> (e = None \<longrightarrow> u = t)) s"
  unfolding StoreRecording_def storeEntry_def Let_def using assms
  by (auto simp: meets_ask phase_after_def split: sum.splits option.splits)

lemma timeout_lives:
  assumes "s \<in> early_phases"
  shows "meets life_contract (rollout_timeout L fuel ns st w r) (\<lambda>t _. t \<in> unmeasured) s"
proof -
  have remove: "meets life_contract (pbind (Delete ns) (\<lambda>err. Ret ((False, err), w, r))) (\<lambda>t _. t \<in> unmeasured) t" if "t \<in> unmeasured" for t r
    by (rule does_then [OF does_Delete [of "{Remove}"] that]) auto
  have store: "meets life_contract (pbind (StoreRecording L k rec) (\<lambda>_. pbind (Delete ns) (\<lambda>err. Ret ((False, err), w, r)))) (\<lambda>t _. t \<in> unmeasured) t"
    if "t \<in> open_phases" for t r k rec
  proof -
    have "life_next t Store = Some GivenUp" using that by auto
    from Store_once [OF this] show ?thesis
      unfolding meets_pbind [where p = "StoreRecording L k rec"]
      by (rule meets_mono, intro remove) (use that in auto)
  qed
  have logs: "meets life_contract (recordLogs fuel ns True sel) (\<lambda>t _. t \<in> open_phases) s" for sel
    by (rule does_meets [OF does_recordLogs [of "{ReadLogs}"]]) (use assms in auto)
  show ?thesis
    unfolding rollout_timeout_def
    apply (rule idle_then, simp)
    apply (rule idle_then, simp)
    apply (rule idle_then, simp)
    apply (subst meets_pbind, rule meets_mono [OF logs])
    subgoal for r u sel t logs
      by (cases logs) (fastforce, simp only: sum.case, rule idle_then, simp, rule store)
    done
qed

lemma wait_loop_lives: "s \<in> early_phases \<Longrightarrow> meets life_contract (wait_loop L lfuel ns st fuel w r) (\<lambda>t _. t \<in> unmeasured) s"
proof (induction fuel arbitrary: w r)
  case (Suc fuel)
  show ?case
    unfolding wait_loop.simps
    apply (rule idle_then, simp)
    apply (rule idle_then, simp add: lift_go_def split: sum.splits)
    apply (rule idle_then, simp)
    using Suc timeout_lives by (auto simp del: meets_pbind intro!: idle_then)
qed simp

lemma wait_lives: "s \<in> early_phases \<Longrightarrow> meets life_contract (waitForUpdatedPods L lfuel fuel w r) (\<lambda>t _. t \<in> unmeasured) s"
  unfolding waitForUpdatedPods_def by (rule idle_then, simp) (rule wait_loop_lives)

lemma finish_lives: "meets life_contract (finish_run D L ns sc rec r) (\<lambda>_ _. True) Measuring"
proof -
  have remove: "meets life_contract (pbind (Delete ns) (\<lambda>_. Ret ())) (\<lambda>_ _. True) Kept" for r
    by (rule does_then [OF does_Delete [of "{Remove}"], of _ "{Kept}"]) auto
  have store: "life_next Measuring Store = Some Kept" by simp
  show ?thesis
    unfolding finish_run_def
    apply (subst meets_pbind, rule meets_mono [OF Store_once [OF store]])
    subgoal for u e
      by (cases e) (auto simp del: meets_pbind intro!: idle_then remove)
    done
qed

lemma logs_then:
  assumes "\<And>logs. meets life_contract (f logs) (\<lambda>_ _. True) Measuring"
  shows "meets life_contract (pbind (recordLogs lfuel ns False sel) (\<lambda>l. case l of
      Inl err \<Rightarrow> pbind (setStatusFailed L msg r) (\<lambda>_. Ret ()) | Inr logs \<Rightarrow> f logs)) (\<lambda>_ _. True) Measuring"
proof (rule does_then [OF does_recordLogs [of "{ReadLogs}"], of _ "{Measuring}"], simp_all del: meets_pbind)
  show "meets life_contract (case l of Inl err \<Rightarrow> pbind (setStatusFailed L msg r) (\<lambda>_. Ret ()) | Inr logs \<Rightarrow> f logs) (\<lambda>_ _. True) Measuring" for l
    by (cases l) (simp_all del: meets_pbind add: idle_then assms)
qed

lemma record_lives:
  assumes "s \<in> unmeasured"
  shows "meets life_contract (record_run D L lfuel ns sc w r) (\<lambda>_ _. True) s"
proof -
  have metrics: "meets life_contract (recordMetrics ns sel r) (\<lambda>t _. t = Measuring) s" for sel r
    unfolding recordMetrics_def by (rule idle_then, simp) (use assms in \<open>auto simp: meets_ask phase_after_def split: option.splits\<close>)
  show ?thesis
    unfolding record_run_def Let_def
    apply (rule idle_then, simp)
    apply (rule idle_then, simp)
    apply (rule idle_then, simp)
    apply (subst meets_pbind, rule meets_mono [OF metrics])
    subgoal for r st sel u ms
      by (cases ms) (simp_all del: meets_pbind add: idle_then logs_then finish_lives)
    done
qed

lemma harden_then:
  assumes "\<And>t w. t \<in> early_phases \<Longrightarrow> meets life_contract (f w) (\<lambda>_ _. True) t"
  shows "meets life_contract (pbind (if b then Ret (None, w) else applySecurityContext_runner L w sc r) (\<lambda>(e, w). case e of
      Some err \<Rightarrow> pbind (setStatusFailed L msg r) (\<lambda>_. Ret ()) | None \<Rightarrow> f w)) (\<lambda>_ _. True) Cloning"
proof -
  have "calls_only (does {Harden}) (if b then Ret (None, w) else applySecurityContext_runner L w sc r)"
    by (simp add: does_apply)
  then show ?thesis
  proof (rule does_then [of _ _ _ early_phases])
    show "meets life_contract (case x of (e, w) \<Rightarrow> case e of Some err \<Rightarrow> pbind (setStatusFailed L msg r) (\<lambda>_. Ret ()) | None \<Rightarrow> f w)
        (\<lambda>_ _. True) t" if "t \<in> early_phases" for x t
      using assms [OF that] by (simp del: meets_pbind add: idle_then split: prod.splits option.splits)
  qed auto
qed

lemma waited_then:
  assumes "s \<in> early_phases"
  shows "meets life_contract (pbind (waitForUpdatedPods L lfuel wfuel w r) (\<lambda>((updated, err), w, r).
      pbind (if err \<noteq> None \<or> \<not> updated
        then pbind (setStatusFailed L msg r) (\<lambda>r. pbind (event a (f r) (g r)) (\<lambda>_. Ret r)) else Ret r)
      (\<lambda>r. record_run D L lfuel ns sc w r))) (\<lambda>_ _. True) s"
proof -
  have "meets life_contract (pbind (if b then pbind (setStatusFailed L msg r) (\<lambda>r. pbind (event a (f r) (g r)) (\<lambda>_. Ret r)) else Ret r)
      (\<lambda>r. record_run D L lfuel ns sc w r)) (\<lambda>_ _. True) t" if "t \<in> unmeasured" for b w r t
    by (rule idle_then) (use record_lives [OF that] in \<open>auto intro!: calls_intros\<close>)
  then show ?thesis
    unfolding meets_pbind [where p = "waitForUpdatedPods L lfuel wfuel w r"]
    by (intro meets_mono [OF wait_lives [OF assms]]) (simp del: meets_pbind split: prod.splits)
qed

lemma RunCheck_lives:
  assumes "service_conversion L"
  shows "meets life_contract (RunCheck D L lfuel wfuel sc r) (\<lambda>_ _. True) Cloning"
proof -
  have got: "meets life_contract (case g of Inl err \<Rightarrow> pbind (setStatusFailed L msg r) (\<lambda>_. Ret ()) | Inr w \<Rightarrow> f w) (\<lambda>_ _. True) Cloning"
    if "\<And>w. meets life_contract (f w) (\<lambda>_ _. True) Cloning" for g msg r f
    by (cases g) (simp_all del: meets_pbind add: idle_then that)
  have started: "meets life_contract (if \<not> go then Ret () else p) (\<lambda>_ _. True) s"
    if "meets life_contract p (\<lambda>_ _. True) s" for go p s
    using that by simp
  show ?thesis
    unfolding RunCheck_def Let_def
    by (rule does_then [OF does_prepare [OF assms], of _ "{Cloning}"], simp, force, elim singletonE, hypsubst)
      (rule started, rule idle_then, simp, rule idle_then, simp, rule got, rule harden_then, rule waited_then)
qed

section \<open>Every run of the operator\<close>

text \<open>C4: whatever the API server, the store and the other goroutines answer, the visible acts of every goroutine a pass has
  started - cloning, hardening, measuring, reading logs, storing, removing - are a trace of the abstract life of a run: it measures
  at most once, changes no workload and builds nothing after that, stores its recording before it removes the clone, and after a
  rollout that did not come it stores at most the logs before it removes the clone.\<close>

theorem runs_refine_life:
  assumes "service_conversion L"
    and "pool_run (operator_spawn D L lfuel wfuel) (map (pass_program D F L fuel) passes) es ps"
    and "length passes \<le> i" and "i < length ps"
  shows "\<exists>t. life Cloning (acts (map fst (own i es))) t"
proof -
  from operator_thread [OF assms(2,4)] assms(3) obtain out whc ty sc
    where "drive (RunCheck D L lfuel wfuel sc (NewWorkloadCheckRunner L whc ty)) (map snd (own i es)) = (own i es, out)" by auto
  from life_drive [OF RunCheck_lives [OF assms(1)] this] show ?thesis .
qed

lemma runs_refine_life_witness:
  "\<exists>ps. pool_run (operator_spawn seen_lines list_lib 1 26)
       (map (pass_program seen_lines int_floats list_lib 1) [WorkloadPass ''web-check'' ''shop'']) restart_events ps \<and>
     acts (map fst (own 1 restart_events)) = [Remove] \<and> (\<exists>t. life Cloning (acts (map fst (own 1 restart_events))) t)"
proof -
  obtain ps where len: "length ps = 2" and ps: "pool_run (operator_spawn seen_lines list_lib 1 26)
       (map (pass_program seen_lines int_floats list_lib 1) [WorkloadPass ''web-check'' ''shop'']) restart_events ps"
    using restart_execution by blast
  have "acts (map fst (own 1 restart_events)) = [Remove]"
    by (simp add: restart_events_def numeral_eq_Suc)
  with runs_refine_life [OF list_lib_conversion ps, of 1] len ps show ?thesis by auto
qed

end
