(* ===== verification/Archive.thy ===== *)
theory Archive
  imports Valkey
begin

text \<open>
  What \<^verbatim>\<open>internal/valkey/client.go\<close> promises its callers: an archive of recordings under keys that do not
  distinguish upper and lower case, from which entries may vanish (they live 24 hours) and whose operations may fail without
  effect. The client over any key-value store that expires entries refines it.
\<close>

section \<open>The archive\<close>

datatype archive_op = Keep string WorkloadRecording | Find string | Forget string string

datatype archive_reply = Done | Missing | Found WorkloadRecording | Failed

type_synonym archive = "string \<Rightarrow> WorkloadRecording option"

inductive archive_step :: "archive \<Rightarrow> archive_op \<Rightarrow> archive_reply \<Rightarrow> archive \<Rightarrow> bool" where
  keep: "archive_step A (Keep suffix rec) Done (A(ToLower (suffix @ '':'' @ rc_Type rec) \<mapsto> rec))"
| find: "A (ToLower key) = Some rec \<Longrightarrow> archive_step A (Find key) (Found rec) A"
| missing: "A (ToLower key) = None \<Longrightarrow> archive_step A (Find key) Missing A"
| forget: "archive_step A (Forget suffix ty) Done (A(ToLower (suffix @ '':'' @ ty) := None))"
| fail: "archive_step A op Failed A"

text \<open>Before every operation entries may have expired.\<close>

inductive archive_run :: "archive \<Rightarrow> (archive_op \<times> archive_reply) list \<Rightarrow> archive \<Rightarrow> bool" where
  idle: "archive_run A [] A"
| next_op: "B \<subseteq>\<^sub>m A \<Longrightarrow> archive_step B op r C \<Longrightarrow> archive_run C rest E \<Longrightarrow> archive_run A ((op, r) # rest) E"

inductive_cases archive_findE: "archive_step A (Find key) (Found rec) B"

text \<open>What an archive promises: a recording that is found was there, or was kept under that key by one of the operations.\<close>

lemma archive_step_origin:
  assumes "archive_step B op r C" and "C k = Some rec"
  shows "B k = Some rec \<or> (\<exists>suffix. op = Keep suffix rec \<and> k = ToLower (suffix @ '':'' @ rc_Type rec))"
  using assms by cases (auto split: if_splits)

lemma archive_origin:
  "archive_run A l E \<Longrightarrow> (Find key, Found rec) \<in> set l \<Longrightarrow>
     A (ToLower key) = Some rec \<or> (\<exists>suffix r. (Keep suffix rec, r) \<in> set l \<and> ToLower key = ToLower (suffix @ '':'' @ rc_Type rec))"
proof (induction rule: archive_run.induct)
  case (next_op B A op r C rest E)
  have before: "A k = Some x" if "B k = Some x" for k x
    using next_op.hyps(1) that by (auto simp: map_le_def dom_def)
  show ?case
  proof (cases "(Find key, Found rec) = (op, r)")
    case True
    with next_op.hyps(2) have "archive_step B (Find key) (Found rec) C" by simp
    then have "B (ToLower key) = Some rec" by (rule archive_findE)
    then show ?thesis by (simp add: before)
  next
    case False
    with next_op.prems next_op.IH consider "C (ToLower key) = Some rec"
      | "\<exists>suffix r. (Keep suffix rec, r) \<in> set rest \<and> ToLower key = ToLower (suffix @ '':'' @ rc_Type rec)" by auto
    then show ?thesis
      using archive_step_origin [OF next_op.hyps(2)] before by cases auto
  qed
qed simp

section \<open>The store below\<close>

text \<open>
  A key-value store that may expire entries at any time and may fail any call without effect. It answers for the entries that are left.
\<close>

definition kv_answers :: "(call, resp, 'w) handler \<Rightarrow> ('w \<Rightarrow> string \<Rightarrow> string option) \<Rightarrow> 'w \<Rightarrow> (string \<Rightarrow> string option) \<Rightarrow> bool" where
  "kv_answers h kv w m \<longleftrightarrow>
     (\<forall>k v d r w'. h (KvSet k v d) w = (r, w') \<longrightarrow> r = ROk \<and> kv w' = m(k \<mapsto> v) \<or> (\<exists>e. r = RErr e) \<and> kv w' = m) \<and>
     (\<forall>k r w'. h (KvGet k) w = (r, w') \<longrightarrow> kv w' = m \<and> ((\<exists>v. m k = Some v \<and> r = RString v) \<or> m k = None \<and> r = RString '''' \<or> (\<exists>e. r = RErr e))) \<and>
     (\<forall>k r w'. h (KvDel k) w = (r, w') \<longrightarrow> r = ROk \<and> kv w' = m(k := None) \<or> (\<exists>e. r = RErr e) \<and> kv w' = m)"

definition kv_expiring :: "(call, resp, 'w) handler \<Rightarrow> ('w \<Rightarrow> string \<Rightarrow> string option) \<Rightarrow> bool" where
  "kv_expiring h kv \<longleftrightarrow> (\<forall>w. \<exists>m. m \<subseteq>\<^sub>m kv w \<and> kv_answers h kv w m)"

lemma kv_memory_expiring: "kv_expiring kv_memory (\<lambda>w. w)"
proof -
  have "kv_answers kv_memory (\<lambda>w. w) w w" for w by (simp add: kv_answers_def split: option.splits)
  then show ?thesis unfolding kv_expiring_def by (blast intro: map_le_refl)
qed

section \<open>The client\<close>

definition archive_prog :: "lib \<Rightarrow> archive_op \<Rightarrow> archive_reply io" where
  "archive_prog L op = (case op of
     Keep suffix rec \<Rightarrow> pbind (StoreRecording L suffix rec) (\<lambda>e. Ret (case e of None \<Rightarrow> Done | Some _ \<Rightarrow> Failed))
   | Find key \<Rightarrow> pbind (GetRecording L key) (\<lambda>r. Ret (case r of
       Inl _ \<Rightarrow> Failed | Inr None \<Rightarrow> Missing | Inr (Some rec) \<Rightarrow> Found rec))
   | Forget suffix ty \<Rightarrow> pbind (DeleteRecording suffix ty) (\<lambda>e. Ret (case e of None \<Rightarrow> Done | Some _ \<Rightarrow> Failed)))"

primrec archive_client :: "lib \<Rightarrow> archive_op list \<Rightarrow> archive_reply list io" where
  "archive_client L [] = Ret []"
| "archive_client L (op # ops) = pbind (archive_prog L op) (\<lambda>r. pbind (archive_client L ops) (\<lambda>rs. Ret (r # rs)))"

text \<open>The archive in a store: what its entries decode to. All of them are encoded recordings.\<close>

definition archive_of :: "lib \<Rightarrow> (string \<Rightarrow> string option) \<Rightarrow> archive" where
  "archive_of L m k = (case m (''recording:'' @ k) of
     None \<Rightarrow> None | Some s \<Rightarrow> (case lib_unmarshal L s of Inl _ \<Rightarrow> None | Inr rec \<Rightarrow> Some rec))"

definition holds_recordings :: "lib \<Rightarrow> (string \<Rightarrow> string option) \<Rightarrow> bool" where
  "holds_recordings L m \<longleftrightarrow> (\<forall>k s. m (''recording:'' @ k) = Some s \<longrightarrow> s \<noteq> '''' \<and> (\<exists>rec. lib_unmarshal L s = Inr rec))"

lemma recording_key_eq: "recording_key key = ''recording:'' @ ToLower key"
proof -
  have "ToLower ''recording:'' = ''recording:''" by code_simp
  then show ?thesis unfolding recording_key_def by (simp only: ToLower_append)
qed

lemma archive_of_mono: "m \<subseteq>\<^sub>m m' \<Longrightarrow> archive_of L m \<subseteq>\<^sub>m archive_of L m'"
  by (auto simp: map_le_def archive_of_def dom_def split: option.splits)

lemma map_le_Some: "m \<subseteq>\<^sub>m m' \<Longrightarrow> m k = Some x \<Longrightarrow> m' k = Some x"
  by (auto simp: map_le_def dom_def)

lemma holds_mono: "m \<subseteq>\<^sub>m m' \<Longrightarrow> holds_recordings L m' \<Longrightarrow> holds_recordings L m"
  unfolding holds_recordings_def by (blast dest: map_le_Some)

lemma archive_of_put: "lib_unmarshal L s = Inr rec \<Longrightarrow>
    archive_of L (m(recording_key key \<mapsto> s)) = (archive_of L m)(ToLower key \<mapsto> rec)"
  by (auto simp: archive_of_def recording_key_eq fun_eq_iff)

lemma archive_of_del: "archive_of L (m(recording_key key := None)) = (archive_of L m)(ToLower key := None)"
  by (auto simp: archive_of_def recording_key_eq fun_eq_iff)

lemma holds_put: "holds_recordings L m \<Longrightarrow> s \<noteq> '''' \<Longrightarrow> lib_unmarshal L s = Inr rec \<Longrightarrow> holds_recordings L (m(k \<mapsto> s))"
  by (auto simp: holds_recordings_def)

lemma holds_del: "holds_recordings L m \<Longrightarrow> holds_recordings L (m(k := None))"
  by (auto simp: holds_recordings_def)

text \<open>The encoder is lossless on what an operation stores.\<close>

definition encodable :: "lib \<Rightarrow> archive_op \<Rightarrow> bool" where
  "encodable L op \<longleftrightarrow> (case op of Keep suffix rec \<Rightarrow> json_roundtrip L rec | _ \<Rightarrow> True)"

text \<open>One operation: entries expire, the archive takes a step, and the client answers what the archive answers.\<close>

lemma archive_prog_step:
  assumes srv: "kv_expiring h kv" and json: "encodable L op" and holds: "holds_recordings L (kv w)"
  shows "\<exists>r w' B. run h (archive_prog L op) w = (Inr r, w') \<and> B \<subseteq>\<^sub>m archive_of L (kv w) \<and>
    archive_step B op r (archive_of L (kv w')) \<and> holds_recordings L (kv w')"
proof -
  from srv obtain m where m: "m \<subseteq>\<^sub>m kv w" and ans: "kv_answers h kv w m" by (auto simp: kv_expiring_def)
  note holds_m = holds_mono [OF m holds] and le = archive_of_mono [OF m, of L]
  note set = ans [unfolded kv_answers_def, THEN conjunct1, rule_format]
    and get = ans [unfolded kv_answers_def, THEN conjunct2, THEN conjunct1, rule_format]
    and del = ans [unfolded kv_answers_def, THEN conjunct2, THEN conjunct2, rule_format]
  have result: ?thesis if "run h (archive_prog L op) w = (Inr r, w')" and "archive_step (archive_of L m) op r (archive_of L (kv w'))"
      and "holds_recordings L (kv w')" for r w'
    using that le by blast
  let ?A = "archive_of L m"
  show ?thesis
  proof (cases op)
    case (Keep suffix rec)
    let ?k = "recording_key (suffix @ '':'' @ rc_Type rec)"
    show ?thesis
    proof (cases "lib_marshal L rec")
      case (Inl e)
      then have "run h (archive_prog L op) w = (Inr Failed, w)" by (simp add: archive_prog_def Keep StoreRecording_def)
      with holds show ?thesis
        by (intro exI [of _ Failed] exI [of _ w] exI [of _ "archive_of L (kv w)"]) (simp add: archive_step.fail)
    next
      case (Inr s)
      obtain r w' where h: "h (KvSet ?k s (24 * hour)) w = (r, w')" by (cases "h (KvSet ?k s (24 * hour)) w")
      from json Keep Inr have s: "s \<noteq> ''''" "lib_unmarshal L s = Inr rec" by (auto simp: encodable_def json_roundtrip_def)
      have eq: "run h (archive_prog L op) w = (Inr (case the (as_done r) of None \<Rightarrow> Done | _ \<Rightarrow> Failed), w')" if "as_done r \<noteq> None"
        using that h Inr
        by (auto simp: archive_prog_def Keep StoreRecording_def storeEntry_def recording_key_def run_pbind run_ask split: option.splits)
      from set [OF h] consider "r = ROk" "kv w' = m(?k \<mapsto> s)" | e where "r = RErr e" "kv w' = m" by blast
      then show ?thesis
      proof cases
        case 1
        with eq have "run h (archive_prog L op) w = (Inr Done, w')" by simp
        then show ?thesis
          by (rule result) (use 1 holds_put [OF holds_m s] archive_of_put [OF s(2), of m] archive_step.keep [of ?A suffix rec] in \<open>simp_all add: Keep\<close>)
      next
        case 2
        with eq have "run h (archive_prog L op) w = (Inr Failed, w')" by simp
        then show ?thesis by (rule result) (use 2 holds_m in \<open>auto intro: archive_step.fail\<close>)
      qed
    qed
  next
    case (Find key)
    note get_defs = archive_prog_def Find GetRecording_def getEntry_def recording_key_def run_pbind run_ask
    obtain r w' where h: "h (KvGet (recording_key key)) w = (r, w')" by (cases "h (KvGet (recording_key key)) w")
    from get [OF h] have kv: "kv w' = m" by blast
    from get [OF h] consider v where "m (recording_key key) = Some v" "r = RString v" | "m (recording_key key) = None" "r = RString ''''"
      | e where "r = RErr e" by (elim conjE disjE exE) simp_all
    then show ?thesis
    proof cases
      case 1
      with holds_m obtain rec where v: "v \<noteq> ''''" "lib_unmarshal L v = Inr rec"
        unfolding holds_recordings_def recording_key_eq by blast
      with 1 h have "run h (archive_prog L op) w = (Inr (Found rec), w')" by (simp add: get_defs)
      moreover from 1 v have "archive_of L m (ToLower key) = Some rec" by (simp add: archive_of_def recording_key_eq)
      ultimately show ?thesis by (intro result) (auto simp: kv Find holds_m intro: archive_step.find)
    next
      case 2
      with h have "run h (archive_prog L op) w = (Inr Missing, w')" by (simp add: get_defs)
      moreover from 2 have "archive_of L m (ToLower key) = None" by (simp add: archive_of_def recording_key_eq)
      ultimately show ?thesis by (intro result) (auto simp: kv Find holds_m intro: archive_step.missing)
    next
      case 3
      with h have "run h (archive_prog L op) w = (Inr Failed, w')" by (simp add: get_defs)
      then show ?thesis by (rule result) (auto simp: kv holds_m intro: archive_step.fail)
    qed
  next
    case (Forget suffix ty)
    let ?k = "recording_key (suffix @ '':'' @ ty)"
    obtain r w' where h: "h (KvDel ?k) w = (r, w')" by (cases "h (KvDel ?k) w")
    have eq: "run h (archive_prog L op) w = (Inr (case the (as_done r) of None \<Rightarrow> Done | _ \<Rightarrow> Failed), w')" if "as_done r \<noteq> None"
      using that h by (auto simp: archive_prog_def Forget DeleteRecording_def deleteEntry_def recording_key_def run_pbind run_ask split: option.splits)
    from del [OF h] consider "r = ROk" "kv w' = m(?k := None)" | e where "r = RErr e" "kv w' = m" by blast
    then show ?thesis
    proof cases
      case 1
      with eq have "run h (archive_prog L op) w = (Inr Done, w')" by simp
      then show ?thesis
        by (rule result) (use 1 holds_del [OF holds_m] archive_of_del [of L m] archive_step.forget [of ?A suffix ty] in \<open>simp_all add: Forget\<close>)
    next
      case 2
      with eq have "run h (archive_prog L op) w = (Inr Failed, w')" by simp
      then show ?thesis by (rule result) (use 2 holds_m in \<open>auto intro: archive_step.fail\<close>)
    qed
  qed
qed



end
