(* ===== verification/Setup.thy ===== *)
theory Setup
  imports Prog ApiTypes
begin

text \<open>
  The process around the controllers: \<^verbatim>\<open>cmd/main.go\<close> (scheme registration, command line, TLS options, certificate
  watchers, the ordered set-up and its exit codes), the \<open>SetupWithManager\<close> functions of both controllers with their event
  filter, the webhook registrations, \<open>NewValKeyClient\<close> and \<open>NewWorkloadCheckManager\<close>.

  Packages that are not the repository's (the manager of controller-runtime, certificate watchers, the Valkey client) are calls whose answers are
  not restricted. \<open>os.Exit(n)\<close> ends the program with \<open>n\<close>, a panic with 2. Loggers are left out.
\<close>

section \<open>The command line\<close>

record boot_flags =
  fl_metricsAddr :: string
  fl_probeAddr :: string
  fl_enableLeaderElection :: bool
  fl_secureMetrics :: bool
  fl_enableHTTP2 :: bool
  fl_webhookCertPath :: string
  fl_webhookCertName :: string
  fl_webhookCertKey :: string
  fl_metricsCertPath :: string
  fl_metricsCertName :: string
  fl_metricsCertKey :: string
  fl_valkeyHost :: string
  fl_valkeyPort :: string

definition default_flags :: boot_flags where
  "default_flags = \<lparr>fl_metricsAddr = ''0'', fl_probeAddr = '':8081'', fl_enableLeaderElection = False, fl_secureMetrics = True,
     fl_enableHTTP2 = False, fl_webhookCertPath = '''', fl_webhookCertName = ''tls.crt'', fl_webhookCertKey = ''tls.key'',
     fl_metricsCertPath = '''', fl_metricsCertName = ''tls.crt'', fl_metricsCertKey = ''tls.key'',
     fl_valkeyHost = ''valkey'', fl_valkeyPort = ''6379''\<rparr>"

text \<open>What the \<open>StringVar\<close> and \<open>BoolVar\<close> calls register: the setter of each name.\<close>

definition string_flags :: "(string \<times> (string \<Rightarrow> boot_flags \<Rightarrow> boot_flags)) list" where
  "string_flags = [
     (''metrics-bind-address'', \<lambda>v fl. fl\<lparr>fl_metricsAddr := v\<rparr>),
     (''health-probe-bind-address'', \<lambda>v fl. fl\<lparr>fl_probeAddr := v\<rparr>),
     (''webhook-cert-path'', \<lambda>v fl. fl\<lparr>fl_webhookCertPath := v\<rparr>),
     (''webhook-cert-name'', \<lambda>v fl. fl\<lparr>fl_webhookCertName := v\<rparr>),
     (''webhook-cert-key'', \<lambda>v fl. fl\<lparr>fl_webhookCertKey := v\<rparr>),
     (''metrics-cert-path'', \<lambda>v fl. fl\<lparr>fl_metricsCertPath := v\<rparr>),
     (''metrics-cert-name'', \<lambda>v fl. fl\<lparr>fl_metricsCertName := v\<rparr>),
     (''metrics-cert-key'', \<lambda>v fl. fl\<lparr>fl_metricsCertKey := v\<rparr>),
     (''valkey-host'', \<lambda>v fl. fl\<lparr>fl_valkeyHost := v\<rparr>),
     (''valkey-port'', \<lambda>v fl. fl\<lparr>fl_valkeyPort := v\<rparr>)]"

definition bool_flags :: "(string \<times> (bool \<Rightarrow> boot_flags \<Rightarrow> boot_flags)) list" where
  "bool_flags = [
     (''leader-elect'', \<lambda>v fl. fl\<lparr>fl_enableLeaderElection := v\<rparr>),
     (''metrics-secure'', \<lambda>v fl. fl\<lparr>fl_secureMetrics := v\<rparr>),
     (''enable-http2'', \<lambda>v fl. fl\<lparr>fl_enableHTTP2 := v\<rparr>)]"

text \<open>
  \<open>flag.Parse\<close> of the standard library. Flags that other packages register (\<open>opts.BindFlags\<close> of the zap options, the kubeconfig flag)
  are the parameter \<open>other\<close>: whether the flag is boolean, and which values it takes.
\<close>

type_synonym other_flags = "string \<Rightarrow> (bool \<times> (string \<Rightarrow> bool)) option"

definition ParseBool :: "string \<Rightarrow> bool option" where
  "ParseBool s = (if s \<in> {''1'', ''t'', ''T'', ''TRUE'', ''true'', ''True''} then Some True
     else if s \<in> {''0'', ''f'', ''F'', ''FALSE'', ''false'', ''False''} then Some False else None)"

datatype flag_word = NoFlag | BadFlag | Flag string "string option"

definition flag_word_of :: "string \<Rightarrow> flag_word" where
  "flag_word_of name = (case name of [] \<Rightarrow> BadFlag
     | c # cs \<Rightarrow> if c = CHR ''-'' \<or> c = CHR ''='' then BadFlag
         else let key = takeWhile (\<lambda>d. d \<noteq> CHR ''='') cs; rest = dropWhile (\<lambda>d. d \<noteq> CHR ''='') cs
              in Flag (c # key) (if rest = [] then None else Some (tl rest)))"

fun scan_flag :: "string \<Rightarrow> flag_word" where
  "scan_flag [] = NoFlag"
| "scan_flag [c] = NoFlag"
| "scan_flag (c # d # s) = (if c \<noteq> CHR ''-'' then NoFlag
     else if d = CHR ''-'' then (if s = [] then NoFlag else flag_word_of s)
     else flag_word_of (d # s))"

definition is_bool_flag :: "other_flags \<Rightarrow> string \<Rightarrow> bool option" where
  "is_bool_flag other name =
     (if map_of bool_flags name \<noteq> None then Some True else if map_of string_flags name \<noteq> None then Some False else map_option fst (other name))"

definition set_flag :: "other_flags \<Rightarrow> string \<Rightarrow> string \<Rightarrow> boot_flags \<Rightarrow> boot_flags option" where
  "set_flag other name v fl = (case map_of bool_flags name of
     Some f \<Rightarrow> map_option (\<lambda>b. f b fl) (ParseBool v)
   | None \<Rightarrow> (case map_of string_flags name of
       Some f \<Rightarrow> Some (f v fl)
     | None \<Rightarrow> (case other name of Some (_, takes) \<Rightarrow> if takes v then Some fl else None | None \<Rightarrow> None)))"

datatype parsed = Parsed boot_flags | Help | BadUsage

datatype parse_step = Stop | Next boot_flags "string list" | AskedHelp | Failing

definition parseOne :: "other_flags \<Rightarrow> boot_flags \<Rightarrow> string \<Rightarrow> string list \<Rightarrow> parse_step" where
  "parseOne other fl s args =
     (let set = (\<lambda>name v rest. case set_flag other name v fl of None \<Rightarrow> Failing | Some fl' \<Rightarrow> Next fl' rest)
      in case scan_flag s of
        NoFlag \<Rightarrow> Stop
      | BadFlag \<Rightarrow> Failing
      | Flag name value \<Rightarrow> (case is_bool_flag other name of
          None \<Rightarrow> if name = ''help'' \<or> name = ''h'' then AskedHelp else Failing
        | Some isbool \<Rightarrow> (case value of
            Some v \<Rightarrow> set name v args
          | None \<Rightarrow> if isbool then set name ''true'' args
              else (case args of [] \<Rightarrow> Failing | v # args' \<Rightarrow> set name v args'))))"

lemma parseOne_Next:
  assumes "parseOne other fl s args = Next fl' rest"
  shows "\<exists>name value v. scan_flag s = Flag name value \<and> set_flag other name v fl = Some fl' \<and> (rest = args \<or> (\<exists>a. args = a # rest))"
  using assms unfolding parseOne_def Let_def by (auto split: flag_word.splits option.splits if_splits list.splits)

function Parse :: "other_flags \<Rightarrow> boot_flags \<Rightarrow> string list \<Rightarrow> parsed" where
  "Parse other fl [] = Parsed fl"
| "Parse other fl (s # args) = (case parseOne other fl s args of
     Stop \<Rightarrow> Parsed fl
   | Next fl' rest \<Rightarrow> Parse other fl' rest
   | AskedHelp \<Rightarrow> Help
   | Failing \<Rightarrow> BadUsage)"
  by pat_completeness auto
termination
  by (relation "measure (\<lambda>(other, fl, args). length args)") (auto dest!: parseOne_Next)

text \<open>\<open>filepath.Join\<close> of a directory and a file name: joined by a slash and cleaned.\<close>

fun split_at :: "char \<Rightarrow> string \<Rightarrow> string list" where
  "split_at c [] = [[]]"
| "split_at c (d # s) = (if d = c then [] # split_at c s
     else (case split_at c s of [] \<Rightarrow> [[d]] | w # ws \<Rightarrow> (d # w) # ws))"

fun join_with :: "string \<Rightarrow> string list \<Rightarrow> string" where
  "join_with sep [] = ''''"
| "join_with sep [w] = w"
| "join_with sep (w # ws) = w @ sep @ join_with sep ws"

fun clean_step :: "bool \<Rightarrow> string \<Rightarrow> string list \<Rightarrow> string list" where
  "clean_step rooted w out =
     (if w = '''' \<or> w = ''.'' then out
      else if w \<noteq> ''..'' then w # out
      else (case out of
          [] \<Rightarrow> if rooted then [] else [''..'']
        | o1 # out' \<Rightarrow> if o1 = ''..'' then ''..'' # out else out'))"

definition Clean :: "string \<Rightarrow> string" where
  "Clean p =
     (let rooted = (p \<noteq> [] \<and> hd p = CHR ''/'');
          body = join_with ''/'' (rev (fold (clean_step rooted) (split_at (CHR ''/'') p) []))
      in if rooted then ''/'' @ body else if body = '''' then ''.'' else body)"

definition Join :: "string \<Rightarrow> string \<Rightarrow> string" where
  "Join dir file = (if dir = '''' \<and> file = '''' then ''''
     else Clean (join_with ''/'' (filter (\<lambda>s. s \<noteq> '''') [dir, file])))"

section \<open>TLS\<close>

text \<open>A certificate watcher is the pair of files it watches. The two functions the code passes as TLS options:\<close>

type_synonym cert_watcher = "string \<times> string"

datatype tls_opt = DisableHTTP2 | CertificateOf cert_watcher

record tls_config =
  tc_NextProtos :: "string list"
  tc_GetCertificate :: "cert_watcher option"

fun apply_tls_opt :: "tls_opt \<Rightarrow> tls_config \<Rightarrow> tls_config" where
  "apply_tls_opt DisableHTTP2 c = c\<lparr>tc_NextProtos := [''http/1.1'']\<rparr>"
| "apply_tls_opt (CertificateOf w) c = c\<lparr>tc_GetCertificate := Some w\<rparr>"

definition tlsOpts :: "boot_flags \<Rightarrow> tls_opt list" where
  "tlsOpts fl = (if \<not> fl_enableHTTP2 fl then [DisableHTTP2] else [])"

text \<open>
  Both servers extend \<open>tlsOpts\<close> with \<open>append\<close>. A slice grown from nil by one element has no spare capacity, so the
  appends copy and the two lists do not share their ends.
\<close>

definition with_certificate :: "tls_opt list \<Rightarrow> cert_watcher option \<Rightarrow> tls_opt list" where
  "with_certificate opts w = (case w of None \<Rightarrow> opts | Some w \<Rightarrow> opts @ [CertificateOf w])"

definition serve_with :: "tls_opt list \<Rightarrow> tls_config \<Rightarrow> tls_config" where
  "serve_with opts c = fold apply_tls_opt opts c"

section \<open>Calls\<close>

record metrics_options =
  mo_BindAddress :: string
  mo_SecureServing :: bool
  mo_TLSOpts :: "tls_opt list"
  mo_Authenticated :: bool

record manager_options =
  mg_Metrics :: metrics_options
  mg_WebhookTLSOpts :: "tls_opt list"
  mg_HealthProbeBindAddress :: string
  mg_LeaderElection :: bool
  mg_LeaderElectionID :: string

text \<open>The filter of a controller: a nil function of \<open>predicate.Funcs\<close> lets every event of its kind through.\<close>

record update_event =
  ev_ObjectOld :: int64
  ev_ObjectNew :: int64

record predicate_funcs =
  pf_CreateFunc :: "(int64 \<Rightarrow> bool) option"
  pf_UpdateFunc :: "(update_event \<Rightarrow> bool) option"
  pf_DeleteFunc :: "(int64 \<Rightarrow> bool) option"
  pf_GenericFunc :: "(int64 \<Rightarrow> bool) option"

definition workload_ignoreStatusChanges :: predicate_funcs where
  "workload_ignoreStatusChanges = \<lparr>pf_CreateFunc = None, pf_UpdateFunc = Some (\<lambda>e. ev_ObjectOld e \<noteq> ev_ObjectNew e),
     pf_DeleteFunc = None, pf_GenericFunc = None\<rparr>"

definition namespace_ignoreStatusChanges :: predicate_funcs where
  "namespace_ignoreStatusChanges = \<lparr>pf_CreateFunc = None, pf_UpdateFunc = Some (\<lambda>e. ev_ObjectOld e \<noteq> ev_ObjectNew e),
     pf_DeleteFunc = None, pf_GenericFunc = None\<rparr>"

record controller_setup =
  co_Named :: string
  co_For :: string
  co_Owns :: string
  co_MaxConcurrentReconciles :: int
  co_EventFilter :: predicate_funcs

record webhook_setup =
  wh_For :: string
  wh_Defaulter :: string
  wh_Validator :: string
  wh_ValidatorHasClient :: bool

datatype boot_call = AddToScheme string | NewCertWatcher string string | GetConfig | NewManager manager_options
  | NewValkey string | ValkeyPing | Complete controller_setup | CompleteWebhook webhook_setup | Getenv string
  | AddRunnable cert_watcher | AddHealthzCheck string | AddReadyzCheck string | StartManager

datatype boot_resp = BOk | BFailed error | BString string

type_synonym 'a boot = "(boot_call, boot_resp, 'a) prog"

definition attempt :: "boot_call \<Rightarrow> error option boot" where
  "attempt c = Call c (\<lambda>r. case r of BOk \<Rightarrow> Ret None | BFailed e \<Rightarrow> Ret (Some e) | BString _ \<Rightarrow> Crash IllTyped)"

definition getenv :: "string \<Rightarrow> string boot" where
  "getenv name = Call (Getenv name) (\<lambda>r. case r of BString s \<Rightarrow> Ret s | _ \<Rightarrow> Crash IllTyped)"

section \<open>The components\<close>

definition NewValKeyClient :: "string \<Rightarrow> string \<Rightarrow> error option boot" where
  "NewValKeyClient host port =
     pbind (attempt (NewValkey (host @ '':'' @ port))) (\<lambda>e. case e of
       Some err \<Rightarrow> Ret (Some err)
     | None \<Rightarrow> attempt ValkeyPing)"

definition workload_controller :: controller_setup where
  "workload_controller = \<lparr>co_Named = ''workloadhardeningcheck'', co_For = ''WorkloadHardeningCheck'', co_Owns = ''Namespace'',
     co_MaxConcurrentReconciles = 2, co_EventFilter = workload_ignoreStatusChanges\<rparr>"

definition namespace_controller :: controller_setup where
  "namespace_controller = \<lparr>co_Named = ''namespacehardeningcheck'', co_For = ''NamespaceHardeningCheck'', co_Owns = ''WorkloadHardeningCheck'',
     co_MaxConcurrentReconciles = 2, co_EventFilter = namespace_ignoreStatusChanges\<rparr>"

definition workload_webhook :: webhook_setup where
  "workload_webhook = \<lparr>wh_For = ''WorkloadHardeningCheck'', wh_Defaulter = ''WorkloadHardeningCheckCustomDefaulter'',
     wh_Validator = ''WorkloadHardeningCheckCustomValidator'', wh_ValidatorHasClient = False\<rparr>"

definition namespace_webhook :: webhook_setup where
  "namespace_webhook = \<lparr>wh_For = ''NamespaceHardeningCheck'', wh_Defaulter = ''NamespaceHardeningCheckCustomDefaulter'',
     wh_Validator = ''NamespaceHardeningCheckCustomValidator'', wh_ValidatorHasClient = True\<rparr>"

text \<open>
  \<open>NewWorkloadCheckManager\<close> returns nil where there is no cluster configuration or no client can be made of it; else the manager works on a
  deep copy of the check, which a value of HOL is.
\<close>

definition NewWorkloadCheckManager :: "error + 'cfg \<Rightarrow> ('cfg \<Rightarrow> error + 'client) \<Rightarrow> Whc \<Rightarrow> ('client \<times> Whc) option" where
  "NewWorkloadCheckManager config new_client whc = (case config of
     Inl err \<Rightarrow> None
   | Inr cfg \<Rightarrow> (case new_client cfg of Inl err \<Rightarrow> None | Inr cl \<Rightarrow> Some (cl, whc)))"

section \<open>main\<close>

text \<open>\<open>if err != nil { setupLog.Error(...); os.Exit(1) }\<close> around each step.\<close>

definition or_exit :: "error option boot \<Rightarrow> nat boot \<Rightarrow> nat boot" where
  "or_exit p k = pbind p (\<lambda>e. case e of Some err \<Rightarrow> Ret 1 | None \<Rightarrow> k)"

text \<open>\<open>os.Exit\<close> leaves the whole of \<open>main\<close>: a part hands its result to what follows it.\<close>

definition cert_watcher_for :: "string \<Rightarrow> string \<Rightarrow> string \<Rightarrow> (cert_watcher option \<Rightarrow> nat boot) \<Rightarrow> nat boot" where
  "cert_watcher_for path name key k =
     (if 0 < length path
      then or_exit (attempt (NewCertWatcher (Join path name) (Join path key))) (k (Some (Join path name, Join path key)))
      else k None)"

definition metrics_server_options :: "boot_flags \<Rightarrow> cert_watcher option \<Rightarrow> metrics_options" where
  "metrics_server_options fl w = \<lparr>mo_BindAddress = fl_metricsAddr fl, mo_SecureServing = fl_secureMetrics fl,
     mo_TLSOpts = with_certificate (tlsOpts fl) w, mo_Authenticated = fl_secureMetrics fl\<rparr>"

definition ctrl_options :: "boot_flags \<Rightarrow> cert_watcher option \<Rightarrow> cert_watcher option \<Rightarrow> manager_options" where
  "ctrl_options fl ww mw = \<lparr>mg_Metrics = metrics_server_options fl mw, mg_WebhookTLSOpts = with_certificate (tlsOpts fl) ww,
     mg_HealthProbeBindAddress = fl_probeAddr fl, mg_LeaderElection = fl_enableLeaderElection fl,
     mg_LeaderElectionID = ''44323975.funk.fhnw.ch''\<rparr>"

definition with_webhook :: "webhook_setup \<Rightarrow> nat boot \<Rightarrow> nat boot" where
  "with_webhook wh k = pbind (getenv ''ENABLE_WEBHOOKS'') (\<lambda>v.
     if v \<noteq> ''false'' then or_exit (attempt (CompleteWebhook wh)) k else k)"

definition register_components :: "nat boot \<Rightarrow> nat boot" where
  "register_components k =
     or_exit (attempt (Complete workload_controller))
       (with_webhook workload_webhook
         (or_exit (attempt (Complete namespace_controller))
           (with_webhook namespace_webhook k)))"

definition add_watcher :: "cert_watcher option \<Rightarrow> nat boot \<Rightarrow> nat boot" where
  "add_watcher w k = (case w of None \<Rightarrow> k | Some w \<Rightarrow> or_exit (attempt (AddRunnable w)) k)"

definition start_manager :: "nat boot" where
  "start_manager =
     or_exit (attempt (AddHealthzCheck ''healthz''))
       (or_exit (attempt (AddReadyzCheck ''readyz''))
         (or_exit (attempt StartManager) (Ret 0)))"

definition main_with :: "boot_flags \<Rightarrow> nat boot" where
  "main_with fl =
     cert_watcher_for (fl_webhookCertPath fl) (fl_webhookCertName fl) (fl_webhookCertKey fl) (\<lambda>ww.
     cert_watcher_for (fl_metricsCertPath fl) (fl_metricsCertName fl) (fl_metricsCertKey fl) (\<lambda>mw.
     or_exit (attempt GetConfig)
       (or_exit (attempt (NewManager (ctrl_options fl ww mw)))
         (or_exit (NewValKeyClient (fl_valkeyHost fl) (fl_valkeyPort fl))
           (register_components (add_watcher mw (add_watcher ww start_manager)))))))"

text \<open>\<open>flag.Parse\<close> exits with 0 after a request for help and with 2 on bad usage.\<close>

definition main :: "other_flags \<Rightarrow> string list \<Rightarrow> nat boot" where
  "main other args = (case Parse other default_flags args of
     Help \<Rightarrow> Ret 0 | BadUsage \<Rightarrow> Ret 2 | Parsed fl \<Rightarrow> main_with fl)"

text \<open>\<open>init\<close> runs before; \<open>utilruntime.Must\<close> panics.\<close>

definition init :: "error option boot" where
  "init = pbind (attempt (AddToScheme ''client-go'')) (\<lambda>e. case e of
     Some err \<Rightarrow> Ret (Some err)
   | None \<Rightarrow> attempt (AddToScheme ''checks.funk.fhnw.ch/v1alpha1''))"

definition boot_process :: "other_flags \<Rightarrow> string list \<Rightarrow> nat boot" where
  "boot_process other args = pbind init (\<lambda>e. case e of Some err \<Rightarrow> Ret 2 | None \<Rightarrow> main other args)"

section \<open>What a start needs\<close>

text \<open>The ghost state is the log. A step needs that all steps before it succeeded; the start also that all of them were taken.\<close>

definition failed :: "boot_resp \<Rightarrow> bool" where
  "failed r = (case r of BFailed _ \<Rightarrow> True | _ \<Rightarrow> False)"

lemma failed_simps [simp]: "failed (BFailed e)" "\<not> failed BOk" "\<not> failed (BString s)"
  by (simp_all add: failed_def)

definition succeeded :: "(boot_call \<times> boot_resp) list \<Rightarrow> boot_call \<Rightarrow> bool" where
  "succeeded l c \<longleftrightarrow> (c, BOk) \<in> set l"

definition under_way :: "(boot_call \<times> boot_resp) list \<Rightarrow> bool" where
  "under_way l \<longleftrightarrow> (\<forall>(c, r) \<in> set l. c \<noteq> StartManager \<and> \<not> failed r)"

definition webhooks_wanted :: "(boot_call \<times> boot_resp) list \<Rightarrow> bool" where
  "webhooks_wanted l \<longleftrightarrow> (\<forall>v. (Getenv ''ENABLE_WEBHOOKS'', BString v) \<in> set l \<longrightarrow> v \<noteq> ''false'')"

definition configured :: "boot_flags \<Rightarrow> (boot_call \<times> boot_resp) list \<Rightarrow> bool" where
  "configured fl l \<longleftrightarrow>
     (\<exists>ww mw. succeeded l (NewManager (ctrl_options fl ww mw)) \<and>
        (\<forall>w. ww = Some w \<or> mw = Some w \<longrightarrow> succeeded l (NewCertWatcher (fst w) (snd w)) \<and> succeeded l (AddRunnable w))) \<and>
     succeeded l (NewValkey (fl_valkeyHost fl @ '':'' @ fl_valkeyPort fl)) \<and> succeeded l ValkeyPing \<and>
     succeeded l (Complete workload_controller) \<and> succeeded l (Complete namespace_controller) \<and>
     (webhooks_wanted l \<longrightarrow> succeeded l (CompleteWebhook workload_webhook) \<and> succeeded l (CompleteWebhook namespace_webhook)) \<and>
     succeeded l (AddHealthzCheck ''healthz'') \<and> succeeded l (AddReadyzCheck ''readyz'')"

definition boot_contract :: "boot_flags \<Rightarrow> ((boot_call \<times> boot_resp) list, boot_call, boot_resp) contract" where
  "boot_contract fl = \<lparr>rg_may = (\<lambda>l c. under_way l \<and> (c = StartManager \<longrightarrow> configured fl l)), rg_ans = (\<lambda>_ _ _. True),
     rg_next = (\<lambda>l c r. l @ [(c, r)]), rg_crash = (\<lambda>_. True)\<rparr>"

lemma boot_contract_simps [simp]:
  "rg_may (boot_contract fl) l c \<longleftrightarrow> under_way l \<and> (c = StartManager \<longrightarrow> configured fl l)"
  "rg_ans (boot_contract fl) l c r" "rg_next (boot_contract fl) l c r = l @ [(c, r)]" "rg_crash (boot_contract fl) e"
  by (simp_all add: boot_contract_def)

text \<open>How the process ends: with 0 after the manager has stopped without an error, with 1 right after a failed step.\<close>

definition exit_code :: "boot_call \<Rightarrow> nat" where
  "exit_code c = (case c of AddToScheme _ \<Rightarrow> 2 | _ \<Rightarrow> 1)"

lemma exit_code_simps [simp]:
  "exit_code (AddToScheme s) = 2" "exit_code (NewCertWatcher a b) = 1" "exit_code GetConfig = 1" "exit_code (NewManager o1) = 1"
  "exit_code (NewValkey s) = 1" "exit_code ValkeyPing = 1" "exit_code (Complete cs) = 1" "exit_code (CompleteWebhook ws) = 1"
  "exit_code (AddRunnable w) = 1" "exit_code (AddHealthzCheck s) = 1" "exit_code (AddReadyzCheck s) = 1" "exit_code StartManager = 1"
  by (simp_all add: exit_code_def)

definition exits :: "(boot_call \<times> boot_resp) list \<Rightarrow> nat \<Rightarrow> bool" where
  "exits l n \<longleftrightarrow> l \<noteq> [] \<and> under_way (butlast l) \<and>
     (if failed (snd (last l)) then n = exit_code (fst (last l)) else n = 0 \<and> last l = (StartManager, BOk))"

lemma succeeded_append [simp]: "succeeded (l @ l') c \<longleftrightarrow> succeeded l c \<or> succeeded l' c"
  by (auto simp: succeeded_def)

lemma succeeded_list [simp]: "succeeded ((c', r) # l) c \<longleftrightarrow> c = c' \<and> r = BOk \<or> succeeded l c" "\<not> succeeded [] c"
  by (auto simp: succeeded_def)

lemma under_way_append [simp]: "under_way (l @ l') \<longleftrightarrow> under_way l \<and> under_way l'"
  by (auto simp: under_way_def)

lemma under_way_one [simp]: "under_way []" "under_way ((c, r) # l) \<longleftrightarrow> c \<noteq> StartManager \<and> \<not> failed r \<and> under_way l"
  by (auto simp: under_way_def)

lemma wanted_append [simp]: "webhooks_wanted (l @ l') \<longleftrightarrow> webhooks_wanted l \<and> webhooks_wanted l'"
  by (auto simp: webhooks_wanted_def)

lemma wanted_list [simp]:
  "webhooks_wanted ((c, r) # l) \<longleftrightarrow> (c = Getenv ''ENABLE_WEBHOOKS'' \<longrightarrow> r \<noteq> BString ''false'') \<and> webhooks_wanted l" "webhooks_wanted []"
  by (auto simp: webhooks_wanted_def)

text \<open>What precedes the health checks.\<close>

definition registered :: "boot_flags \<Rightarrow> cert_watcher option \<Rightarrow> cert_watcher option \<Rightarrow> (boot_call \<times> boot_resp) list \<Rightarrow> bool" where
  "registered fl ww mw l \<longleftrightarrow> succeeded l (NewManager (ctrl_options fl ww mw)) \<and>
     (\<forall>w. ww = Some w \<or> mw = Some w \<longrightarrow> succeeded l (NewCertWatcher (fst w) (snd w))) \<and>
     succeeded l (NewValkey (fl_valkeyHost fl @ '':'' @ fl_valkeyPort fl)) \<and> succeeded l ValkeyPing"

lemma registered_append: "registered fl ww mw l \<Longrightarrow> registered fl ww mw (l @ l')"
  by (auto simp: registered_def)

lemma or_exit_step:
  assumes "under_way l" and "c \<noteq> StartManager \<and> exit_code c = 1" and "meets (boot_contract fl) k exits (l @ [(c, BOk)])"
  shows "meets (boot_contract fl) (or_exit (attempt c) k) exits l"
  using assms by (auto simp: or_exit_def attempt_def exits_def split: boot_resp.splits)

lemma start_meets:
  assumes "under_way l" and "configured fl (l @ [(AddHealthzCheck ''healthz'', BOk)] @ [(AddReadyzCheck ''readyz'', BOk)])"
  shows "meets (boot_contract fl) start_manager exits l"
  unfolding start_manager_def
  by (rule or_exit_step, use assms in simp_all, rule or_exit_step)
    (use assms in \<open>auto simp: or_exit_def attempt_def exits_def butlast_append split: boot_resp.splits\<close>)

lemma add_watcher_meets:
  assumes "under_way l" and "\<And>x. under_way (l @ x) \<Longrightarrow> (\<And>w'. w = Some w' \<Longrightarrow> succeeded x (AddRunnable w')) \<Longrightarrow> webhooks_wanted x \<Longrightarrow>
    meets (boot_contract fl) k exits (l @ x)"
  shows "meets (boot_contract fl) (add_watcher w k) exits l"
proof (cases w)
  case None
  with assms(1) assms(2) [of "[]"] show ?thesis by (simp add: add_watcher_def)
next
  case (Some w')
  have "meets (boot_contract fl) k exits (l @ [(AddRunnable w', BOk)])"
    using assms Some by (intro assms(2)) (auto simp: webhooks_wanted_def)
  with assms(1) Some show ?thesis by (simp add: add_watcher_def or_exit_step)
qed

lemma with_webhook_meets:
  assumes "under_way l" and "\<And>x. under_way (l @ x) \<Longrightarrow> (webhooks_wanted x \<Longrightarrow> succeeded x (CompleteWebhook wh)) \<Longrightarrow>
    meets (boot_contract fl) k exits (l @ x)"
  shows "meets (boot_contract fl) (with_webhook wh k) exits l"
proof -
  have "meets (boot_contract fl) k exits (l @ [(Getenv ''ENABLE_WEBHOOKS'', BString v)] @ [(CompleteWebhook wh, BOk)])" for v
    using assms by (intro assms(2)) auto
  moreover have "meets (boot_contract fl) k exits (l @ [(Getenv ''ENABLE_WEBHOOKS'', BString v)])" if "v = ''false''" for v
    using assms that by (intro assms(2)) auto
  ultimately show ?thesis
    using assms(1) by (auto simp: with_webhook_def getenv_def intro!: or_exit_step split: boot_resp.splits)
qed

lemma cert_meets:
  assumes "under_way l" and "\<And>w x. under_way (l @ x) \<Longrightarrow> (\<And>w'. w = Some w' \<Longrightarrow> succeeded x (NewCertWatcher (fst w') (snd w'))) \<Longrightarrow>
    meets (boot_contract fl) (k w) exits (l @ x)"
  shows "meets (boot_contract fl) (cert_watcher_for path name key k) exits l"
proof -
  have "meets (boot_contract fl) (k None) exits (l @ [])" using assms by (intro assms(2)) auto
  moreover have "meets (boot_contract fl) (k (Some (a, b))) exits (l @ [(NewCertWatcher a b, BOk)])" for a b
    using assms by (intro assms(2)) auto
  ultimately show ?thesis using assms(1) by (auto simp: cert_watcher_for_def intro!: or_exit_step)
qed

lemma register_meets:
  assumes "under_way l" and "registered fl ww mw l"
  shows "meets (boot_contract fl) (register_components (add_watcher mw (add_watcher ww start_manager))) exits l"
  unfolding register_components_def
proof (rule or_exit_step [OF assms(1)], simp, rule with_webhook_meets)
  let ?l1 = "l @ [(Complete workload_controller, BOk)]"
  show "under_way ?l1" using assms(1) by simp
  fix x assume x: "under_way (?l1 @ x)" "webhooks_wanted x \<Longrightarrow> succeeded x (CompleteWebhook workload_webhook)"
  let ?l2 = "(?l1 @ x) @ [(Complete namespace_controller, BOk)]"
  show "meets (boot_contract fl) (or_exit (attempt (Complete namespace_controller))
      (with_webhook namespace_webhook (add_watcher mw (add_watcher ww start_manager)))) exits (?l1 @ x)"
  proof (rule or_exit_step [OF x(1)], simp, rule with_webhook_meets)
    show "under_way ?l2" using x by simp
    fix y assume y: "under_way (?l2 @ y)" "webhooks_wanted y \<Longrightarrow> succeeded y (CompleteWebhook namespace_webhook)"
    show "meets (boot_contract fl) (add_watcher mw (add_watcher ww start_manager)) exits (?l2 @ y)"
    proof (rule add_watcher_meets [OF y(1)], rule add_watcher_meets, assumption, rule start_meets, assumption)
      fix z1 z2
      assume "\<And>w'. mw = Some w' \<Longrightarrow> succeeded z1 (AddRunnable w')" "\<And>w'. ww = Some w' \<Longrightarrow> succeeded z2 (AddRunnable w')"
      with x(2) y(2) assms(2)
      show "configured fl ((((?l2 @ y) @ z1) @ z2) @ [(AddHealthzCheck ''healthz'', BOk)] @ [(AddReadyzCheck ''readyz'', BOk)])"
        unfolding configured_def registered_def by - (rule conjI, rule exI [of _ ww], rule exI [of _ mw], auto)
    qed
  qed
qed

lemma main_meets:
  assumes "under_way l"
  shows "meets (boot_contract fl) (main_with fl) exits l"
  unfolding main_with_def
proof (rule cert_meets [OF assms], erule cert_meets)
  fix ww x mw y
  assume x: "\<And>w'. ww = Some w' \<Longrightarrow> succeeded x (NewCertWatcher (fst w') (snd w'))"
    and y: "under_way ((l @ x) @ y)" "\<And>w'. mw = Some w' \<Longrightarrow> succeeded y (NewCertWatcher (fst w') (snd w'))"
  let ?l = "((((l @ x) @ y) @ [(GetConfig, BOk)]) @ [(NewManager (ctrl_options fl ww mw), BOk)])"
  let ?v = "NewValkey (fl_valkeyHost fl @ '':'' @ fl_valkeyPort fl)"
  have valkey: "or_exit (NewValKeyClient (fl_valkeyHost fl) (fl_valkeyPort fl)) k = or_exit (attempt ?v) (or_exit (attempt ValkeyPing) k)" for k
    by (auto simp: or_exit_def NewValKeyClient_def pbind_assoc attempt_def fun_eq_iff split: option.splits boot_resp.splits)
  show "meets (boot_contract fl) (or_exit (attempt GetConfig) (or_exit (attempt (NewManager (ctrl_options fl ww mw)))
      (or_exit (NewValKeyClient (fl_valkeyHost fl) (fl_valkeyPort fl))
        (register_components (add_watcher mw (add_watcher ww start_manager)))))) exits ((l @ x) @ y)"
    unfolding valkey
  proof (rule or_exit_step [OF y(1)], simp, rule or_exit_step, (use y in simp)[1], simp, rule or_exit_step, (use y in simp)[1], simp,
      rule or_exit_step, (use y in simp)[1], simp, rule register_meets)
    show "under_way ((?l @ [(?v, BOk)]) @ [(ValkeyPing, BOk)])" using y by simp
    show "registered fl ww mw ((?l @ [(?v, BOk)]) @ [(ValkeyPing, BOk)])"
      using x y(2) by (auto simp: registered_def)
  qed
qed

lemma init_then:
  assumes "under_way l" and "\<And>x. under_way (l @ x) \<Longrightarrow> meets (boot_contract fl) k exits (l @ x)"
  shows "meets (boot_contract fl) (pbind init (\<lambda>e. case e of Some err \<Rightarrow> Ret 2 | None \<Rightarrow> k)) exits l"
proof -
  have "meets (boot_contract fl) k exits ((l @ [(AddToScheme a, BOk)]) @ [(AddToScheme b, BOk)])" for a b
    using assms by (simp add: assms(2))
  with assms(1) show ?thesis
    by (auto simp: init_def attempt_def exits_def butlast_append split: boot_resp.splits)
qed

lemma process_meets:
  "Parse other default_flags args = Parsed fl \<Longrightarrow> meets (boot_contract fl) (boot_process other args) exits []"
  unfolding boot_process_def main_def by (simp del: meets_pbind) (rule init_then, simp, rule main_meets)

lemma follow_boot [simp]: "follow (boot_contract fl) s l = Some (s @ l)"
  by (induction l arbitrary: s) auto

text \<open>No program goes on after the start.\<close>

lemma start_is_last: "meets (boot_contract fl) p Q s \<Longrightarrow> drive p rs = (pre @ (StartManager, r) # post, out) \<Longrightarrow> post = []"
proof (cases post)
  case (Cons e post')
  assume "meets (boot_contract fl) p Q s" "drive p rs = (pre @ (StartManager, r) # post, out)"
  with meets_at [of "boot_contract fl" p Q s rs "pre @ [(StartManager, r)]" "fst e" "snd e" post' out] Cons
  have "under_way (s @ pre @ [(StartManager, r)])" by simp
  then show ?thesis by simp
qed simp

section \<open>Properties\<close>

text \<open>C8: the manager starts only when everything is in place. Whatever the libraries answer, when \<open>main\<close> calls \<open>mgr.Start\<close>
  no step before it failed, the manager was made with the options of the command line, the Valkey server was reached, both controllers
  were registered, both webhooks too unless \<open>ENABLE_WEBHOOKS\<close> is \<open>false\<close>, every certificate watcher the servers use was made
  and added to the manager, and both health checks were added; after the start nothing else is called.\<close>

theorem manager_starts_last:
  assumes "Parse other default_flags args = Parsed fl"
    and "drive (boot_process other args) rs = (pre @ (StartManager, r) # post, out)"
  shows "configured fl pre \<and> under_way pre \<and> post = []"
  using meets_at [OF process_meets [OF assms(1)] assms(2), of pre] start_is_last [OF process_meets [OF assms(1)] assms(2)] by simp


text \<open>Flags that are not named keep their values.\<close>

definition names_flag :: "string \<Rightarrow> string \<Rightarrow> bool" where
  "names_flag name s \<longleftrightarrow> (case scan_flag s of Flag n _ \<Rightarrow> n = name | _ \<Rightarrow> False)"

lemma bool_flag_http2: "map_of bool_flags name = Some f \<Longrightarrow> name \<noteq> ''enable-http2'' \<Longrightarrow> fl_enableHTTP2 (f b fl) = fl_enableHTTP2 fl"
  by (drule map_of_SomeD) (auto simp: bool_flags_def)

lemma string_flag_http2: "map_of string_flags name = Some f \<Longrightarrow> fl_enableHTTP2 (f v fl) = fl_enableHTTP2 fl"
  by (drule map_of_SomeD) (auto simp: string_flags_def)

lemma set_flag_http2: "set_flag other name v fl = Some fl' \<Longrightarrow> name \<noteq> ''enable-http2'' \<Longrightarrow> fl_enableHTTP2 fl' = fl_enableHTTP2 fl"
  unfolding set_flag_def by (auto split: option.splits if_splits simp: bool_flag_http2 string_flag_http2)

lemma Parse_http2: "Parse other fl args = Parsed fl' \<Longrightarrow> \<forall>s \<in> set args. \<not> names_flag ''enable-http2'' s \<Longrightarrow>
    fl_enableHTTP2 fl' = fl_enableHTTP2 fl"
proof (induction other fl args rule: Parse.induct)
  case (2 other fl s args)
  show ?case
  proof (cases "parseOne other fl s args")
    case (Next fl1 rest)
    from parseOne_Next [OF this] obtain name v v' where fl1: "scan_flag s = Flag name v" "set_flag other name v' fl = Some fl1"
      "rest = args \<or> (\<exists>a. args = a # rest)" by blast
    from 2(3) fl1(1) have "name \<noteq> ''enable-http2''" by (simp add: names_flag_def)
    with fl1(2) have "fl_enableHTTP2 fl1 = fl_enableHTTP2 fl" by (rule set_flag_http2)
    moreover have "\<forall>s \<in> set rest. \<not> names_flag ''enable-http2'' s" using 2(3) fl1(3) by auto
    with 2(1) [OF Next] 2(2) Next have "fl_enableHTTP2 fl' = fl_enableHTTP2 fl1" by simp
    ultimately show ?thesis by simp
  qed (use 2(2) in auto)
qed simp

definition http1_only :: "boot_call \<Rightarrow> bool" where
  "http1_only call = (case call of NewManager o1 \<Rightarrow> \<forall>c.
      tc_NextProtos (serve_with (mg_WebhookTLSOpts o1) c) = [''http/1.1''] \<and>
      tc_NextProtos (serve_with (mo_TLSOpts (mg_Metrics o1)) c) = [''http/1.1''] | _ \<Rightarrow> True)"

lemma or_exit_only: "P c \<Longrightarrow> meets (only P) k (\<lambda>_ _. True) () \<Longrightarrow> meets (only P) (or_exit (attempt c) k) (\<lambda>_ _. True) ()"
  by (auto simp: or_exit_def attempt_def split: boot_resp.splits)

lemma http1_only_simps [simp]:
  "http1_only (AddToScheme s)" "http1_only (NewCertWatcher a b)" "http1_only GetConfig" "http1_only (NewValkey s)" "http1_only ValkeyPing"
  "http1_only (Complete cs)" "http1_only (CompleteWebhook ws)" "http1_only (Getenv s)" "http1_only (AddRunnable w)"
  "http1_only (AddHealthzCheck s)" "http1_only (AddReadyzCheck s)" "http1_only StartManager"
  by (simp_all add: http1_only_def)

lemma http1_options: "\<not> fl_enableHTTP2 fl \<Longrightarrow> http1_only (NewManager (ctrl_options fl ww mw))"
  by (simp add: http1_only_def ctrl_options_def metrics_server_options_def with_certificate_def tlsOpts_def serve_with_def split: option.splits)

abbreviation http1 :: "nat boot \<Rightarrow> bool" where
  "http1 p \<equiv> meets (only http1_only) p (\<lambda>_ _. True) ()"

lemma http1_watcher: "http1 k \<Longrightarrow> http1 (add_watcher w k)"
  by (cases w) (simp_all add: add_watcher_def or_exit_only)

lemma http1_webhook: "http1 k \<Longrightarrow> http1 (with_webhook wh k)"
  by (auto simp: with_webhook_def getenv_def intro!: or_exit_only split: boot_resp.splits)

lemma http1_cert: "(\<And>w. http1 (q w)) \<Longrightarrow> http1 (cert_watcher_for path name key q)"
  by (simp add: cert_watcher_for_def or_exit_only)

lemma http1_valkey: "http1 k \<Longrightarrow> http1 (or_exit (NewValKeyClient h p) k)"
  by (simp add: or_exit_def NewValKeyClient_def attempt_def split: option.split boot_resp.split)

lemma http1_start: "http1 start_manager"
  unfolding start_manager_def by (intro or_exit_only) simp_all

lemma main_http1:
  assumes "\<not> fl_enableHTTP2 fl"
  shows "http1 (main_with fl)"
  unfolding main_with_def register_components_def
  by (intro http1_cert, rule or_exit_only, simp, rule or_exit_only, rule http1_options [OF assms], rule http1_valkey, rule or_exit_only, simp,
      rule http1_webhook, rule or_exit_only, simp, intro http1_webhook http1_watcher http1_start)

text \<open>HTTP/2 stays off unless it is asked for. When no argument of the command line names \<open>enable-http2\<close>, the TLS options handed
  to the manager make both servers, for webhooks and for metrics, offer HTTP/1.1 only, with or without certificate watchers and whatever the
  configuration they start from.\<close>

theorem http2_only_on_request:
  assumes "\<forall>s \<in> set args. \<not> names_flag ''enable-http2'' s"
    and "NewManager o1 \<in> set (issued (boot_process other args) rs)"
  shows "tc_NextProtos (serve_with (mg_WebhookTLSOpts o1) c) = [''http/1.1''] \<and>
    tc_NextProtos (serve_with (mo_TLSOpts (mg_Metrics o1)) c) = [''http/1.1'']"
proof -
  have "meets (only http1_only) (main other args) (\<lambda>_ _. True) ()"
    using Parse_http2 [OF _ assms(1), of other default_flags]
    by (auto simp: main_def default_flags_def main_http1 split: parsed.splits)
  then have "meets (only http1_only) (boot_process other args) (\<lambda>_ _. True) ()"
    by (auto simp: boot_process_def init_def attempt_def split: boot_resp.splits option.splits)
  from only_issued [OF this, of rs] assms(2) have "http1_only (NewManager o1)" by (auto simp: list_all_iff)
  then show ?thesis by (simp add: http1_only_def)
qed

text \<open>A start with a certificate for the webhooks.\<close>

abbreviation sample_args :: "string list" where
  "sample_args \<equiv> [''--webhook-cert-path=/certs'']"

abbreviation sample_flags :: boot_flags where
  "sample_flags \<equiv> default_flags\<lparr>fl_webhookCertPath := ''/certs''\<rparr>"

lemma sample_Parse: "Parse (\<lambda>_. None) default_flags sample_args = Parsed sample_flags"
  by code_simp

definition sample_watcher :: cert_watcher where
  "sample_watcher = (''/certs/tls.crt'', ''/certs/tls.key'')"

lemma sample_Join: "Join ''/certs'' ''tls.crt'' = ''/certs/tls.crt''" "Join ''/certs'' ''tls.key'' = ''/certs/tls.key''"
  by code_simp+

definition sample_boot :: "(boot_call \<times> boot_resp) list" where
  "sample_boot = [(AddToScheme ''client-go'', BOk), (AddToScheme ''checks.funk.fhnw.ch/v1alpha1'', BOk),
     (NewCertWatcher (fst sample_watcher) (snd sample_watcher), BOk), (GetConfig, BOk),
     (NewManager (ctrl_options sample_flags (Some sample_watcher) None), BOk), (NewValkey ''valkey:6379'', BOk), (ValkeyPing, BOk),
     (Complete workload_controller, BOk), (Getenv ''ENABLE_WEBHOOKS'', BString ''''), (CompleteWebhook workload_webhook, BOk),
     (Complete namespace_controller, BOk), (Getenv ''ENABLE_WEBHOOKS'', BString ''''), (CompleteWebhook namespace_webhook, BOk),
     (AddRunnable sample_watcher, BOk), (AddHealthzCheck ''healthz'', BOk), (AddReadyzCheck ''readyz'', BOk)]"

lemma sample_run: "drive (boot_process (\<lambda>_. None) sample_args) (map snd sample_boot @ [BOk]) = (sample_boot @ [(StartManager, BOk)], Returned 0)"
proof -
  have fl: "fl_webhookCertPath sample_flags = ''/certs''" "fl_webhookCertName sample_flags = ''tls.crt''" "fl_webhookCertKey sample_flags = ''tls.key''"
    "fl_metricsCertPath sample_flags = ''''" "fl_valkeyHost sample_flags = ''valkey''" "fl_valkeyPort sample_flags = ''6379''"
    by (simp_all add: default_flags_def)
  show ?thesis
    unfolding boot_process_def main_def sample_Parse
    by (simp add: init_def attempt_def main_with_def fl cert_watcher_for_def or_exit_def NewValKeyClient_def register_components_def
        with_webhook_def getenv_def add_watcher_def start_manager_def sample_boot_def sample_watcher_def sample_Join
        del: boot_flags.update_convs)
qed

lemma manager_starts_last_witness: "configured sample_flags sample_boot \<and> under_way sample_boot"
  using manager_starts_last [OF sample_Parse sample_run [folded append_Cons, simplified]] by simp


lemma http2_only_on_request_witness:
  "tc_NextProtos (serve_with (mg_WebhookTLSOpts (ctrl_options sample_flags (Some sample_watcher) None))
     \<lparr>tc_NextProtos = [''h2'', ''http/1.1''], tc_GetCertificate = None\<rparr>) = [''http/1.1'']"
proof -
  have args: "\<forall>s \<in> set sample_args. \<not> names_flag ''enable-http2'' s" by code_simp
  have "NewManager (ctrl_options sample_flags (Some sample_watcher) None) \<in> set (issued (boot_process (\<lambda>_. None) sample_args) (map snd sample_boot @ [BOk]))"
    unfolding issued_def sample_run by (simp add: sample_boot_def)
  from http2_only_on_request [OF args this] show ?thesis by blast
qed

end
