(* ===== verification/Schema.thy ===== *)
theory Schema
  imports Operator Progress
begin

text \<open>
  What the CRDs of \<^verbatim>\<open>config/crd/bases\<close> ask of the status the operator writes: the API server rejects a status update whose
  conditions do not have the form of \<open>metav1.Condition\<close>. Every status the operator writes has it, whatever the interleaving.
\<close>

section \<open>The form of a condition\<close>

definition lower :: "char \<Rightarrow> bool" where
  "lower c = (let n = (of_char c :: nat) in 97 \<le> n \<and> n \<le> 122)"

definition letter :: "char \<Rightarrow> bool" where
  "letter c = (let n = (of_char c :: nat) in 65 \<le> n \<and> n \<le> 90 \<or> 97 \<le> n \<and> n \<le> 122)"

definition digit :: "char \<Rightarrow> bool" where
  "digit c = (let n = (of_char c :: nat) in 48 \<le> n \<and> n \<le> 57)"

text \<open>\<open>^[A-Za-z]([A-Za-z0-9_,:]*[A-Za-z0-9_])?$\<close>\<close>

definition reason_ok :: "string \<Rightarrow> bool" where
  "reason_ok s \<longleftrightarrow> s \<noteq> [] \<and> letter (hd s) \<and>
     (\<forall>c \<in> set (tl s). letter c \<or> digit c \<or> c \<in> {CHR ''_'', CHR '','', CHR '':''}) \<and>
     (letter (last s) \<or> digit (last s) \<or> last s = CHR ''_'') \<and> length s \<le> 1024"

text \<open>\<open>^([a-z0-9]([-a-z0-9]*[a-z0-9])?(\.[a-z0-9]([-a-z0-9]*[a-z0-9])?)*/)?(([A-Za-z0-9][-A-Za-z0-9_.]*)?[A-Za-z0-9])$\<close>\<close>

fun split_on :: "char \<Rightarrow> string \<Rightarrow> string list" where
  "split_on c [] = [[]]"
| "split_on c (d # s) = (if d = c then [] # split_on c s
     else (case split_on c s of [] \<Rightarrow> [[d]] | w # ws \<Rightarrow> (d # w) # ws))"

definition label_ok :: "string \<Rightarrow> bool" where
  "label_ok s \<longleftrightarrow> s \<noteq> [] \<and> (\<forall>c \<in> set s. lower c \<or> digit c \<or> c = CHR ''-'') \<and> hd s \<noteq> CHR ''-'' \<and> last s \<noteq> CHR ''-''"

definition word_ok :: "string \<Rightarrow> bool" where
  "word_ok s \<longleftrightarrow> s \<noteq> [] \<and> (\<forall>c \<in> set s. letter c \<or> digit c \<or> c \<in> {CHR ''-'', CHR ''_'', CHR ''.''}) \<and>
     (letter (hd s) \<or> digit (hd s)) \<and> (letter (last s) \<or> digit (last s))"

definition type_ok :: "string \<Rightarrow> bool" where
  "type_ok s \<longleftrightarrow> length s \<le> 316 \<and> (case split_on (CHR ''/'') s of
     [w] \<Rightarrow> word_ok w | [p, w] \<Rightarrow> list_all label_ok (split_on (CHR ''.'') p) \<and> word_ok w | _ \<Rightarrow> False)"

definition condition_ok :: "Condition \<Rightarrow> bool" where
  "condition_ok c \<longleftrightarrow> type_ok (cond_Type c) \<and> reason_ok (cond_Reason c)"

definition conditions_ok :: "Condition list \<Rightarrow> bool" where
  "conditions_ok cs \<longleftrightarrow> (\<forall>c \<in> set cs. condition_ok c) \<and> distinct (map cond_Type cs)"

text \<open>A status: well-formed conditions, at most one of a type, and check runs each filed under its own name.\<close>

definition keyed :: "(string \<times> CheckRun) list \<Rightarrow> bool" where
  "keyed m \<longleftrightarrow> distinct (map fst m) \<and> (\<forall>(k, r) \<in> set m. k = cr_Name r)"

lemma keyed_put: "keyed m \<Longrightarrow> keyed (map_put (cr_Name r) r m)"
proof -
  have "x = (cr_Name r, r) \<or> x \<in> set m" if "x \<in> set (map_put (cr_Name r) r m)" for x
    using that by (induction m) (auto split: if_splits)
  then show "keyed m \<Longrightarrow> keyed (map_put (cr_Name r) r m)"
    unfolding keyed_def by (intro conjI distinct_map_put ballI) (simp, fastforce)
qed

definition whc_ok :: "Whc \<Rightarrow> bool" where
  "whc_ok x \<longleftrightarrow> conditions_ok (conds x) \<and> keyed (wst_CheckRuns (whc_Status x))"

definition nhc_ok :: "Nhc \<Rightarrow> bool" where
  "nhc_ok x \<longleftrightarrow> conditions_ok (nconds x)"

lemma split_on_absent: "c \<notin> set s \<Longrightarrow> split_on c s = [s]"
  by (induction s) auto

lemma letter_not_slash: "letter c \<Longrightarrow> c \<noteq> CHR ''/''"
  by (auto simp: letter_def)

lemma letters_type: "list_all letter s \<Longrightarrow> s \<noteq> [] \<Longrightarrow> length s \<le> 316 \<Longrightarrow> type_ok s"
  using split_on_absent [of "CHR ''/''" s] letter_not_slash
  by (cases s) (fastforce simp: type_ok_def word_ok_def list_all_iff)+

lemma letters_reason: "list_all letter s \<Longrightarrow> s \<noteq> [] \<Longrightarrow> length s \<le> 1024 \<Longrightarrow> reason_ok s"
  by (cases s) (auto simp: reason_ok_def list_all_iff)

text \<open>The types and reasons of the code.\<close>

lemma types_ok [simp]: "type_ok ConditionTypePreparation" "type_ok ConditionTypeBaseline" "type_ok ConditionTypeFinalCheck"
  "type_ok ConditionTypeAnalysis" "type_ok ConditionTypeFinished"
  by (code_simp+)

lemma reasons_ok [simp]:
  "reason_ok ReasonSuccess" "reason_ok ReasonFailed" "reason_ok ReasonRequeue" "reason_ok ReasonBaselineRecording"
  "reason_ok ReasonBaselineRecordingFailed" "reason_ok ReasonBaselineRecordingFinished" "reason_ok ReasonCheckRecording"
  "reason_ok ReasonCheckNotStarted" "reason_ok ReasonCheckRecordingFailed" "reason_ok ReasonCheckRecordingFinished"
  "reason_ok ReasonAnalysisRunning" "reason_ok ReasonAnalysisFailed" "reason_ok ReasonAnalysisFinished"
  "reason_ok ReasonTargetNamespaceNotFound" "reason_ok ReasonNamespaceInProgress" "reason_ok ReasonWorkloadChecksCreated"
  "reason_ok ConditionTypeFinished" "reason_ok ConditionTypeFinalCheck" "reason_ok ConditionTypePreparation"
  "reason_ok ''FinalCheckFailed''" "reason_ok (''Final'' @ ReasonCheckRecording)"
  by (code_simp+)

text \<open>\<open>cases.Title\<close> turns a word of letters into a word of as many letters.\<close>

definition titles_letters :: "lib \<Rightarrow> bool" where
  "titles_letters L \<longleftrightarrow> (\<forall>s. list_all letter s \<longrightarrow> list_all letter (lib_title L s) \<and> length (lib_title L s) = length s)"

lemma GetType_letters: "list_all letter (GetType c) \<and> length (GetType c) \<le> 24"
  by (cases c) (simp_all, code_simp+)

lemma check_condition_ok:
  assumes "titles_letters L"
  shows "type_ok (check_condition L (GetType c))"
proof -
  have check: "list_all letter ConditionTypeCheck" by code_simp
  from assms GetType_letters [of c] have title: "list_all letter (lib_title L (GetType c))" "length (lib_title L (GetType c)) \<le> 24"
    by (auto simp: titles_letters_def)
  show ?thesis
    unfolding check_condition_def
    by (rule letters_type) (use check title in \<open>simp_all only: list_all_append length_append\<close>, simp_all)
qed

section \<open>Setting a condition\<close>

text \<open>\<open>meta.SetStatusCondition\<close> sets the condition it is given, up to the transition time, and keeps the others; a type it finds it replaces.\<close>

definition sets_one_condition :: "lib \<Rightarrow> bool" where
  "sets_one_condition L \<longleftrightarrow> (\<forall>cs c t. distinct (map cond_Type cs) \<longrightarrow>
     distinct (map cond_Type (lib_SetStatusCondition L cs c t)) \<and>
     (\<forall>d \<in> set (lib_SetStatusCondition L cs c t). d \<in> set cs \<or> (\<exists>t'. d = c\<lparr>cond_LastTransitionTime := t'\<rparr>)))"

lemma set_condition_ok: "sets_one_condition L \<Longrightarrow> conditions_ok cs \<Longrightarrow> condition_ok c \<Longrightarrow> conditions_ok (lib_SetStatusCondition L cs c t)"
  unfolding conditions_ok_def sets_one_condition_def condition_ok_def by (fastforce simp del: map_eq_conv)

lemma remaining_ok: "conditions_ok cs \<Longrightarrow> conditions_ok (remaining_conditions cs)"
proof -
  have eq: "remaining_conditions cs = filter (\<lambda>c. cond_Type c \<in> {ConditionTypeFinished, ConditionTypeAnalysis}) cs" for cs
    by (induction cs) (auto simp: remaining_conditions_def)
  show "conditions_ok cs \<Longrightarrow> conditions_ok (remaining_conditions cs)"
    unfolding eq conditions_ok_def by (auto simp: distinct_map_filter)
qed

lemma mk_condition_ok [simp]: "condition_ok (mk_condition ty st re me) \<longleftrightarrow> type_ok ty \<and> reason_ok re"
  by (simp add: condition_ok_def)

section \<open>The contract\<close>

definition run_type :: "string \<Rightarrow> bool" where
  "run_type t \<longleftrightarrow> t \<in> {''baseline'', ''baseline-2'', ''Final''} \<or> t \<in> range GetType"

definition write_ok :: "call \<Rightarrow> bool" where
  "write_ok c = (case c of
     UpdateWhcStatus x \<Rightarrow> whc_ok x | CreateWhc x \<Rightarrow> whc_ok x | UpdateNhcStatus x \<Rightarrow> nhc_ok x
   | GoRunCheck w t sc \<Rightarrow> whc_ok w \<and> run_type t | _ \<Rightarrow> True)"

definition answer_ok :: "resp \<Rightarrow> bool" where
  "answer_ok r = (case r of RWhc x \<Rightarrow> whc_ok x | RNhc x \<Rightarrow> nhc_ok x | _ \<Rightarrow> True)"

definition schema :: "(unit, call, resp) contract" where
  "schema = \<lparr>rg_may = (\<lambda>_. write_ok), rg_ans = (\<lambda>_ _. answer_ok), rg_next = (\<lambda>_ _ _. ()), rg_crash = (\<lambda>_. True)\<rparr>"

lemma schema_simps [simp]: "rg_may schema s c \<longleftrightarrow> write_ok c" "rg_ans schema s c r \<longleftrightarrow> answer_ok r" "rg_next schema s c r = ()" "rg_crash schema e"
  by (simp_all add: schema_def)

abbreviation conforms :: "'a io \<Rightarrow> bool" where
  "conforms p \<equiv> meets schema p (\<lambda>_ _. True) ()"

lemma write_ok_simps [simp]:
  "write_ok (UpdateWhcStatus x) \<longleftrightarrow> whc_ok x" "write_ok (CreateWhc x) \<longleftrightarrow> whc_ok x" "write_ok (UpdateNhcStatus y) \<longleftrightarrow> nhc_ok y"
  "write_ok (GoRunCheck w t sc) \<longleftrightarrow> whc_ok w \<and> run_type t"
  "write_ok (GetWhc a b)" "write_ok (ListWhcs a)" "write_ok (GetNhc a)" "write_ok (GetWorkload kd a b)" "write_ok (UpdateWorkload wl)"
  "write_ok (AsSelector sel)" "write_ok (ListPods a sel)" "write_ok (GetNamespace a)" "write_ok (CreateNamespace nn)" "write_ok (DeleteNamespace a)"
  "write_ok (ListNamespaces ls)" "write_ok ListClusterRoleBindings" "write_ok (CreateClusterRoleBinding cb)" "write_ok (DeleteClusterRoleBinding a)"
  "write_ok (ListResources a b a' b')" "write_ok (CreateResource u)" "write_ok (PodLogs a b a' pv)" "write_ok (RecordMetrics a sel d)"
  "write_ok (KvSet a b d)" "write_ok (KvGet a)" "write_ok (KvDel a)" "write_ok Now" "write_ok (Sleep d)" "write_ok (RandString d)"
  "write_ok (RandIntn d)" "write_ok MapOrder" "write_ok (RetryAgain e)" "write_ok (Event a b a')"
  by (simp_all add: write_ok_def)

lemma answer_ok_simps [simp]: "answer_ok (RWhc x) \<longleftrightarrow> whc_ok x" "answer_ok (RNhc y) \<longleftrightarrow> nhc_ok y"
  by (simp_all add: answer_ok_def)

text \<open>How conformance goes through a program.\<close>

lemma conforms_quiet: "calls_only write_ok p \<Longrightarrow> conforms p"
  by (rule calls_only_meets) simp_all

lemma conforms_bind: "conforms p \<Longrightarrow> (\<And>a. conforms (f a)) \<Longrightarrow> conforms (pbind p f)"
  unfolding meets_pbind by (rule meets_mono) simp_all

lemma conforms_ensures: "conforms p \<Longrightarrow> ensures P p \<Longrightarrow> meets schema p (\<lambda>_. P) ()"
  unfolding ensures_def by (induction p) auto

lemma conforms_bind_ensures:
  assumes "conforms p" and "ensures P p" and "\<And>a. P a \<Longrightarrow> conforms (f a)"
  shows "conforms (pbind p f)"
  unfolding meets_pbind by (rule meets_mono [OF conforms_ensures [OF assms(1,2)]]) (simp add: assms(3))

lemma conforms_fetch_whc:
  "(\<And>x. whc_ok x \<Longrightarrow> conforms (f (Inr x))) \<Longrightarrow> (\<And>e. conforms (f (Inl e))) \<Longrightarrow> conforms (pbind (get_whc a b) f)"
  by (auto simp: meets_ask or_err_def as_whc_def split: resp.splits option.splits)

lemma conforms_fetch_nhc:
  "(\<And>x. nhc_ok x \<Longrightarrow> conforms (f (Inr x))) \<Longrightarrow> (\<And>e. conforms (f (Inl e))) \<Longrightarrow> conforms (pbind (get_nhc a) f)"
  by (auto simp: meets_ask or_err_def as_nhc_def split: resp.splits option.splits)


lemma conforms_pfold: "(\<And>x s. x \<in> set xs \<Longrightarrow> conforms (f x s)) \<Longrightarrow> conforms (pfold f xs s)"
  by (rule meets_pfold [where I = "\<lambda>_ _. True", simplified]) auto

lemma conforms_retry: "(\<And>x. conforms (fn x)) \<Longrightarrow> conforms (RetryOnConflict retry_again n fn x)"
  by (induction n arbitrary: x) (auto simp: meets_ask split: prod.splits option.splits intro!: meets_mono [where Q = "\<lambda>_ _. True"])

lemma conforms_if: "(b \<Longrightarrow> conforms p) \<Longrightarrow> (\<not> b \<Longrightarrow> conforms q) \<Longrightarrow> conforms (if b then p else q)"
  by simp

lemma conforms_ask: "write_ok c \<Longrightarrow> (\<And>a. conforms (f a)) \<Longrightarrow> conforms (pbind (ask c dec) f)"
  by (rule conforms_bind [OF conforms_quiet]) simp_all

lemma conforms_lift: "(\<And>a. x = Inr a \<Longrightarrow> conforms (f a)) \<Longrightarrow> conforms (pbind (lift_go x) f)"
  by (cases x) simp_all

lemma quiet_then: "calls_only write_ok p \<Longrightarrow> (\<And>a. conforms (f a)) \<Longrightarrow> conforms (pbind p f)"
  by (rule conforms_bind [OF conforms_quiet])

section \<open>What writes no status\<close>

lemma free_write: "free_call c \<Longrightarrow> write_ok c"
  by (cases c) (simp_all add: free_call_def)

lemma free_quiet: "calls_only free_call p \<Longrightarrow> calls_only write_ok p"
  by (erule calls_only_mono) (rule free_write)

lemma quiet_questions [simp]:
  "calls_only write_ok (refreshWorkloadHardeningCheck m)" "calls_only write_ok (ask_reason L ty st rs m)"
  unfolding ask_reason_def refreshWorkloadHardeningCheck_def by (auto intro!: calls_intros)

lemma quiet_recorded [simp]:
  "calls_only write_ok (BaselineRecorded L m)" "calls_only write_ok (BaselineInProgress L m)" "calls_only write_ok (FinalCheckRecorded L m)"
  "calls_only write_ok (FinalCheckInProgress L m)" "calls_only write_ok (CheckRecorded L t m)" "calls_only write_ok (CheckInProgress L t m)"
  by (simp_all add: recorded_defs)

lemma quiet_overdue [simp]:
  "calls_only write_ok (BaselineOverdue L m)" "calls_only write_ok (FinalCheckOverdue L m)" "calls_only write_ok (CheckOverdue L t m)"
  unfolding BaselineOverdue_def FinalCheckOverdue_def CheckOverdue_def ask_overdue_def by (auto intro!: calls_intros)

lemma quiet_readings [simp]:
  "calls_only write_ok (GetWorkloadUnderTest m ns)" "calls_only write_ok (GetLabelSelector m)" "calls_only write_ok (VerifyReadiness w)"
  "calls_only write_ok (GetReplicaCount m ns)" "calls_only write_ok (namespaceExists n)" "calls_only write_ok (recordLogs fuel ns prev sel)"
  "calls_only write_ok (recordMetrics ns sel r)" "calls_only write_ok (map_orders k)"
  by (rule free_quiet, rule free_programs free_recordLogs free_recordMetrics free_map_orders)+

lemma quiet_all_recorded [simp]: "calls_only write_ok (all_recorded L ts m)"
  by (induction ts arbitrary: m) (auto intro!: calls_intros)

lemma quiet_template [simp]: "calls_only write_ok (GetPodSpecTemplate m ns)"
  unfolding GetPodSpecTemplate_def by (auto intro!: calls_intros)

section \<open>Condition writes\<close>

text \<open>A fetched object, changed and written back.\<close>

lemma fetch_write_conforms:
  assumes "\<And>x. whc_ok x \<Longrightarrow> whc_ok (f x)"
  shows "conforms (pbind (get_whc a b) (\<lambda>r. case r of Inl e \<Rightarrow> Ret (g e) | Inr x \<Rightarrow>
    pbind (update_whc_status (f x)) (\<lambda>e. Ret (h e (f x)))))"
  by (rule conforms_fetch_whc) (simp_all del: meets_pbind add: conforms_ask assms)

locale schema_library =
  fixes L :: lib
  assumes sets: "sets_one_condition L" and titles: "titles_letters L" and conv: "service_conversion L"
begin

lemma with_condition_ok: "whc_ok x \<Longrightarrow> condition_ok c \<Longrightarrow> whc_ok (with_conditions (lib_SetStatusCondition L (conds x) c t) x)"
  by (simp add: whc_ok_def set_condition_ok [OF sets])

lemma SetCondition_conforms: "condition_ok c \<Longrightarrow> conforms (SetCondition L c m)"
  unfolding SetCondition_def SetCondition_attempt_def Let_def
  by (intro conforms_retry conforms_fetch_whc) (simp_all del: meets_pbind add: conforms_ask with_condition_ok)

lemma RemoveCheckConditions_conforms: "conforms (RemoveCheckConditions L m)"
  unfolding RemoveCheckConditions_def RemoveCheckConditions_attempt_def Let_def
  by (intro conforms_retry conforms_fetch_whc) (simp_all del: meets_pbind add: conforms_ask whc_ok_def remaining_ok)

lemma set_cond_conforms: "type_ok ty \<Longrightarrow> reason_ok re \<Longrightarrow> conforms (set_cond L ty st re me m)"
  unfolding set_cond_def by (rule conforms_bind, rule SetCondition_conforms) auto

lemma set_then: "type_ok ty \<Longrightarrow> reason_ok re \<Longrightarrow> (\<And>m. conforms (f m)) \<Longrightarrow> conforms (pbind (set_cond L ty st re me m) f)"
  by (rule conforms_bind [OF set_cond_conforms])

lemma require_conforms: "conforms (require_check L w c s)"
  unfolding require_check_def Let_def
  by (auto simp del: meets_pbind split: prod.splits
      intro!: conforms_lift conforms_bind [OF SetCondition_conforms] simp: check_condition_ok [OF titles])

lemma GetRequiredCheckRuns_conforms: "conforms (GetRequiredCheckRuns L m)"
  unfolding GetRequiredCheckRuns_def
  by (rule quiet_then, simp) (auto simp del: meets_pbind split: sum.splits prod.splits
      intro!: conforms_ask conforms_bind [OF conforms_pfold] require_conforms)

lemma AllChecksFinished_conforms: "conforms (AllChecksFinished L m)"
  unfolding AllChecksFinished_def
  by (rule quiet_then, simp, rule quiet_then, simp)
    (auto simp del: meets_pbind split: prod.splits intro!: conforms_bind [OF GetRequiredCheckRuns_conforms] intro: conforms_quiet [OF quiet_all_recorded])

lemma SetRecommendation_conforms: "conforms (SetRecommendation L m)"
proof -
  have quiet: "calls_only write_ok (pfold merge_context cs st)" for cs st
    unfolding merge_context_def by (auto intro!: calls_intros split: prod.splits)
  have attempt: "conforms (SetRecommendation_attempt r m)" for r m
    unfolding SetRecommendation_attempt_def Let_def
    by (rule fetch_write_conforms [where h = Pair]) (simp add: whc_ok_def set_recommendation_def)
  have rest: "conforms (case r of Inl e \<Rightarrow> Ret (Some (Errorf msg (Some e)), m) | Inr p \<Rightarrow> pbind map_order (\<lambda>\<sigma>'.
      pbind (pfold merge_context (arrange \<sigma>' cs) (st p)) (\<lambda>(psc, sc).
      pbind (RetryOnConflict retry_again (lib_retries L) (SetRecommendation_attempt (k psc sc)) m) (\<lambda>(e, m'). Ret (q e, m')))))" for r msg cs st k q
  proof (cases r)
    case (Inr p)
    have "conforms (case x of (psc, sc) \<Rightarrow> pbind (RetryOnConflict retry_again (lib_retries L) (SetRecommendation_attempt (k psc sc)) m)
        (\<lambda>(e, m'). Ret (q e, m')))" for x
      by (cases x) (simp del: meets_pbind, rule conforms_bind [OF conforms_retry [OF attempt]], simp split: prod.splits)
    then show ?thesis
      by (simp add: Inr del: meets_pbind) (intro conforms_ask quiet_then quiet, simp_all)
  qed simp
  show ?thesis
    unfolding SetRecommendation_def Let_def
    by (rule conforms_ask, simp, rule quiet_then, simp, rule rest)
qed

lemma quiet_analysis [simp]:
  "calls_only write_ok (GetRecording L key)" "calls_only write_ok (load_baseline D F L m b st)" "calls_only write_ok (analyze_container D c st')"
  "calls_only write_ok (analyze_runs D F L m mo rs st'')"
proof -
  show get: "calls_only write_ok (GetRecording L key)" for key
    unfolding GetRecording_def getEntry_def by (intro calls_intros) (auto intro!: calls_intros)
  then show "calls_only write_ok (load_baseline D F L m b st)"
    unfolding load_baseline_def by (auto intro!: calls_intros split: prod.splits sum.splits option.splits)
  show container: "calls_only write_ok (analyze_container D c st')" for c st'
    unfolding analyze_container_def anomaly_lines_def Let_def by (auto intro!: calls_intros split: prod.splits option.splits)
  show "calls_only write_ok (analyze_runs D F L m mo rs st'')"
  proof (induction rs arbitrary: st'')
    case (Cons r rs)
    have "calls_only write_ok (analyze_run D F L m mo r st)" for st
      unfolding analyze_run_def Let_def by (auto intro!: calls_intros get container split: prod.splits sum.splits option.splits)
    then show ?case unfolding analyze_runs.simps by (rule calls_only_pbind) (simp add: Cons.IH)
  qed (simp add: case_prod_beta)
qed

lemma analyze_runs_keyed:
  "keyed updated \<Longrightarrow> ensures (\<lambda>res. \<forall>u. res = Inr u \<longrightarrow> keyed u) (analyze_runs D F L m mo rs (oracles, updated))"
proof (induction rs arbitrary: oracles updated)
  case (Cons r rs)
  have "ensures (\<lambda>res. \<forall>o' u. res = Inr (o', u) \<longrightarrow> keyed u) (analyze_run D F L m mo r (oracles, updated))"
    unfolding analyze_run_def using Cons.prems
    by (auto simp: Let_def split: sum.splits option.splits prod.splits
        intro!: ensures_mono [OF ensures_True] keyed_put [where r = "r'\<lparr>cr_CheckSuccessfull := a, cr_CpuDeviation := b, cr_MemoryDeviation := c\<rparr>" for r' a b c, simplified])
  then show ?case
    by (simp, elim ensures_mono) (auto split: sum.splits intro: Cons.IH)
qed simp

lemma AnalyzeCheckRuns_conforms: "conforms (AnalyzeCheckRuns D F L m)"
proof -
  have attempt: "conforms (UpdateCheckRuns_attempt u m)" if "keyed u" for u m
    using that unfolding UpdateCheckRuns_attempt_def Let_def
    by (intro conforms_fetch_whc) (simp_all del: meets_pbind add: conforms_ask whc_ok_def set_check_runs_def)
  have runs: "conforms (pbind (analyze_runs D F L m mo rs (oracles, [])) (\<lambda>r. case r of
      Inl e \<Rightarrow> Ret (Some e, m) | Inr updated \<Rightarrow> RetryOnConflict retry_again n (UpdateCheckRuns_attempt updated) m))" for mo rs oracles n
  proof (rule conforms_bind_ensures [OF conforms_quiet [OF quiet_analysis(4)] analyze_runs_keyed])
    show "keyed []" by (simp add: keyed_def)
    show "conforms (case r of Inl e \<Rightarrow> Ret (Some e, m) | Inr updated \<Rightarrow> RetryOnConflict retry_again n (UpdateCheckRuns_attempt updated) m)"
      if "\<forall>u. r = Inr u \<longrightarrow> keyed u" for r
      using that by (cases r) (simp_all add: conforms_retry attempt)
  qed
  show ?thesis
    unfolding AnalyzeCheckRuns_def Let_def
    by (auto simp del: meets_pbind split: sum.splits option.splits prod.splits intro!: quiet_then [OF quiet_analysis(2)] conforms_ask runs)
qed

end

section \<open>A pass of the workload controller\<close>

lemma baseline_types [simp]: "run_type ''baseline''" "run_type ''baseline-2''" "run_type ''Final''" "t \<in> range GetType \<Longrightarrow> run_type t"
  by (simp_all add: run_type_def)

context schema_library begin

lemma may_start_conforms: "t \<in> range GetType \<Longrightarrow> conforms (may_start L msg t m)"
  unfolding may_start_def
  by (rule quiet_then, simp) (auto simp del: meets_pbind simp: check_condition_ok [OF titles] split: prod.splits
      intro!: quiet_then [OF quiet_recorded(6)] quiet_then [OF quiet_overdue(3)] set_then)

lemma start_conforms: "whc_ok whc \<Longrightarrow> run_type t \<Longrightarrow> conforms (start_check whc t m)"
  unfolding start_check_def by (auto simp del: meets_pbind split: prod.splits intro!: conforms_lift conforms_ask)

lemma round_conforms: "whc_ok whc \<Longrightarrow> t \<in> range GetType \<Longrightarrow> conforms (parallel_round L whc t m)"
  unfolding parallel_round_def
  by (rule conforms_bind [OF may_start_conforms]) (auto split: prod.splits intro!: start_conforms)

lemma sequential_conforms: "whc_ok whc \<Longrightarrow> set ts \<subseteq> range GetType \<Longrightarrow> conforms (sequential_loop L whc ts m)"
proof (induction ts arbitrary: m)
  case (Cons t ts)
  then have t: "t \<in> range GetType" by simp
  show ?case
    unfolding sequential_loop.simps
    by (rule conforms_bind [OF may_start_conforms [OF t]])
      (use Cons t in \<open>auto simp del: meets_pbind split: prod.splits intro!: conforms_bind [OF start_conforms]\<close>)
qed simp

lemma recordChecks_conforms:
  assumes "whc_ok whc"
  shows "conforms (recordChecks L whc m)"
  unfolding recordChecks_def
proof (rule conforms_bind_ensures [OF GetRequiredCheckRuns_conforms GetRequiredCheckRuns_known])
  fix a :: "string list \<times> Whc"
  assume a: "case a of (types, m') \<Rightarrow> distinct types \<and> set types \<subseteq> range GetType"
  then show "conforms (case a of (requiredChecks, m) \<Rightarrow>
     pbind (set_cond L ConditionTypeFinished ConditionFalse ReasonCheckRecording ''Check recording started'' m) (\<lambda>m.
       if ws_RunMode (whc_Spec whc) = RunModeParallel
       then pbind (pfold (parallel_round L whc) requiredChecks m) (\<lambda>m. Ret (duration_add (GetCheckDuration m) (10 * second), None))
       else sequential_loop L whc requiredChecks m))"
    by (cases a) (auto simp del: meets_pbind intro!: set_then conforms_if conforms_bind [OF conforms_pfold] round_conforms sequential_conforms assms)
qed

lemma recordBaseline_conforms: "whc_ok whc \<Longrightarrow> conforms (recordBaseline L whc m)"
  unfolding recordBaseline_def by (intro conforms_ask set_then) simp_all

lemma recording_conforms:
  assumes "whc_ok whc"
  shows "conforms (reconcile_recording L whc m)"
proof -
  note later = recordBaseline_conforms [OF assms] recordChecks_conforms [OF assms] set_then conforms_bind [OF AllChecksFinished_conforms]
  show ?thesis
    unfolding reconcile_recording_def Let_def
    by (rule quiet_then, simp) (auto simp del: meets_pbind split: prod.splits intro!: conforms_if quiet_then [OF quiet_overdue(1)]
        quiet_then [OF quiet_recorded(1)] later set_cond_conforms conforms_bind [where f = "\<lambda>m. Ret (g m)" for g])
qed

lemma final_conforms:
  assumes "whc_ok whc"
  shows "conforms (reconcile_final L whc m)"
proof -
  have final: "reason_ok (''Final'' @ ReasonCheckRecording)" by (rule reasons_ok)
  show ?thesis
    unfolding reconcile_final_def
    by (rule quiet_then, simp) (auto simp: pbind_assoc simp del: meets_pbind append_Cons append_Nil split: prod.splits intro!: quiet_then [OF quiet_overdue(2)]
        quiet_then [OF quiet_recorded(3)] conforms_ask set_then recording_conforms assms final)
qed

lemma analysis_conforms:
  assumes "whc_ok whc"
  shows "conforms (reconcile_analysis D F L whc m)"
proof -
  have analyze: "conforms (analyze_results D F L m)" for m
    unfolding analyze_results_def
    by (rule set_then, simp, simp, rule set_then, simp, simp, rule conforms_bind [OF AnalyzeCheckRuns_conforms])
      (auto simp del: meets_pbind split: prod.splits option.splits intro!: set_then conforms_bind [OF SetRecommendation_conforms])
  show ?thesis
    unfolding reconcile_analysis_def
    by (rule conforms_bind [OF AllChecksFinished_conforms])
      (auto simp del: meets_pbind split: prod.splits option.splits
        intro!: conforms_bind [OF analyze] conforms_bind [OF SetCondition_conforms] final_conforms assms)
qed

lemma cleanup_conforms: "conforms (cleanupReconcileLoop ns)"
  unfolding cleanupReconcileLoop_def Delete_def delete_bindings_def
  by (rule conforms_quiet) (auto intro!: calls_intros)

lemma Reconcile_conforms: "conforms (Reconcile D F L name namespace)"
  unfolding Reconcile_def Let_def
  by (rule conforms_fetch_whc)
    (auto simp del: meets_pbind split: prod.splits option.splits intro!: conforms_if cleanup_conforms quiet_then [OF quiet_recorded(3)]
      conforms_bind [OF SetCondition_conforms] conforms_bind [OF RemoveCheckConditions_conforms] analysis_conforms)

end

section \<open>A pass of the namespace controller\<close>

lemma quiet_resources [simp]:
  "calls_only write_ok (getTopLevelResourcesToCheck L nh)" "calls_only write_ok (GetTopLevelResources L ns)"
  unfolding getTopLevelResourcesToCheck_def GetTopLevelResources_def getAllResources_def list_type_def
  by (auto intro!: calls_intros split: prod.splits)

lemma writeless_Delete [simp]: "calls_only write_ok (Delete t)"
  unfolding Delete_def delete_bindings_def by (auto intro!: calls_intros)

lemma quiet_get [simp]: "calls_only write_ok (NGetWorkloadUnderTest u)" "calls_only write_ok (refresh_workload ns w)"
  unfolding NGetWorkloadUnderTest_def refresh_workload_def by (auto intro!: calls_intros)

lemma quiet_await [simp]: "calls_only write_ok (await_updated fuel w)" "calls_only write_ok (await_running fuel st w)"
proof -
  show "calls_only write_ok (await_updated fuel w)" by (induction fuel arbitrary: w) (auto intro!: calls_intros)
  show "calls_only write_ok (await_running fuel st w)" by (induction fuel arbitrary: w) (auto intro!: calls_intros)
qed

lemma quiet_all_running [simp]: "calls_only write_ok (all_running fuel st us)"
  by (induction us) (auto intro!: calls_intros)

lemma quiet_harden [simp]: "calls_only write_ok (harden_resource fuel nh u x)"
  unfolding harden_resource_def apply_recommendation_def Let_def by (auto intro!: calls_intros)

lemma quiet_final_run [simp]: "calls_only write_ok (final_run L fuel nh t)"
  unfolding final_run_def by (auto intro!: calls_intros)

lemma quiet_Clone: "service_conversion L \<Longrightarrow> calls_only write_ok (Clone L source t suffix)"
  by (rule calls_only_mono [OF Clone_calls [where source = source]]) (auto simp: clone_call_def split: call.splits)

context schema_library begin

lemma nset_conforms: "reason_ok re \<Longrightarrow> conforms (nset L st re me nh)"
  unfolding nset_def NSetCondition_def NSetCondition_attempt_def Let_def
  by (rule conforms_bind, intro conforms_retry conforms_fetch_nhc)
    (auto simp del: meets_pbind simp: nhc_ok_def with_nconditions_def set_condition_ok [OF sets] split: prod.splits intro!: conforms_ask)

lemma nset_conforms_then: "reason_ok re \<Longrightarrow> (\<And>nh. conforms (f nh)) \<Longrightarrow> conforms (pbind (nset L st re me nh) f)"
  by (rule conforms_bind [OF nset_conforms])

lemma create_conforms: "conforms (create_round L nh u cs)"
proof -
  have "whc_ok (new_workload_check nh u rnd)" for rnd
    by (simp add: whc_ok_def new_workload_check_def conditions_ok_def keyed_def)
  then have "calls_only write_ok (create_round L nh u cs)"
    unfolding create_round_def createWorkloadHardeningCheck_def Let_def by (auto intro!: calls_intros)
  then show ?thesis by (rule conforms_quiet)
qed

lemma final_namespace_conforms: "conforms (reconcile_namespace_final L fuel name cs nh)"
proof -
  have finalize: "conforms (Finalize_attempt L name recs nh)" for recs nh
    unfolding Finalize_attempt_def Let_def
    by (rule conforms_fetch_nhc)
      (auto simp del: meets_pbind simp: nhc_ok_def with_nconditions_def set_condition_ok [OF sets] split: prod.splits intro!: conforms_ask)
  have run: "calls_only write_ok (createFinalCheckRun L fuel nh)" for nh
    unfolding createFinalCheckRun_def Let_def by (auto intro!: calls_intros quiet_Clone [OF conv])
  show ?thesis
    unfolding reconcile_namespace_final_def
    by (rule conforms_bind [OF conforms_retry [OF finalize]])
      (auto simp del: meets_pbind split: prod.splits option.splits intro!: quiet_then [OF run] conforms_if nset_conforms_then conforms_bind [OF nset_conforms])
qed

lemma namespace_checks_conforms: "conforms (reconcile_namespace_checks L fuel name us nh)"
proof -
  have count: "conforms (let n = length (finished_checks L cs) in if n \<noteq> length cs
      then pbind (nset L ConditionFalse ReasonNamespaceInProgress (f n) nh) (\<lambda>_. Ret res)
      else reconcile_namespace_final L fuel name cs nh)" for cs f nh and res :: reconcile_result
    unfolding Let_def by (auto simp del: meets_pbind intro!: nset_conforms_then final_namespace_conforms)
  have made: "conforms (if length cs = 0 then Ret nh else pbind (event a b c) (\<lambda>_. nset L ConditionFalse ReasonWorkloadChecksCreated d nh))" for a b c d cs nh
    by (auto simp del: meets_pbind intro!: conforms_ask nset_conforms)
  show ?thesis
    unfolding reconcile_namespace_checks_def
    by (rule conforms_bind [OF conforms_pfold [OF create_conforms]], rule conforms_bind [OF made], rule conforms_ask)
      (auto simp del: meets_pbind split: sum.splits intro: count)
qed

lemma NReconcile_conforms: "conforms (NReconcile L fuel name)"
proof -
  have prepared: "conforms (if b then nset L ConditionFalse ConditionTypePreparation d nh else Ret nh)" for b d nh
    by (simp add: nset_conforms)
  show ?thesis
    unfolding NReconcile_def
    by (rule conforms_fetch_nhc) (auto simp del: meets_pbind split: sum.splits
        intro!: conforms_if conforms_ask nset_conforms_then conforms_bind [OF prepared] quiet_then [OF quiet_resources(1)] namespace_checks_conforms)
qed

end

section \<open>A run\<close>

lemma checks_type_ok:
  assumes "titles_letters L" and "run_type t"
  shows "type_ok (rn_conditionType (NewWorkloadCheckRunner L whc t))"
proof -
  have base: "Contains (ToLower ''baseline'') ''baseline''" "Contains (ToLower ''baseline-2'') ''baseline''" "Contains (ToLower ''Final'') ''final''"
    by code_simp+
  have "rn_conditionType (NewWorkloadCheckRunner L whc t) \<in> {ConditionTypeBaseline, ConditionTypeFinalCheck, check_condition L t}"
    by (auto simp: NewWorkloadCheckRunner_def check_condition_def Let_def)
  moreover have "t \<in> range GetType \<or> rn_conditionType (NewWorkloadCheckRunner L whc t) \<noteq> check_condition L t
      \<or> rn_conditionType (NewWorkloadCheckRunner L whc t) \<in> {ConditionTypeBaseline, ConditionTypeFinalCheck}"
    using assms(2) base by (auto simp: run_type_def NewWorkloadCheckRunner_def Let_def)
  ultimately show ?thesis using check_condition_ok [OF assms(1)] by auto
qed

definition runner_ok :: "runner \<Rightarrow> bool" where
  "runner_ok r \<longleftrightarrow> type_ok (rn_conditionType r) \<and> whc_ok (rn_whc r)"

lemma new_runner_ok: "titles_letters L \<Longrightarrow> run_type t \<Longrightarrow> whc_ok whc \<Longrightarrow> runner_ok (NewWorkloadCheckRunner L whc t)"
  using checks_type_ok [of L t whc] by (simp add: runner_ok_def) (simp add: NewWorkloadCheckRunner_def Let_def)

lemma runner_ok_update [simp]: "runner_ok (r\<lparr>rn_manager := m\<rparr>) \<longleftrightarrow> runner_ok r" "runner_ok (r\<lparr>rn_checkSuccessful := b\<rparr>) \<longleftrightarrow> runner_ok r"
  by (simp_all add: runner_ok_def)

lemma runner_reasons [simp]: "reason_ok (running_reason r)" "reason_ok (failed_reason r)" "reason_ok (finished_reason r)"
  by (simp_all add: running_reason_def failed_reason_def finished_reason_def)

lemma file_run_ok: "whc_ok x \<Longrightarrow> whc_ok (file_run ct c x)"
  by (simp add: whc_ok_def file_run_def Let_def keyed_put)

lemma quietly: "calls_only write_ok p \<Longrightarrow> (\<And>a. meets schema (f a) Q ()) \<Longrightarrow> meets schema (pbind p f) Q ()"
  unfolding meets_pbind by (rule meets_mono [OF conforms_quiet]) simp_all

text \<open>Filing a run: a retry that goes on from the object of the last round keeps it well-formed.\<close>

lemma file_retry:
  assumes "\<And>x. whc_ok x \<Longrightarrow> meets schema (fn x) (\<lambda>_ (e, x'). whc_ok x') ()" and "whc_ok x"
  shows "conforms (RetryOnConflict retry_again n fn x)"
proof -
  have "meets schema (RetryOnConflict retry_again n fn x) (\<lambda>_ (e, x'). whc_ok x' \<and> True) ()"
    using meets_RetryOnConflict [where G = schema and I = "\<lambda>_. whc_ok" and Q = "\<lambda>_ _. True" and fn = fn and again = retry_again
        and x = x and s = "()" and n = n] assms
    by (simp add: meets_ask split: option.splits)
  then show ?thesis by (rule meets_mono) simp
qed

lemma file_attempts:
  assumes "whc_ok x"
  shows "meets schema (FileSuccess_attempt ct c x) (\<lambda>_ (e, x'). whc_ok x') ()"
    and "meets schema (FileFailure_attempt ct c x) (\<lambda>_ (e, x'). whc_ok x') ()"
  unfolding FileSuccess_attempt_def FileFailure_attempt_def Let_def using assms
  by (auto simp: meets_ask file_run_ok or_err_def as_whc_def split: option.splits resp.splits sum.splits)

context schema_library begin

lemma status_then:
  assumes "runner_ok r" and "\<And>r'. runner_ok r' \<Longrightarrow> meets schema (f r') Q ()"
  shows "meets schema (pbind (setStatusFailed L msg r) f) Q ()" and "meets schema (pbind (setStatusRunning L msg r) f) Q ()"
    and "condition_ok c \<Longrightarrow> meets schema (pbind (set_condition L c r) f) Q ()"
proof -
  have set: "meets schema (pbind (set_condition L c r) f) Q ()" if c: "condition_ok c" for c
  proof -
    have "meets schema (f (r\<lparr>rn_manager := m\<rparr>)) Q ()" for m using assms by simp
    then show ?thesis
      unfolding set_condition_def pbind_assoc meets_pbind [where p = "SetCondition L c (rn_manager r)"]
      by (intro meets_mono [OF SetCondition_conforms [OF c]]) auto
  qed
  show "condition_ok c \<Longrightarrow> meets schema (pbind (set_condition L c r) f) Q ()" by (rule set)
  have "type_ok (rn_conditionType r)" using assms(1) by (simp add: runner_ok_def)
  then show "meets schema (pbind (setStatusFailed L msg r) f) Q ()" "meets schema (pbind (setStatusRunning L msg r) f) Q ()"
    unfolding setStatusFailed_def setStatusRunning_def Let_def by (auto simp del: meets_pbind intro!: set)
qed

lemma finished_conforms:
  assumes "runner_ok r"
  shows "conforms (setStatusFinishedSuccessfully L msg sc r)" and "conforms (setStatusFinishedFailure D L msg why rec r)"
proof -
  have quiet: "calls_only write_ok (mine_container D c a)" for c a
    unfolding mine_container_def by (auto intro!: calls_intros split: prod.splits)
  have ty: "type_ok (rn_conditionType r)" using assms by (simp add: runner_ok_def)
  have whc: "whc_ok (rn_whc r)" if "runner_ok r" for r using that by (simp add: runner_ok_def)
  show "conforms (setStatusFinishedSuccessfully L msg sc r)"
    unfolding setStatusFinishedSuccessfully_def Let_def
    by (rule status_then(3) [OF assms], rule conforms_bind [OF file_retry [OF file_attempts(1)]])
      (use ty in \<open>auto simp del: meets_pbind simp: whc split: prod.splits option.splits intro!: conforms_ask\<close>)
  show "conforms (setStatusFinishedFailure D L msg why rec r)"
    unfolding setStatusFinishedFailure_def Let_def
    by (rule status_then(3) [OF assms], rule conforms_ask, simp, rule quiet_then, intro calls_only_pfold quiet,
        rule conforms_bind [OF file_retry [OF file_attempts(2)]])
      (use ty in \<open>auto simp del: meets_pbind simp: whc split: prod.splits\<close>)
qed

lemma timeout_conforms:
  "runner_ok r \<Longrightarrow> meets schema (rollout_timeout L fuel ns st w r) (\<lambda>_ (u, w', r'). runner_ok r') ()"
proof -
  have store: "calls_only write_ok (StoreRecording L k rec)" for k rec
    unfolding StoreRecording_def storeEntry_def Let_def by (auto intro!: calls_intros split: sum.splits)
  show "runner_ok r \<Longrightarrow> meets schema (rollout_timeout L fuel ns st w r) (\<lambda>_ (u, w', r'). runner_ok r') ()"
    unfolding rollout_timeout_def
    by (rule status_then(1), assumption, rule quietly, simp, rule quietly, simp, rule quietly, simp)
      (auto simp del: meets_pbind split: sum.splits intro!: quietly store)
qed

lemma wait_conforms:
  "runner_ok r \<Longrightarrow> meets schema (waitForUpdatedPods L lfuel fuel w r) (\<lambda>_ (u, w', r'). runner_ok r') ()"
proof -
  have "meets schema (wait_loop L lfuel ns st fuel w r) (\<lambda>_ (u, w', r'). runner_ok r') ()" if "runner_ok r" for ns st w r
    using that
  proof (induction fuel arbitrary: w)
    case (Suc fuel)
    then show ?case
      unfolding wait_loop.simps
      by (rule_tac quietly, simp, rule_tac quietly, simp, rule_tac quietly)
        (auto simp del: meets_pbind intro!: quietly timeout_conforms)
  qed simp
  then show "runner_ok r \<Longrightarrow> meets schema (waitForUpdatedPods L lfuel fuel w r) (\<lambda>_ (u, w', r'). runner_ok r') ()"
    unfolding waitForUpdatedPods_def by (rule_tac quietly) simp_all
qed

lemma finish_conforms: "runner_ok r \<Longrightarrow> conforms (finish_run D L ns sc rec r)"
proof -
  have store: "calls_only write_ok (StoreRecording L k rec)" for k
    unfolding StoreRecording_def storeEntry_def Let_def by (auto intro!: calls_intros split: sum.splits)
  assume r: "runner_ok r"
  show ?thesis
    unfolding finish_run_def
    by (rule quiet_then [OF store])
      (use r in \<open>auto simp del: meets_pbind split: option.splits intro!: status_then conforms_ask conforms_bind [OF finished_conforms(1)]
        conforms_bind [OF finished_conforms(2)] quiet_then [OF writeless_Delete]\<close>)
qed

lemma record_conforms: "runner_ok r \<Longrightarrow> conforms (record_run D L lfuel ns sc w r)"
  unfolding record_run_def Let_def
  by (rule status_then(2), assumption, rule conforms_ask, simp, rule quiet_then, simp, rule quiet_then, simp)
    (auto simp del: meets_pbind split: sum.splits intro!: status_then(1) quiet_then [OF quiet_readings(6)] quiet_then [OF quiet_readings(3)]
      conforms_ask finish_conforms)

lemma RunCheck_conforms:
  assumes "runner_ok r"
  shows "conforms (RunCheck D L lfuel wfuel sc r)"
proof -
  have prepare: "calls_only write_ok (prepare_namespace L r)"
    unfolding prepare_namespace_def createCheckNamespace_def Let_def by (auto intro!: calls_intros quiet_Clone [OF conv])
  have apply_sc: "calls_only write_ok (applySecurityContext_runner L w sc r)" for w sc r
    unfolding applySecurityContext_runner_def Apply_attempt_def ScaleWorkloadUnderTest_def Scale_attempt_def Let_def
    by (auto intro!: calls_intros split: prod.splits)
  have hardened: "calls_only write_ok (if b then Ret (None, w) else applySecurityContext_runner L w sc r)" for b w sc r
    by (simp add: apply_sc)
  have waited: "conforms (pbind (if b then pbind (setStatusFailed L msg r) (\<lambda>r. pbind (event a (f r) (g r)) (\<lambda>_. Ret r)) else Ret r)
      (\<lambda>r. record_run D L lfuel ns sc w r))" if "runner_ok r" for b msg a f g r ns w
    using that by (cases b) (auto simp del: meets_pbind simp: pbind_assoc record_conforms intro!: status_then(1) conforms_ask)
  have from_wait: "conforms (pbind (waitForUpdatedPods L lfuel wfuel w r) (\<lambda>((updated, err), w, r).
      pbind (if err \<noteq> None \<or> \<not> updated then pbind (setStatusFailed L msg r) (\<lambda>r. pbind (event a (f r) (g r)) (\<lambda>_. Ret r)) else Ret r)
      (\<lambda>r. record_run D L lfuel ns sc w r)))" if "runner_ok r" for msg a f g r ns w
    unfolding meets_pbind [where p = "waitForUpdatedPods L lfuel wfuel w r"]
    by (rule meets_mono [OF wait_conforms [OF that]]) (clarify, rule waited, assumption)
  have got: "conforms (case g of Inl err \<Rightarrow> pbind (setStatusFailed L msg r) (\<lambda>_. Ret ()) | Inr w \<Rightarrow> k w)"
    if "runner_ok r" and "\<And>w. conforms (k w)" for g msg r k
    using that by (cases g) (auto simp del: meets_pbind intro!: status_then(1))
  have after: "conforms (case x of (e, w) \<Rightarrow> (case e of Some err \<Rightarrow> pbind (setStatusFailed L msg r) (\<lambda>_. Ret ()) | None \<Rightarrow> k w))"
    if "runner_ok r" and "\<And>w. conforms (k w)" for x msg r k
    using that by (cases x) (auto simp del: meets_pbind split: option.splits intro!: status_then(1))
  show ?thesis
    unfolding RunCheck_def Let_def
  proof (rule quiet_then [OF prepare], rule conforms_if, simp, rule status_then(2) [OF assms])
    fix r' assume r': "runner_ok r'"
    show "conforms (pbind (GetWorkloadUnderTest (rn_manager r') (generateTargetNamespaceName r)) (\<lambda>g. case g of
           Inl err \<Rightarrow> pbind (setStatusFailed L ''Failed to get workload under test'' r') (\<lambda>_. Ret ())
         | Inr w \<Rightarrow>
             pbind (if Defaults_IsEmpty sc then Ret (None, w)
                    else applySecurityContext_runner L w sc r') (\<lambda>(e, w). case e of
               Some err \<Rightarrow> pbind (setStatusFailed L ''Failed to apply security context to workload under test'' r') (\<lambda>_. Ret ())
             | None \<Rightarrow>
                 pbind (waitForUpdatedPods L lfuel wfuel w r') (\<lambda>((updated, err), w, r).
                 pbind (if err \<noteq> None \<or> \<not> updated
                        then pbind (setStatusFailed L ''Failed to wait for updated pods'' r) (\<lambda>ra.
                             pbind (event ''Warning'' (failed_reason ra) (rn_checkType ra @
                               ''Check: Failed to wait for updated pods in namespace '' @ generateTargetNamespaceName r0)) (\<lambda>_. Ret ra))
                        else Ret r) (\<lambda>ra.
                 record_run D L lfuel (generateTargetNamespaceName r0) sc w ra)))))" for r0
      by (rule quiet_then, simp, rule got [OF r'], rule quiet_then [OF hardened], rule after [OF r'], rule from_wait [OF r'])
  qed
qed

end

section \<open>Every write of the operator\<close>

interpretation listed: schema_library list_lib
proof
  show "sets_one_condition list_lib"
    unfolding sets_one_condition_def
  proof (intro allI impI conjI)
    fix cs :: "Condition list" and c t
    assume d: "distinct (map cond_Type cs)"
    have same: "map cond_Type (map (\<lambda>o'. if cond_Type o' = cond_Type c then c\<lparr>cond_LastTransitionTime := t'\<rparr> else o') cs) = map cond_Type cs" for t'
      by simp
    show "distinct (map cond_Type (lib_SetStatusCondition list_lib cs c t))"
      using d same by (auto simp: list_lib_def set_condition_list_def Let_def simp del: map_map)
    show "\<forall>d \<in> set (lib_SetStatusCondition list_lib cs c t). d \<in> set cs \<or> (\<exists>t'. d = c\<lparr>cond_LastTransitionTime := t'\<rparr>)"
      by (auto simp: list_lib_def set_condition_list_def Let_def)
  qed
  show "titles_letters list_lib" by (simp add: titles_letters_def list_lib_def)
  show "service_conversion list_lib" by (rule list_lib_conversion)
qed

lemma pool_conforms:
  assumes "pool_run spawn ps es ps'" and "\<forall>p \<in> set ps. conforms p" and "\<And>c. write_ok c \<Longrightarrow> \<forall>p \<in> set (spawn c). conforms p"
    and "\<forall>(i, c, r) \<in> set es. answer_ok r"
  shows "(\<forall>p \<in> set ps'. conforms p) \<and> (\<forall>(i, c, r) \<in> set es. write_ok c)"
  using assms
proof (induction rule: pool_run.induct)
  case (step es ps' e ps'')
  from step.IH step.prems have IH: "\<forall>p \<in> set ps'. conforms p" "\<forall>(i, c, r) \<in> set es. write_ok c" by auto
  from step.hyps(2) step.prems(3) IH(1) step.prems(2) have "write_ok (fst (snd e)) \<and> (\<forall>p \<in> set ps''. conforms p)"
  proof (cases rule: pool_step.cases)
    case (answer i c k r)
    then have call: "Call c k \<in> set ps'" by (metis nth_mem)
    with IH(1) have "conforms (Call c k)" by blast
    then have c: "write_ok c" and k: "answer_ok r \<Longrightarrow> conforms (k r)" by auto
    from step.prems(3) answer have "answer_ok r" by auto
    with k have "conforms (k r)" .
    moreover have "set (ps'[i := k r]) \<subseteq> insert (k r) (set ps')" by (rule set_update_subset_insert)
    ultimately show ?thesis using IH(1) step.prems(2) [OF c] answer(1,2) c by auto
  qed
  with IH(2) show ?case by auto
qed simp

text \<open>C6: the operator writes well-formed statuses. In any interleaving of any number of passes of both controllers and of the runs they
  start, if the API server answers checks whose conditions have the form the CRDs ask for, every status the operator sends for a
  check or a namespace check, and every check it creates, has that form too: each condition's type and reason match the schema's patterns and
  lengths, no type occurs twice, and each check run is filed under its own name. Assumed of the libraries: \<open>SetStatusCondition\<close> sets the one condition
  it is given, and \<open>cases.Title\<close> keeps letters.\<close>

theorem operator_writes_valid_statuses:
  assumes "sets_one_condition L" and "titles_letters L" and "service_conversion L"
    and "pool_run (operator_spawn D L lfuel wfuel) (map (pass_program D F L fuel) passes) es ps"
    and "\<forall>(j, c, r) \<in> set es. answer_ok r"
  shows "((i, UpdateWhcStatus x, r) \<in> set es \<longrightarrow> whc_ok x) \<and> ((i, UpdateNhcStatus y, r) \<in> set es \<longrightarrow> nhc_ok y) \<and>
    ((i, CreateWhc x, r) \<in> set es \<longrightarrow> whc_ok x)"
proof -
  have lib: "schema_library L" using assms(1-3) by unfold_locales
  have pass: "conforms (pass_program D F L fuel p)" for p
    by (cases p) (simp_all add: task_def schema_library.Reconcile_conforms [OF lib] schema_library.NReconcile_conforms [OF lib])
  have spawned: "\<forall>p \<in> set (operator_spawn D L lfuel wfuel c). conforms p" if "write_ok c" for c
    using that by (cases c) (simp_all add: schema_library.RunCheck_conforms [OF lib] new_runner_ok [OF assms(2)])
  have "\<forall>(i, c, r) \<in> set es. write_ok c"
    using pool_conforms [OF assms(4) _ spawned assms(5)] pass by auto
  then show ?thesis by fastforce
qed

text \<open>A thread driven by answers is an execution of the pool, whatever it starts.\<close>

lemma pool_run_thread:
  "pool_run spawn ps es ps' \<Longrightarrow> i < length ps' \<Longrightarrow> drive (ps' ! i) rs = (l, out) \<Longrightarrow> \<exists>ps''. pool_run spawn ps (es @ map (Pair i) l) ps''"
proof (induction rs arbitrary: es ps' l)
  case Nil
  then have "l = []" by (cases "ps' ! i") auto
  with Nil show ?case by auto
next
  case (Cons r rs)
  show ?case
  proof (cases "ps' ! i")
    case (Call c k)
    with Cons.prems(3) obtain l' where l: "drive (k r) rs = (l', out)" "l = (c, r) # l'" by (auto split: prod.splits)
    have "pool_run spawn ps (es @ [(i, c, r)]) (ps'[i := k r] @ spawn c)"
      by (rule pool_run.step [OF Cons.prems(1) pool_step.answer [OF Cons.prems(2) Call]])
    from Cons.IH [OF this, of l'] l Cons.prems(2) show ?thesis by (simp add: nth_append)
  qed (use Cons in auto)
qed

lemma task_drive: "drive p rs = (l, Returned a) \<Longrightarrow> drive (task p) rs = (l, Returned ())"
proof (induction p arbitrary: rs l)
  case (Call c k)
  then show ?case by (fastforce simp: task_def split: list.splits prod.splits)
qed (auto simp: task_def)

lemma operator_writes_valid_statuses_witness:
  "\<exists>es ps x. pool_run (operator_spawn seen_lines list_lib 1 26)
       (map (pass_program seen_lines int_floats list_lib 1) [WorkloadPass ''web-check'' ''shop'']) es ps \<and>
     (0, UpdateWhcStatus x, ROk) \<in> set es \<and> conds x \<noteq> [] \<and> whc_ok x"
proof -
  let ?p = "Reconcile seen_lines int_floats list_lib ''web-check'' ''shop''"
  let ?rs = "replicate 6 (RWhc sample_check) @ [ROk, RWhc sample_check, RInt 0, ROk, RBool False, RInt 3, ROk, ROk]"
  let ?x = "with_conditions (set_condition_list [] (mk_condition ConditionTypeFinished ConditionFalse ReasonBaselineRecording
      ''Baseline recording started'') 0) sample_check"
  obtain l a where l: "drive ?p ?rs = (l, Returned a)" and x: "(UpdateWhcStatus ?x, ROk) \<in> set l" and rs: "\<forall>(c, r) \<in> set l. r \<in> set ?rs"
    unfolding first_pass by (simp add: numeral_eq_Suc)
  from task_drive [OF l] obtain ps where ps: "pool_run (operator_spawn seen_lines list_lib 1 26)
      (map (pass_program seen_lines int_floats list_lib 1) [WorkloadPass ''web-check'' ''shop'']) (map (Pair 0) l) ps"
    using pool_run_thread [OF pool_run.start, of 0 "[task ?p]" ?rs l "Returned ()" "operator_spawn seen_lines list_lib 1 26"] by auto
  have "whc_ok sample_check" by (simp add: whc_ok_def sample_check_def conditions_ok_def keyed_def)
  then have ok: "\<forall>(j, c, r) \<in> set (map (Pair 0) l). answer_ok r" using rs by (auto simp: answer_ok_def)
  have u: "(0, UpdateWhcStatus ?x, ROk) \<in> set (map (Pair 0) l)" using x by auto
  have "whc_ok ?x"
    using operator_writes_valid_statuses [OF listed.sets listed.titles listed.conv ps ok, of 0 ?x ROk] u by blast
  moreover have "conds ?x \<noteq> []" by (simp add: set_condition_list_def Let_def)
  ultimately show ?thesis using ps u by blast
qed

end
