(* ===== verification/Memory.thy ===== *)
theory Memory
  imports Prelude
begin

text \<open>
  Memory with pointers, for the code whose point is what is shared and what is not. An address
  is an index into the cells allocated so far, a cell holds one value of the type parameter
  \<open>'c\<close>, and a pointer, slice or map that may be nil is an optional address (a slice or map
  stands for the array or table it refers to, as a whole; no code here takes a part of a slice).
  An access to a cell that is not there, or holds a value of another type, is a fault: the
  result is \<open>None\<close>.
\<close>

type_synonym addr = nat
type_synonym ref = "addr option"
type_synonym 'c mem = "'c list"
type_synonym ('c, 'a) act = "'c mem \<Rightarrow> ('a \<times> 'c mem) option"

definition mret :: "'a \<Rightarrow> ('c, 'a) act" where
  "mret x = (\<lambda>h. Some (x, h))"

definition mbind :: "('c, 'a) act \<Rightarrow> ('a \<Rightarrow> ('c, 'b) act) \<Rightarrow> ('c, 'b) act" where
  "mbind m f = (\<lambda>h. case m h of None \<Rightarrow> None | Some (x, h') \<Rightarrow> f x h')"

lemma mret_apply [simp]: "mret x h = Some (x, h)"
  by (simp add: mret_def)

lemma mbind_mret [simp]: "mbind (mret x) f = f x" "mbind m mret = m"
  by (auto simp: mbind_def fun_eq_iff split: option.splits)

lemma mbind_assoc [simp]: "mbind (mbind m f) g = mbind m (\<lambda>x. mbind (f x) g)"
  by (auto simp: mbind_def fun_eq_iff split: option.splits)

lemma mbind_Some: "m h = Some (x, h') \<Longrightarrow> mbind m f h = f x h'"
  by (simp add: mbind_def)

text \<open>
  How values of one Go type are held in cells: \<open>go_zero\<close> is what \<open>new\<close> and \<open>make\<close> leave in a
  fresh cell that is to receive a copy of the given value (a slice is made with its length).
\<close>

record ('c, 'a) go_type =
  go_inj :: "'a \<Rightarrow> 'c"
  go_proj :: "'c \<Rightarrow> 'a option"
  go_zero :: "'a \<Rightarrow> 'a"

definition go_held :: "('c, 'a) go_type \<Rightarrow> bool" where
  "go_held T \<longleftrightarrow> (\<forall>x. go_proj T (go_inj T x) = Some x)"

definition mem_load :: "('c, 'a) go_type \<Rightarrow> addr \<Rightarrow> ('c, 'a) act" where
  "mem_load T a = (\<lambda>h. if a < length h then map_option (\<lambda>x. (x, h)) (go_proj T (h ! a)) else None)"

definition mem_store :: "('c, 'a) go_type \<Rightarrow> addr \<Rightarrow> 'a \<Rightarrow> ('c, unit) act" where
  "mem_store T a x = (\<lambda>h. if a < length h then Some ((), h[a := go_inj T x]) else None)"

definition mem_new :: "('c, 'a) go_type \<Rightarrow> 'a \<Rightarrow> ('c, addr) act" where
  "mem_new T x = (\<lambda>h. Some (length h, h @ [go_inj T x]))"

text \<open>
  The step every generated copy function is made of: a nil pointer stays nil; for another,
  a fresh cell is made and then filled by the copy function of the element type.
\<close>

definition DeepCopy_ref :: "('c, 'a) go_type \<Rightarrow> ('a \<Rightarrow> ('c, 'a) act) \<Rightarrow> ref \<Rightarrow> ('c, ref) act" where
  "DeepCopy_ref T into r = (case r of None \<Rightarrow> mret None | Some a \<Rightarrow>
     mbind (mem_load T a) (\<lambda>x. mbind (mem_new T (go_zero T x)) (\<lambda>b. mbind (into x) (\<lambda>y.
     mbind (mem_store T b y) (\<lambda>_. mret (Some b))))))"

text \<open>The loops over the elements of a slice and over the entries of a map.\<close>

primrec DeepCopy_each :: "('a \<Rightarrow> ('c, 'a) act) \<Rightarrow> 'a list \<Rightarrow> ('c, 'a list) act" where
  "DeepCopy_each into [] = mret []"
| "DeepCopy_each into (x # xs) = mbind (into x) (\<lambda>y. mbind (DeepCopy_each into xs) (\<lambda>ys. mret (y # ys)))"

definition DeepCopy_both :: "('a \<Rightarrow> ('c, 'a) act) \<Rightarrow> ('b \<Rightarrow> ('c, 'b) act) \<Rightarrow> 'a \<times> 'b \<Rightarrow> ('c, 'a \<times> 'b) act" where
  "DeepCopy_both f g = (\<lambda>(x, y). mbind (f x) (\<lambda>x'. mbind (g y) (\<lambda>y'. mret (x', y'))))"

lemma DeepCopy_both_pair: "DeepCopy_both f g (x, y) = mbind (f x) (\<lambda>x'. mbind (g y) (\<lambda>y'. mret (x', y')))"
  by (simp add: DeepCopy_both_def)

abbreviation DeepCopy_entry :: "('a \<Rightarrow> ('c, 'a) act) \<Rightarrow> 'k \<times> 'a \<Rightarrow> ('c, 'k \<times> 'a) act" where
  "DeepCopy_entry into \<equiv> DeepCopy_both mret into"

section \<open>Reading a value out of memory\<close>

text \<open>
  What a piece of memory says: the addresses it reaches, in the order they are met and as often
  as they are met, and the value read there, without pointers. \<open>None\<close> where a pointer dangles.
\<close>

type_synonym ('c, 'a, 'v) reading = "'c mem \<Rightarrow> 'a \<Rightarrow> (addr list \<times> 'v) option"

definition read_plain :: "('c, 'a, 'a) reading" where
  "read_plain h x = Some ([], x)"

definition read_both :: "('c, 'a, 'v) reading \<Rightarrow> ('c, 'b, 'w) reading \<Rightarrow> ('c, 'a \<times> 'b, 'v \<times> 'w) reading" where
  "read_both r s h = (\<lambda>(x, y). case r h x of None \<Rightarrow> None | Some (F, v) \<Rightarrow>
     (case s h y of None \<Rightarrow> None | Some (G, w) \<Rightarrow> Some (F @ G, (v, w))))"

definition read_ref :: "('c, 'a) go_type \<Rightarrow> ('c, 'a, 'v) reading \<Rightarrow> ('c, ref, 'v option) reading" where
  "read_ref T r h p = (case p of None \<Rightarrow> Some ([], None) | Some a \<Rightarrow>
     if a < length h then case go_proj T (h ! a) of None \<Rightarrow> None | Some x \<Rightarrow>
       map_option (\<lambda>(F, v). (a # F, Some v)) (r h x) else None)"

primrec read_each :: "('c, 'a, 'v) reading \<Rightarrow> ('c, 'a list, 'v list) reading" where
  "read_each r h [] = Some ([], [])"
| "read_each r h (x # xs) = (case r h x of None \<Rightarrow> None | Some (F, v) \<Rightarrow>
     (case read_each r h xs of None \<Rightarrow> None | Some (G, vs) \<Rightarrow> Some (F @ G, v # vs)))"

text \<open>A struct is read through its fields.\<close>

definition read_fields :: "('b \<Rightarrow> 'a) \<Rightarrow> ('v \<Rightarrow> 'w) \<Rightarrow> ('c, 'a, 'v) reading \<Rightarrow> ('c, 'b, 'w) reading" where
  "read_fields inner made r h x = map_option (map_prod id made) (r h (inner x))"

text \<open>The value alone.\<close>

definition value_read :: "('c, 'a, 'v) reading \<Rightarrow> 'c mem \<Rightarrow> 'a \<Rightarrow> 'v option" where
  "value_read r h x = map_option snd (r h x)"

lemma value_plain: "value_read read_plain h x = Some z \<longleftrightarrow> z = x"
  by (auto simp: value_read_def read_plain_def)

lemma value_both:
  "value_read (read_both r s) h (x, y) = Some z \<longleftrightarrow>
     (\<exists>v w. value_read r h x = Some v \<and> value_read s h y = Some w \<and> z = (v, w))"
  by (auto simp: value_read_def read_both_def split: option.splits)

lemma value_fields:
  "value_read (read_fields inner made r) h x = Some z \<longleftrightarrow> (\<exists>w. value_read r h (inner x) = Some w \<and> z = made w)"
  by (auto simp: value_read_def read_fields_def split: option.splits)

lemma value_ref:
  "value_read (read_ref T r) h p = Some z \<longleftrightarrow> (case p of None \<Rightarrow> z = None | Some a \<Rightarrow>
     a < length h \<and> (\<exists>x v. go_proj T (h ! a) = Some x \<and> value_read r h x = Some v \<and> z = Some v))"
  by (auto simp: value_read_def read_ref_def split: option.splits)

section \<open>Deep copies\<close>

text \<open>A series of writes, each to a cell that is there.\<close>

primrec mem_writes :: "(addr \<times> 'c) list \<Rightarrow> 'c mem \<Rightarrow> 'c mem" where
  "mem_writes [] h = h"
| "mem_writes (w # ws) h = mem_writes ws (h[fst w := snd w])"

definition same_on :: "addr set \<Rightarrow> 'c mem \<Rightarrow> 'c mem \<Rightarrow> bool" where
  "same_on A h h' \<longleftrightarrow> (\<forall>a \<in> A. a < length h' \<and> h' ! a = h ! a)"

definition grows :: "'c mem \<Rightarrow> 'c mem \<Rightarrow> bool" where
  "grows h h' \<longleftrightarrow> length h \<le> length h' \<and> same_on {..<length h} h h'"

lemma same_on_mono: "same_on B h h' \<Longrightarrow> A \<subseteq> B \<Longrightarrow> same_on A h h'"
  by (auto simp: same_on_def)

lemma same_on_Un [simp]: "same_on (A \<union> B) h h' \<longleftrightarrow> same_on A h h' \<and> same_on B h h'"
  by (auto simp: same_on_def)

lemma same_on_insert [simp]: "same_on (insert a A) h h' \<longleftrightarrow> a < length h' \<and> h' ! a = h ! a \<and> same_on A h h'"
  by (auto simp: same_on_def)

lemma grows_refl [simp]: "grows h h"
  by (auto simp: grows_def same_on_def)

lemma grows_trans: "grows h h' \<Longrightarrow> grows h' h'' \<Longrightarrow> grows h h''"
  by (auto simp: grows_def same_on_def)

lemma grows_length: "grows h h' \<Longrightarrow> length h \<le> length h'"
  by (simp add: grows_def)

lemma grows_new [simp]: "grows h (h @ [c])"
  by (auto simp: grows_def same_on_def nth_append)

lemma grows_store: "grows h h' \<Longrightarrow> length h \<le> a \<Longrightarrow> grows h (h'[a := c])"
  by (auto simp: grows_def same_on_def)

text \<open>
  What a copy function of the generated code promises: it does not fault on a readable value,
  changes no cell that was there, and the copy reads the same while each cell it reaches is new
  and reached once. The reading itself depends on the cells it reaches alone.
\<close>

locale deep_copier =
  fixes into :: "'a \<Rightarrow> ('c, 'a) act"
    and reading :: "('c, 'a, 'v) reading"
  assumes reaches: "reading h x = Some (F, v) \<Longrightarrow> a \<in> set F \<Longrightarrow> a < length h"
    and frame: "reading h x = Some (F, v) \<Longrightarrow> same_on (set F) h h' \<Longrightarrow> reading h' x = Some (F, v)"
    and copies: "reading h x = Some (F, v) \<Longrightarrow> \<exists>y h' G. into x h = Some (y, h') \<and> grows h h' \<and>
      reading h' y = Some (G, v) \<and> distinct G \<and> (\<forall>a \<in> set G. length h \<le> a)"
begin

lemma frame_grows: "reading h x = Some (F, v) \<Longrightarrow> grows h h' \<Longrightarrow> reading h' x = Some (F, v)"
  by (rule frame) (auto simp: grows_def intro: reaches same_on_mono)

lemma frame_store: "reading h x = Some (F, v) \<Longrightarrow> a \<notin> set F \<Longrightarrow> reading (h[a := c]) x = Some (F, v)"
  by (rule frame, assumption) (metis same_on_def length_list_update nth_list_update_neq reaches)

lemma frame_writes: "reading h x = Some (F, v) \<Longrightarrow> fst ` set ws \<inter> set F = {} \<Longrightarrow> reading (mem_writes ws h) x = Some (F, v)"
  by (induction ws arbitrary: h) (auto intro!: frame_store)

text \<open>The original and its copy can then be written to without a trace in the other.\<close>

lemma isolated:
  assumes "reading h x = Some (F, v)"
  shows "\<exists>y h' G. into x h = Some (y, h') \<and> grows h h' \<and> reading h' x = Some (F, v) \<and> reading h' y = Some (G, v) \<and>
    distinct G \<and> set F \<inter> set G = {} \<and>
    (\<forall>ws. fst ` set ws \<subseteq> set G \<longrightarrow> reading (mem_writes ws h') x = Some (F, v)) \<and>
    (\<forall>ws. fst ` set ws \<subseteq> set F \<longrightarrow> reading (mem_writes ws h') y = Some (G, v))"
proof -
  obtain y h' G where c: "into x h = Some (y, h')" "grows h h'" "reading h' y = Some (G, v)" "distinct G"
    "\<forall>a \<in> set G. length h \<le> a"
    using copies [OF assms] by blast
  have x: "reading h' x = Some (F, v)"
    using assms c(2) by (rule frame_grows)
  have apart: "set F \<inter> set G = {}"
    using reaches [OF assms] c(5) by force
  moreover from this x have "\<forall>ws. fst ` set ws \<subseteq> set G \<longrightarrow> reading (mem_writes ws h') x = Some (F, v)"
    by (blast intro: frame_writes)
  moreover from apart c(3) have "\<forall>ws. fst ` set ws \<subseteq> set F \<longrightarrow> reading (mem_writes ws h') y = Some (G, v)"
    by (blast intro: frame_writes)
  ultimately show ?thesis
    using c x by blast
qed

end

subsection \<open>Copy functions made of copy functions\<close>

lemma plain_copier: "deep_copier mret read_plain"
  by unfold_locales (auto simp: read_plain_def)

lemma both_copier:
  assumes "deep_copier f r" "deep_copier g s"
  shows "deep_copier (DeepCopy_both f g) (read_both r s)"
proof -
  note f = assms(1) and g = assms(2)
  show ?thesis
  proof unfold_locales
    fix h p F v a
    assume "read_both r s h p = Some (F, v)" "a \<in> set F"
    then show "a < length h"
      by (auto simp: read_both_def split: prod.splits option.splits dest: deep_copier.reaches [OF f] deep_copier.reaches [OF g])
  next
    fix h p F v h'
    assume "read_both r s h p = Some (F, v)" "same_on (set F) h h'"
    moreover from this obtain x y A B where "p = (x, y)" "r h x = Some (A, fst v)" "s h y = Some (B, snd v)" "F = A @ B"
      by (auto simp: read_both_def split: prod.splits option.splits)
    ultimately show "read_both r s h' p = Some (F, v)"
      using deep_copier.frame [OF f, of h x A "fst v" h'] deep_copier.frame [OF g, of h y B "snd v" h'] by (simp add: read_both_def)
  next
    fix h p F v
    assume "read_both r s h p = Some (F, v)"
    then obtain x y A B where p: "p = (x, y)" and r: "r h x = Some (A, fst v)" and s: "s h y = Some (B, snd v)"
      by (auto simp: read_both_def split: prod.splits option.splits)
    obtain x' h1 A' where c1: "f x h = Some (x', h1)" "grows h h1" "r h1 x' = Some (A', fst v)" "distinct A'"
      "\<forall>a \<in> set A'. length h \<le> a"
      using deep_copier.copies [OF f r] by blast
    obtain y' h2 B' where c2: "g y h1 = Some (y', h2)" "grows h1 h2" "s h2 y' = Some (B', snd v)" "distinct B'"
      "\<forall>a \<in> set B'. length h1 \<le> a"
      using deep_copier.copies [OF g deep_copier.frame_grows [OF g s c1(2)]] by blast
    have "r h2 x' = Some (A', fst v)"
      using c1(3) c2(2) by (rule deep_copier.frame_grows [OF f])
    moreover have "set A' \<inter> set B' = {}"
      using deep_copier.reaches [OF f c1(3)] c2(5) by force
    moreover have "\<forall>a \<in> set (A' @ B'). length h \<le> a"
      using c1(5) c2(5) grows_length [OF c1(2)] by force
    ultimately show "\<exists>q h' G. DeepCopy_both f g p h = Some (q, h') \<and> grows h h' \<and> read_both r s h' q = Some (G, v) \<and>
        distinct G \<and> (\<forall>a \<in> set G. length h \<le> a)"
      using c1 c2 p by (intro exI [of _ "(x', y')"] exI [of _ h2] exI [of _ "A' @ B'"])
        (auto simp: DeepCopy_both_def read_both_def mbind_Some intro: grows_trans)
  qed
qed

lemma ref_copier:
  assumes T: "go_held T" and f: "deep_copier f r"
  shows "deep_copier (DeepCopy_ref T f) (read_ref T r)"
proof unfold_locales
  fix h p F v a
  assume "read_ref T r h p = Some (F, v)" "a \<in> set F"
  then show "a < length h"
    by (auto simp: read_ref_def split: option.splits if_splits dest: deep_copier.reaches [OF f])
next
  fix h p F v h'
  assume "read_ref T r h p = Some (F, v)" "same_on (set F) h h'"
  then show "read_ref T r h' p = Some (F, v)"
    by (auto simp: read_ref_def split: option.splits if_splits dest: deep_copier.frame [OF f])
next
  fix h p F v
  assume read: "read_ref T r h p = Some (F, v)"
  show "\<exists>q h' G. DeepCopy_ref T f p h = Some (q, h') \<and> grows h h' \<and> read_ref T r h' q = Some (G, v) \<and>
      distinct G \<and> (\<forall>a \<in> set G. length h \<le> a)"
  proof (cases p)
    case None
    with read show ?thesis by (auto simp: DeepCopy_ref_def read_ref_def)
  next
    case (Some a)
    with read obtain x A w where a: "a < length h" "go_proj T (h ! a) = Some x" and x: "r h x = Some (A, w)" and v: "v = Some w"
      by (auto simp: read_ref_def split: option.splits if_splits)
    define h1 where "h1 = h @ [go_inj T (go_zero T x)]"
    obtain y h2 G where c: "f x h1 = Some (y, h2)" "grows h1 h2" "r h2 y = Some (G, w)" "distinct G" "\<forall>a \<in> set G. length h1 \<le> a"
      using deep_copier.copies [OF f deep_copier.frame_grows [OF f x]] unfolding h1_def by (metis grows_new)
    let ?b = "length h" and ?h3 = "h2[length h := go_inj T y]"
    have b: "?b < length h2" "?b \<notin> set G"
      using grows_length [OF c(2)] c(5) by (auto simp: h1_def)
    have "r ?h3 y = Some (G, w)"
      using c(3) b(2) by (rule deep_copier.frame_store [OF f])
    moreover have "grows h ?h3"
      using c(2) by (intro grows_store) (auto simp: h1_def intro: grows_trans [OF grows_new])
    moreover have "DeepCopy_ref T f p h = Some (Some ?b, ?h3)"
      using Some a c(1) b(1) by (simp add: DeepCopy_ref_def mbind_def mem_load_def mem_new_def mem_store_def h1_def)
    ultimately show ?thesis
      using b c(4,5) T v by (intro exI [of _ "Some ?b"] exI [of _ ?h3] exI [of _ "?b # G"])
        (auto simp: read_ref_def go_held_def h1_def)
  qed
qed

text \<open>A struct is copied through its fields: \<open>out\<close> starts as \<open>*in\<close> and gets the copied ones.\<close>

lemma fields_copier:
  assumes f: "deep_copier f r"
    and into: "\<And>x. into x = mbind (f (inner x)) (\<lambda>t. mret (filled x t))"
    and inner: "\<And>x t. inner (filled x t) = t"
  shows "deep_copier into (read_fields inner made r)"
proof unfold_locales
  fix h x F v a
  assume "read_fields inner made r h x = Some (F, v)" "a \<in> set F"
  then show "a < length h"
    by (auto simp: read_fields_def dest: deep_copier.reaches [OF f])
next
  fix h x F v h'
  assume "read_fields inner made r h x = Some (F, v)" "same_on (set F) h h'"
  then show "read_fields inner made r h' x = Some (F, v)"
    by (auto simp: read_fields_def dest: deep_copier.frame [OF f])
next
  fix h x F v
  assume "read_fields inner made r h x = Some (F, v)"
  then obtain w where w: "r h (inner x) = Some (F, w)" "v = made w"
    by (auto simp: read_fields_def)
  obtain t h' G where "f (inner x) h = Some (t, h')" "grows h h'" "r h' t = Some (G, w)" "distinct G" "\<forall>a \<in> set G. length h \<le> a"
    using deep_copier.copies [OF f w(1)] by blast
  then show "\<exists>y h' G. into x h = Some (y, h') \<and> grows h h' \<and> read_fields inner made r h' y = Some (G, v) \<and>
      distinct G \<and> (\<forall>a \<in> set G. length h \<le> a)"
    using w(2) by (auto simp: into mbind_Some read_fields_def inner)
qed

text \<open>A slice is empty, or a first element with the rest.\<close>

lemma each_copier:
  assumes f: "deep_copier f r"
  shows "deep_copier (DeepCopy_each f) (read_each r)"
proof unfold_locales
  fix h xs F v a
  show "read_each r h xs = Some (F, v) \<Longrightarrow> a \<in> set F \<Longrightarrow> a < length h"
  proof (induction xs arbitrary: F v)
    case (Cons x xs)
    then show ?case
      using deep_copier.reaches [OF f, of h x] by (auto split: option.splits)
  qed simp
next
  fix h xs F v h'
  show "read_each r h xs = Some (F, v) \<Longrightarrow> same_on (set F) h h' \<Longrightarrow> read_each r h' xs = Some (F, v)"
  proof (induction xs arbitrary: F v)
    case (Cons x xs)
    then show ?case
      using deep_copier.frame [OF f, of h x _ _ h'] by (fastforce split: option.splits)
  qed simp
next
  fix h xs F v
  show "read_each r h xs = Some (F, v) \<Longrightarrow> \<exists>ys h' G. DeepCopy_each f xs h = Some (ys, h') \<and> grows h h' \<and>
      read_each r h' ys = Some (G, v) \<and> distinct G \<and> (\<forall>a \<in> set G. length h \<le> a)"
  proof (induction xs arbitrary: h F v)
    case Nil
    then show ?case by auto
  next
    case (Cons x xs)
    then obtain A w B ws where x: "r h x = Some (A, w)" and xs: "read_each r h xs = Some (B, ws)" and v: "v = w # ws"
      by (auto split: option.splits)
    have frame: "read_each r k zs = Some (C, u) \<Longrightarrow> grows k k' \<Longrightarrow> read_each r k' zs = Some (C, u)" for k zs C u k'
    proof (induction zs arbitrary: C u)
      case (Cons z zs)
      then show ?case
        using deep_copier.frame_grows [OF f, of k z _ _ k'] by (fastforce split: option.splits)
    qed simp
    obtain y h1 A' where c1: "f x h = Some (y, h1)" "grows h h1" "r h1 y = Some (A', w)" "distinct A'"
      "\<forall>a \<in> set A'. length h \<le> a"
      using deep_copier.copies [OF f x] by blast
    obtain ys h2 B' where c2: "DeepCopy_each f xs h1 = Some (ys, h2)" "grows h1 h2" "read_each r h2 ys = Some (B', ws)"
      "distinct B'" "\<forall>a \<in> set B'. length h1 \<le> a"
      using Cons.IH [OF frame [OF xs c1(2)]] by blast
    have "r h2 y = Some (A', w)"
      using c1(3) c2(2) by (rule deep_copier.frame_grows [OF f])
    moreover have "set A' \<inter> set B' = {}"
      using deep_copier.reaches [OF f c1(3)] c2(5) by force
    moreover have "\<forall>a \<in> set (A' @ B'). length h \<le> a"
      using c1(5) c2(5) grows_length [OF c1(2)] by force
    ultimately show ?case
      using c1 c2 v by (intro exI [of _ "y # ys"] exI [of _ h2] exI [of _ "A' @ B'"])
        (auto simp: mbind_Some intro: grows_trans)
  qed
qed

lemmas copiers = plain_copier both_copier ref_copier each_copier

end
