(* ===== verification/DeepCopy.thy ===== *)
theory DeepCopy
  imports ApiTypes Memory
begin

text \<open>
  \<^verbatim>\<open>api/v1alpha1/zz_generated.deepcopy.go\<close>: the deep copies of the API types, over memory with
  pointers. The controllers, the check runner and the recommendation rely on them (\<open>DeepCopy\<close> of
  a check before it is worked on, of a check run before it is judged, of the defaults handed to
  the checks of a namespace), and the rest of this development computes on plain values because of
  them: a copy reads as its original does and shares no cell with it.

  Here a struct holds its nil-able fields as references; \<open>read_\<close>\<dots> reads the value the other
  theories compute on. The copy functions of the Kubernetes types the structs contain are not in
  the repository: they are the argument \<open>K\<close>, and how such a struct lies in memory is the argument
  \<open>R\<close>.
\<close>

section \<open>The structs in memory\<close>

text \<open>A Kubernetes struct: its plain fields and its references.\<close>

record foreign =
  fo_plain :: string
  fo_refs :: "ref list"

record PodSecurityContextDefaults_mem =
  mpd_FSGroup :: ref
  mpd_RunAsUser :: ref
  mpd_RunAsGroup :: ref
  mpd_RunAsNonRoot :: ref
  mpd_SupplementalGroups :: ref
  mpd_SeccompProfile :: ref

record ContainerSecurityContextDefaults_mem =
  mcd_RunAsNonRoot :: ref
  mcd_ReadOnlyRootFilesystem :: ref
  mcd_AllowPrivilegeEscalation :: ref
  mcd_CapabilitiesDrop :: ref
  mcd_SeccompProfile :: ref
  mcd_RunAsUser :: ref
  mcd_RunAsGroup :: ref

record SecurityContextDefaults_mem =
  msd_Pod :: ref
  msd_Container :: ref

record CheckRun_mem =
  mcr_Name :: string
  mcr_RecordingSuccessfull :: ref
  mcr_CheckSuccessfull :: ref
  mcr_SecurityContext :: ref
  mcr_FailureReason :: string
  mcr_LogAnomalies :: ref
  mcr_CpuDeviation :: ref
  mcr_MemoryDeviation :: ref

record Recommendation_mem =
  mrec_ContainerSecurityContexts :: ref
  mrec_PodSecurityContext :: ref

record TargetReference_mem =
  mtr_APIVersion :: string
  mtr_Kind :: string
  mtr_Name :: string

record WhcSpec_mem =
  mws_TargetRef :: TargetReference_mem
  mws_RecordingDuration :: string
  mws_RunMode :: string
  mws_SecurityContext :: ref
  mws_Suffix :: string

record WhcStatus_mem =
  mwst_Conditions :: ref
  mwst_BaselineRuns :: ref
  mwst_CheckRuns :: ref
  mwst_FinalRun :: ref
  mwst_Recommendation :: ref

record NhcSpec_mem =
  mns_TargetNamespace :: string
  mns_RecordingDuration :: string
  mns_RunMode :: string
  mns_SecurityContext :: ref
  mns_Suffix :: string

record NhcStatus_mem =
  mnst_Conditions :: ref
  mnst_Recommendations :: ref

text \<open>\<open>metav1.TypeMeta\<close>: the kind and the API version.\<close>

type_synonym TypeMeta = "string \<times> string"

record Whc_mem =
  mw_TypeMeta :: TypeMeta
  mw_ObjectMeta :: foreign
  mw_Spec :: WhcSpec_mem
  mw_Status :: WhcStatus_mem

record Nhc_mem =
  mn_TypeMeta :: TypeMeta
  mn_ObjectMeta :: foreign
  mn_Spec :: NhcSpec_mem
  mn_Status :: NhcStatus_mem

text \<open>The lists of either kind: \<open>Items\<close> refers to an array of such structs.\<close>

record List_mem =
  ml_TypeMeta :: TypeMeta
  ml_ListMeta :: foreign
  ml_Items :: ref

text \<open>A map is held as its entries in the order the runtime visits them.\<close>

datatype cell =
    CBool bool | CInt64 int64 | CSeccomp SeccompProfile | CStrings "string list" | CInt64s "int64 list"
  | CPodDefaults PodSecurityContextDefaults_mem | CContainerDefaults ContainerSecurityContextDefaults_mem
  | CDefaults SecurityContextDefaults_mem | CLogs "(string \<times> ref) list"
  | CRun CheckRun_mem | CRuns "ref list" | CRunMap "(string \<times> ref) list"
  | CRecommendation Recommendation_mem | CRecommendationMap "(string \<times> ref) list"
  | CConditions "Condition list" | CForeign foreign | CTarget TargetReference_mem
  | CWhcSpec WhcSpec_mem | CWhcStatus WhcStatus_mem | CWhc Whc_mem | CWhcs "Whc_mem list" | CWhcList List_mem
  | CNhcSpec NhcSpec_mem | CNhcStatus NhcStatus_mem | CNhc Nhc_mem | CNhcs "Nhc_mem list" | CNhcList List_mem

subsection \<open>The Go types\<close>

text \<open>The zero values: nil references, empty strings.\<close>

definition zero_foreign :: foreign where
  "zero_foreign = \<lparr>fo_plain = '''', fo_refs = []\<rparr>"

definition zero_condition :: Condition where
  "zero_condition = \<lparr>cond_Type = '''', cond_Status = ConditionUnknown, cond_Reason = '''', cond_Message = '''',
     cond_LastTransitionTime = 0\<rparr>"

definition zero_PodSecurityContextDefaults :: PodSecurityContextDefaults_mem where
  "zero_PodSecurityContextDefaults = \<lparr>mpd_FSGroup = None, mpd_RunAsUser = None, mpd_RunAsGroup = None,
     mpd_RunAsNonRoot = None, mpd_SupplementalGroups = None, mpd_SeccompProfile = None\<rparr>"

definition zero_ContainerSecurityContextDefaults :: ContainerSecurityContextDefaults_mem where
  "zero_ContainerSecurityContextDefaults = \<lparr>mcd_RunAsNonRoot = None, mcd_ReadOnlyRootFilesystem = None,
     mcd_AllowPrivilegeEscalation = None, mcd_CapabilitiesDrop = None, mcd_SeccompProfile = None, mcd_RunAsUser = None,
     mcd_RunAsGroup = None\<rparr>"

definition zero_SecurityContextDefaults :: SecurityContextDefaults_mem where
  "zero_SecurityContextDefaults = \<lparr>msd_Pod = None, msd_Container = None\<rparr>"

definition zero_CheckRun :: CheckRun_mem where
  "zero_CheckRun = \<lparr>mcr_Name = '''', mcr_RecordingSuccessfull = None, mcr_CheckSuccessfull = None,
     mcr_SecurityContext = None, mcr_FailureReason = '''', mcr_LogAnomalies = None, mcr_CpuDeviation = None,
     mcr_MemoryDeviation = None\<rparr>"

definition zero_Recommendation :: Recommendation_mem where
  "zero_Recommendation = \<lparr>mrec_ContainerSecurityContexts = None, mrec_PodSecurityContext = None\<rparr>"

definition zero_TargetReference :: TargetReference_mem where
  "zero_TargetReference = \<lparr>mtr_APIVersion = '''', mtr_Kind = '''', mtr_Name = ''''\<rparr>"

definition zero_WhcSpec :: WhcSpec_mem where
  "zero_WhcSpec = \<lparr>mws_TargetRef = zero_TargetReference, mws_RecordingDuration = '''', mws_RunMode = '''',
     mws_SecurityContext = None, mws_Suffix = ''''\<rparr>"

definition zero_WhcStatus :: WhcStatus_mem where
  "zero_WhcStatus = \<lparr>mwst_Conditions = None, mwst_BaselineRuns = None, mwst_CheckRuns = None, mwst_FinalRun =
     None, mwst_Recommendation = None\<rparr>"

definition zero_NhcSpec :: NhcSpec_mem where
  "zero_NhcSpec = \<lparr>mns_TargetNamespace = '''', mns_RecordingDuration = '''', mns_RunMode = '''',
     mns_SecurityContext = None, mns_Suffix = ''''\<rparr>"

definition zero_NhcStatus :: NhcStatus_mem where
  "zero_NhcStatus = \<lparr>mnst_Conditions = None, mnst_Recommendations = None\<rparr>"

definition zero_Whc :: Whc_mem where
  "zero_Whc = \<lparr>mw_TypeMeta = ('''', ''''), mw_ObjectMeta = zero_foreign, mw_Spec = zero_WhcSpec, mw_Status =
     zero_WhcStatus\<rparr>"

definition zero_Nhc :: Nhc_mem where
  "zero_Nhc = \<lparr>mn_TypeMeta = ('''', ''''), mn_ObjectMeta = zero_foreign, mn_Spec = zero_NhcSpec, mn_Status =
     zero_NhcStatus\<rparr>"

definition zero_List :: List_mem where
  "zero_List = \<lparr>ml_TypeMeta = ('''', ''''), ml_ListMeta = zero_foreign, ml_Items = None\<rparr>"

abbreviation "go_cell C P z \<equiv> \<lparr>go_inj = C, go_proj = P, go_zero = z\<rparr>"

definition bool_t :: "(cell, bool) go_type" where
  "bool_t = go_cell CBool (\<lambda>c. case c of CBool x \<Rightarrow> Some x | _ \<Rightarrow> None) (\<lambda>_. False)"

definition int64_t :: "(cell, int64) go_type" where
  "int64_t = go_cell CInt64 (\<lambda>c. case c of CInt64 x \<Rightarrow> Some x | _ \<Rightarrow> None) (\<lambda>_. 0)"

definition seccomp_t :: "(cell, SeccompProfile) go_type" where
  "seccomp_t = go_cell CSeccomp (\<lambda>c. case c of CSeccomp x \<Rightarrow> Some x | _ \<Rightarrow> None) (\<lambda>_. \<lparr>sp_Type = ''''\<rparr>)"

definition strings_t :: "(cell, string list) go_type" where
  "strings_t = go_cell CStrings (\<lambda>c. case c of CStrings x \<Rightarrow> Some x | _ \<Rightarrow> None) (map (\<lambda>_. ''''))"

definition int64s_t :: "(cell, int64 list) go_type" where
  "int64s_t = go_cell CInt64s (\<lambda>c. case c of CInt64s x \<Rightarrow> Some x | _ \<Rightarrow> None) (map (\<lambda>_. 0))"

definition pod_defaults_t :: "(cell, PodSecurityContextDefaults_mem) go_type" where
  "pod_defaults_t = go_cell CPodDefaults (\<lambda>c. case c of CPodDefaults x \<Rightarrow> Some x | _ \<Rightarrow> None) (\<lambda>_. zero_PodSecurityContextDefaults)"

definition container_defaults_t :: "(cell, ContainerSecurityContextDefaults_mem) go_type" where
  "container_defaults_t = go_cell CContainerDefaults (\<lambda>c. case c of CContainerDefaults x \<Rightarrow> Some x | _ \<Rightarrow> None) (\<lambda>_. zero_ContainerSecurityContextDefaults)"

definition defaults_t :: "(cell, SecurityContextDefaults_mem) go_type" where
  "defaults_t = go_cell CDefaults (\<lambda>c. case c of CDefaults x \<Rightarrow> Some x | _ \<Rightarrow> None) (\<lambda>_. zero_SecurityContextDefaults)"

definition logs_t :: "(cell, (string \<times> ref) list) go_type" where
  "logs_t = go_cell CLogs (\<lambda>c. case c of CLogs x \<Rightarrow> Some x | _ \<Rightarrow> None) (\<lambda>_. [])"

definition run_t :: "(cell, CheckRun_mem) go_type" where
  "run_t = go_cell CRun (\<lambda>c. case c of CRun x \<Rightarrow> Some x | _ \<Rightarrow> None) (\<lambda>_. zero_CheckRun)"

definition runs_t :: "(cell, ref list) go_type" where
  "runs_t = go_cell CRuns (\<lambda>c. case c of CRuns x \<Rightarrow> Some x | _ \<Rightarrow> None) (map (\<lambda>_. None))"

definition run_map_t :: "(cell, (string \<times> ref) list) go_type" where
  "run_map_t = go_cell CRunMap (\<lambda>c. case c of CRunMap x \<Rightarrow> Some x | _ \<Rightarrow> None) (\<lambda>_. [])"

definition recommendation_t :: "(cell, Recommendation_mem) go_type" where
  "recommendation_t = go_cell CRecommendation (\<lambda>c. case c of CRecommendation x \<Rightarrow> Some x | _ \<Rightarrow> None) (\<lambda>_. zero_Recommendation)"

definition recommendation_map_t :: "(cell, (string \<times> ref) list) go_type" where
  "recommendation_map_t = go_cell CRecommendationMap (\<lambda>c. case c of CRecommendationMap x \<Rightarrow> Some x | _ \<Rightarrow> None) (\<lambda>_. [])"

definition conditions_t :: "(cell, Condition list) go_type" where
  "conditions_t = go_cell CConditions (\<lambda>c. case c of CConditions x \<Rightarrow> Some x | _ \<Rightarrow> None) (map (\<lambda>_. zero_condition))"

definition foreign_t :: "(cell, foreign) go_type" where
  "foreign_t = go_cell CForeign (\<lambda>c. case c of CForeign x \<Rightarrow> Some x | _ \<Rightarrow> None) (\<lambda>_. zero_foreign)"

definition target_t :: "(cell, TargetReference_mem) go_type" where
  "target_t = go_cell CTarget (\<lambda>c. case c of CTarget x \<Rightarrow> Some x | _ \<Rightarrow> None) (\<lambda>_. zero_TargetReference)"

definition whc_spec_t :: "(cell, WhcSpec_mem) go_type" where
  "whc_spec_t = go_cell CWhcSpec (\<lambda>c. case c of CWhcSpec x \<Rightarrow> Some x | _ \<Rightarrow> None) (\<lambda>_. zero_WhcSpec)"

definition whc_status_t :: "(cell, WhcStatus_mem) go_type" where
  "whc_status_t = go_cell CWhcStatus (\<lambda>c. case c of CWhcStatus x \<Rightarrow> Some x | _ \<Rightarrow> None) (\<lambda>_. zero_WhcStatus)"

definition whc_t :: "(cell, Whc_mem) go_type" where
  "whc_t = go_cell CWhc (\<lambda>c. case c of CWhc x \<Rightarrow> Some x | _ \<Rightarrow> None) (\<lambda>_. zero_Whc)"

definition whcs_t :: "(cell, Whc_mem list) go_type" where
  "whcs_t = go_cell CWhcs (\<lambda>c. case c of CWhcs x \<Rightarrow> Some x | _ \<Rightarrow> None) (map (\<lambda>_. zero_Whc))"

definition whc_list_t :: "(cell, List_mem) go_type" where
  "whc_list_t = go_cell CWhcList (\<lambda>c. case c of CWhcList x \<Rightarrow> Some x | _ \<Rightarrow> None) (\<lambda>_. zero_List)"

definition nhc_spec_t :: "(cell, NhcSpec_mem) go_type" where
  "nhc_spec_t = go_cell CNhcSpec (\<lambda>c. case c of CNhcSpec x \<Rightarrow> Some x | _ \<Rightarrow> None) (\<lambda>_. zero_NhcSpec)"

definition nhc_status_t :: "(cell, NhcStatus_mem) go_type" where
  "nhc_status_t = go_cell CNhcStatus (\<lambda>c. case c of CNhcStatus x \<Rightarrow> Some x | _ \<Rightarrow> None) (\<lambda>_. zero_NhcStatus)"

definition nhc_t :: "(cell, Nhc_mem) go_type" where
  "nhc_t = go_cell CNhc (\<lambda>c. case c of CNhc x \<Rightarrow> Some x | _ \<Rightarrow> None) (\<lambda>_. zero_Nhc)"

definition nhcs_t :: "(cell, Nhc_mem list) go_type" where
  "nhcs_t = go_cell CNhcs (\<lambda>c. case c of CNhcs x \<Rightarrow> Some x | _ \<Rightarrow> None) (map (\<lambda>_. zero_Nhc))"

definition nhc_list_t :: "(cell, List_mem) go_type" where
  "nhc_list_t = go_cell CNhcList (\<lambda>c. case c of CNhcList x \<Rightarrow> Some x | _ \<Rightarrow> None) (\<lambda>_. zero_List)"

lemma held [simp]:
  "go_held bool_t"
  "go_held int64_t"
  "go_held seccomp_t"
  "go_held strings_t"
  "go_held int64s_t"
  "go_held pod_defaults_t"
  "go_held container_defaults_t"
  "go_held defaults_t"
  "go_held logs_t"
  "go_held run_t"
  "go_held runs_t"
  "go_held run_map_t"
  "go_held recommendation_t"
  "go_held recommendation_map_t"
  "go_held conditions_t"
  "go_held foreign_t"
  "go_held target_t"
  "go_held whc_spec_t"
  "go_held whc_status_t"
  "go_held whc_t"
  "go_held whcs_t"
  "go_held whc_list_t"
  "go_held nhc_spec_t"
  "go_held nhc_status_t"
  "go_held nhc_t"
  "go_held nhcs_t"
  "go_held nhc_list_t"
  by (simp_all add: go_held_def bool_t_def int64_t_def seccomp_t_def strings_t_def int64s_t_def pod_defaults_t_def container_defaults_t_def defaults_t_def logs_t_def run_t_def runs_t_def run_map_t_def recommendation_t_def recommendation_map_t_def conditions_t_def foreign_t_def target_t_def whc_spec_t_def whc_status_t_def whc_t_def whcs_t_def whc_list_t_def nhc_spec_t_def nhc_status_t_def nhc_t_def nhcs_t_def nhc_list_t_def)

text \<open>The copy functions of the Kubernetes types the structs contain.\<close>

record k8s_copies =
  kc_SecurityContext :: "foreign \<Rightarrow> (cell, foreign) act"
  kc_PodSecurityContext :: "foreign \<Rightarrow> (cell, foreign) act"
  kc_ObjectMeta :: "foreign \<Rightarrow> (cell, foreign) act"
  kc_ListMeta :: "foreign \<Rightarrow> (cell, foreign) act"
  kc_Condition :: "Condition \<Rightarrow> (cell, Condition) act"

section \<open>The generated functions\<close>

text \<open>\<open>DeepCopyInto\<close> gives the contents of \<open>out\<close>, \<open>DeepCopy\<close> a reference to a new such struct.\<close>

definition SeccompProfile_DeepCopyInto :: "SeccompProfile \<Rightarrow> (cell, SeccompProfile) act" where
  "SeccompProfile_DeepCopyInto i = mret i"

definition SeccompProfile_DeepCopy :: "ref \<Rightarrow> (cell, ref) act" where
  "SeccompProfile_DeepCopy = DeepCopy_ref seccomp_t SeccompProfile_DeepCopyInto"

definition PodSecurityContextDefaults_DeepCopyInto :: "PodSecurityContextDefaults_mem \<Rightarrow> (cell, PodSecurityContextDefaults_mem) act" where
  "PodSecurityContextDefaults_DeepCopyInto i =
     mbind (DeepCopy_ref int64_t mret (mpd_FSGroup i)) (\<lambda>a.
     mbind (DeepCopy_ref int64_t mret (mpd_RunAsUser i)) (\<lambda>b.
     mbind (DeepCopy_ref int64_t mret (mpd_RunAsGroup i)) (\<lambda>c.
     mbind (DeepCopy_ref bool_t mret (mpd_RunAsNonRoot i)) (\<lambda>d.
     mbind (DeepCopy_ref int64s_t mret (mpd_SupplementalGroups i)) (\<lambda>e.
     mbind (DeepCopy_ref seccomp_t mret (mpd_SeccompProfile i)) (\<lambda>f.
     mret (i\<lparr>mpd_FSGroup := a, mpd_RunAsUser := b, mpd_RunAsGroup := c, mpd_RunAsNonRoot := d, mpd_SupplementalGroups := e,
       mpd_SeccompProfile := f\<rparr>)))))))"

definition PodSecurityContextDefaults_DeepCopy :: "ref \<Rightarrow> (cell, ref) act" where
  "PodSecurityContextDefaults_DeepCopy = DeepCopy_ref pod_defaults_t PodSecurityContextDefaults_DeepCopyInto"

definition ContainerSecurityContextDefaults_DeepCopyInto :: "ContainerSecurityContextDefaults_mem \<Rightarrow> (cell, ContainerSecurityContextDefaults_mem) act" where
  "ContainerSecurityContextDefaults_DeepCopyInto i =
     mbind (DeepCopy_ref bool_t mret (mcd_RunAsNonRoot i)) (\<lambda>a.
     mbind (DeepCopy_ref bool_t mret (mcd_ReadOnlyRootFilesystem i)) (\<lambda>b.
     mbind (DeepCopy_ref bool_t mret (mcd_AllowPrivilegeEscalation i)) (\<lambda>c.
     mbind (DeepCopy_ref strings_t mret (mcd_CapabilitiesDrop i)) (\<lambda>d.
     mbind (DeepCopy_ref seccomp_t mret (mcd_SeccompProfile i)) (\<lambda>e.
     mbind (DeepCopy_ref int64_t mret (mcd_RunAsUser i)) (\<lambda>f.
     mbind (DeepCopy_ref int64_t mret (mcd_RunAsGroup i)) (\<lambda>g.
     mret (i\<lparr>mcd_RunAsNonRoot := a, mcd_ReadOnlyRootFilesystem := b, mcd_AllowPrivilegeEscalation := c, mcd_CapabilitiesDrop :=
       d, mcd_SeccompProfile := e, mcd_RunAsUser := f, mcd_RunAsGroup := g\<rparr>))))))))"

definition ContainerSecurityContextDefaults_DeepCopy :: "ref \<Rightarrow> (cell, ref) act" where
  "ContainerSecurityContextDefaults_DeepCopy = DeepCopy_ref container_defaults_t ContainerSecurityContextDefaults_DeepCopyInto"

definition SecurityContextDefaults_DeepCopyInto :: "SecurityContextDefaults_mem \<Rightarrow> (cell, SecurityContextDefaults_mem) act" where
  "SecurityContextDefaults_DeepCopyInto i =
     mbind (DeepCopy_ref pod_defaults_t PodSecurityContextDefaults_DeepCopyInto (msd_Pod i)) (\<lambda>a.
     mbind (DeepCopy_ref container_defaults_t ContainerSecurityContextDefaults_DeepCopyInto (msd_Container i)) (\<lambda>b.
     mret (i\<lparr>msd_Pod := a, msd_Container := b\<rparr>)))"

definition SecurityContextDefaults_DeepCopy :: "ref \<Rightarrow> (cell, ref) act" where
  "SecurityContextDefaults_DeepCopy = DeepCopy_ref defaults_t SecurityContextDefaults_DeepCopyInto"

definition CheckRun_DeepCopyInto :: "CheckRun_mem \<Rightarrow> (cell, CheckRun_mem) act" where
  "CheckRun_DeepCopyInto i =
     mbind (DeepCopy_ref bool_t mret (mcr_RecordingSuccessfull i)) (\<lambda>a.
     mbind (DeepCopy_ref bool_t mret (mcr_CheckSuccessfull i)) (\<lambda>b.
     mbind (DeepCopy_ref defaults_t SecurityContextDefaults_DeepCopyInto (mcr_SecurityContext i)) (\<lambda>c.
     mbind (DeepCopy_ref logs_t (DeepCopy_each (DeepCopy_entry (DeepCopy_ref strings_t mret))) (mcr_LogAnomalies i)) (\<lambda>d.
     mbind (DeepCopy_ref bool_t mret (mcr_CpuDeviation i)) (\<lambda>e.
     mbind (DeepCopy_ref bool_t mret (mcr_MemoryDeviation i)) (\<lambda>f.
     mret (i\<lparr>mcr_RecordingSuccessfull := a, mcr_CheckSuccessfull := b, mcr_SecurityContext := c, mcr_LogAnomalies := d,
       mcr_CpuDeviation := e, mcr_MemoryDeviation := f\<rparr>)))))))"

definition CheckRun_DeepCopy :: "ref \<Rightarrow> (cell, ref) act" where
  "CheckRun_DeepCopy = DeepCopy_ref run_t CheckRun_DeepCopyInto"

definition Recommendation_DeepCopyInto :: "k8s_copies \<Rightarrow> Recommendation_mem \<Rightarrow> (cell, Recommendation_mem) act" where
  "Recommendation_DeepCopyInto K i =
     mbind (DeepCopy_ref foreign_t (kc_SecurityContext K) (mrec_ContainerSecurityContexts i)) (\<lambda>a.
     mbind (DeepCopy_ref foreign_t (kc_PodSecurityContext K) (mrec_PodSecurityContext i)) (\<lambda>b.
     mret (i\<lparr>mrec_ContainerSecurityContexts := a, mrec_PodSecurityContext := b\<rparr>)))"

definition Recommendation_DeepCopy :: "k8s_copies \<Rightarrow> ref \<Rightarrow> (cell, ref) act" where
  "Recommendation_DeepCopy K = DeepCopy_ref recommendation_t (Recommendation_DeepCopyInto K)"

definition TargetReference_DeepCopyInto :: "TargetReference_mem \<Rightarrow> (cell, TargetReference_mem) act" where
  "TargetReference_DeepCopyInto i = mret i"

definition TargetReference_DeepCopy :: "ref \<Rightarrow> (cell, ref) act" where
  "TargetReference_DeepCopy = DeepCopy_ref target_t TargetReference_DeepCopyInto"

definition WorkloadHardeningCheckSpec_DeepCopyInto :: "WhcSpec_mem \<Rightarrow> (cell, WhcSpec_mem) act" where
  "WorkloadHardeningCheckSpec_DeepCopyInto i =
     mbind (DeepCopy_ref defaults_t SecurityContextDefaults_DeepCopyInto (mws_SecurityContext i)) (\<lambda>a.
     mret (i\<lparr>mws_SecurityContext := a\<rparr>))"

definition WorkloadHardeningCheckSpec_DeepCopy :: "ref \<Rightarrow> (cell, ref) act" where
  "WorkloadHardeningCheckSpec_DeepCopy = DeepCopy_ref whc_spec_t WorkloadHardeningCheckSpec_DeepCopyInto"

definition WorkloadHardeningCheckStatus_DeepCopyInto :: "k8s_copies \<Rightarrow> WhcStatus_mem \<Rightarrow> (cell, WhcStatus_mem) act" where
  "WorkloadHardeningCheckStatus_DeepCopyInto K i =
     mbind (DeepCopy_ref conditions_t (DeepCopy_each (kc_Condition K)) (mwst_Conditions i)) (\<lambda>a.
     mbind (DeepCopy_ref runs_t (DeepCopy_each (DeepCopy_ref run_t CheckRun_DeepCopyInto)) (mwst_BaselineRuns i)) (\<lambda>b.
     mbind (DeepCopy_ref run_map_t (DeepCopy_each (DeepCopy_entry (DeepCopy_ref run_t CheckRun_DeepCopyInto))) (mwst_CheckRuns i)) (\<lambda>c.
     mbind (DeepCopy_ref run_t CheckRun_DeepCopyInto (mwst_FinalRun i)) (\<lambda>d.
     mbind (DeepCopy_ref recommendation_t (Recommendation_DeepCopyInto K) (mwst_Recommendation i)) (\<lambda>e.
     mret (i\<lparr>mwst_Conditions := a, mwst_BaselineRuns := b, mwst_CheckRuns := c, mwst_FinalRun := d, mwst_Recommendation := e\<rparr>))))))"

definition WorkloadHardeningCheckStatus_DeepCopy :: "k8s_copies \<Rightarrow> ref \<Rightarrow> (cell, ref) act" where
  "WorkloadHardeningCheckStatus_DeepCopy K = DeepCopy_ref whc_status_t (WorkloadHardeningCheckStatus_DeepCopyInto K)"

definition WorkloadHardeningCheck_DeepCopyInto :: "k8s_copies \<Rightarrow> Whc_mem \<Rightarrow> (cell, Whc_mem) act" where
  "WorkloadHardeningCheck_DeepCopyInto K i =
     mbind (kc_ObjectMeta K (mw_ObjectMeta i)) (\<lambda>a.
     mbind (WorkloadHardeningCheckSpec_DeepCopyInto (mw_Spec i)) (\<lambda>b.
     mbind (WorkloadHardeningCheckStatus_DeepCopyInto K (mw_Status i)) (\<lambda>c.
     mret (i\<lparr>mw_ObjectMeta := a, mw_Spec := b, mw_Status := c\<rparr>))))"

definition WorkloadHardeningCheck_DeepCopy :: "k8s_copies \<Rightarrow> ref \<Rightarrow> (cell, ref) act" where
  "WorkloadHardeningCheck_DeepCopy K = DeepCopy_ref whc_t (WorkloadHardeningCheck_DeepCopyInto K)"

text \<open>A \<open>runtime.Object\<close>: a pointer to a struct of one of the registered types.\<close>

datatype runtime_Object = OWhc addr | OWhcList addr | ONhc addr | ONhcList addr

definition WorkloadHardeningCheck_DeepCopyObject :: "k8s_copies \<Rightarrow> ref \<Rightarrow> (cell, runtime_Object option) act" where
  "WorkloadHardeningCheck_DeepCopyObject K p = mbind (WorkloadHardeningCheck_DeepCopy K p) (\<lambda>c. mret (map_option OWhc c))"

definition WorkloadHardeningCheckList_DeepCopyInto :: "k8s_copies \<Rightarrow> List_mem \<Rightarrow> (cell, List_mem) act" where
  "WorkloadHardeningCheckList_DeepCopyInto K i =
     mbind (kc_ListMeta K (ml_ListMeta i)) (\<lambda>a.
     mbind (DeepCopy_ref whcs_t (DeepCopy_each (WorkloadHardeningCheck_DeepCopyInto K)) (ml_Items i)) (\<lambda>b.
     mret (i\<lparr>ml_ListMeta := a, ml_Items := b\<rparr>)))"

definition WorkloadHardeningCheckList_DeepCopy :: "k8s_copies \<Rightarrow> ref \<Rightarrow> (cell, ref) act" where
  "WorkloadHardeningCheckList_DeepCopy K = DeepCopy_ref whc_list_t (WorkloadHardeningCheckList_DeepCopyInto K)"

definition WorkloadHardeningCheckList_DeepCopyObject :: "k8s_copies \<Rightarrow> ref \<Rightarrow> (cell, runtime_Object option) act" where
  "WorkloadHardeningCheckList_DeepCopyObject K p = mbind (WorkloadHardeningCheckList_DeepCopy K p) (\<lambda>c. mret (map_option OWhcList c))"

definition NamespaceHardeningCheckSpec_DeepCopyInto :: "NhcSpec_mem \<Rightarrow> (cell, NhcSpec_mem) act" where
  "NamespaceHardeningCheckSpec_DeepCopyInto i =
     mbind (DeepCopy_ref defaults_t SecurityContextDefaults_DeepCopyInto (mns_SecurityContext i)) (\<lambda>a.
     mret (i\<lparr>mns_SecurityContext := a\<rparr>))"

definition NamespaceHardeningCheckSpec_DeepCopy :: "ref \<Rightarrow> (cell, ref) act" where
  "NamespaceHardeningCheckSpec_DeepCopy = DeepCopy_ref nhc_spec_t NamespaceHardeningCheckSpec_DeepCopyInto"

definition NamespaceHardeningCheckStatus_DeepCopyInto :: "k8s_copies \<Rightarrow> NhcStatus_mem \<Rightarrow> (cell, NhcStatus_mem) act" where
  "NamespaceHardeningCheckStatus_DeepCopyInto K i =
     mbind (DeepCopy_ref conditions_t (DeepCopy_each (kc_Condition K)) (mnst_Conditions i)) (\<lambda>a.
     mbind (DeepCopy_ref recommendation_map_t (DeepCopy_each (DeepCopy_entry (DeepCopy_ref recommendation_t (Recommendation_DeepCopyInto K)))) (mnst_Recommendations i)) (\<lambda>b.
     mret (i\<lparr>mnst_Conditions := a, mnst_Recommendations := b\<rparr>)))"

definition NamespaceHardeningCheckStatus_DeepCopy :: "k8s_copies \<Rightarrow> ref \<Rightarrow> (cell, ref) act" where
  "NamespaceHardeningCheckStatus_DeepCopy K = DeepCopy_ref nhc_status_t (NamespaceHardeningCheckStatus_DeepCopyInto K)"

definition NamespaceHardeningCheck_DeepCopyInto :: "k8s_copies \<Rightarrow> Nhc_mem \<Rightarrow> (cell, Nhc_mem) act" where
  "NamespaceHardeningCheck_DeepCopyInto K i =
     mbind (kc_ObjectMeta K (mn_ObjectMeta i)) (\<lambda>a.
     mbind (NamespaceHardeningCheckSpec_DeepCopyInto (mn_Spec i)) (\<lambda>b.
     mbind (NamespaceHardeningCheckStatus_DeepCopyInto K (mn_Status i)) (\<lambda>c.
     mret (i\<lparr>mn_ObjectMeta := a, mn_Spec := b, mn_Status := c\<rparr>))))"

definition NamespaceHardeningCheck_DeepCopy :: "k8s_copies \<Rightarrow> ref \<Rightarrow> (cell, ref) act" where
  "NamespaceHardeningCheck_DeepCopy K = DeepCopy_ref nhc_t (NamespaceHardeningCheck_DeepCopyInto K)"

definition NamespaceHardeningCheck_DeepCopyObject :: "k8s_copies \<Rightarrow> ref \<Rightarrow> (cell, runtime_Object option) act" where
  "NamespaceHardeningCheck_DeepCopyObject K p = mbind (NamespaceHardeningCheck_DeepCopy K p) (\<lambda>c. mret (map_option ONhc c))"

definition NamespaceHardeningCheckList_DeepCopyInto :: "k8s_copies \<Rightarrow> List_mem \<Rightarrow> (cell, List_mem) act" where
  "NamespaceHardeningCheckList_DeepCopyInto K i =
     mbind (kc_ListMeta K (ml_ListMeta i)) (\<lambda>a.
     mbind (DeepCopy_ref nhcs_t (DeepCopy_each (NamespaceHardeningCheck_DeepCopyInto K)) (ml_Items i)) (\<lambda>b.
     mret (i\<lparr>ml_ListMeta := a, ml_Items := b\<rparr>)))"

definition NamespaceHardeningCheckList_DeepCopy :: "k8s_copies \<Rightarrow> ref \<Rightarrow> (cell, ref) act" where
  "NamespaceHardeningCheckList_DeepCopy K = DeepCopy_ref nhc_list_t (NamespaceHardeningCheckList_DeepCopyInto K)"

definition NamespaceHardeningCheckList_DeepCopyObject :: "k8s_copies \<Rightarrow> ref \<Rightarrow> (cell, runtime_Object option) act" where
  "NamespaceHardeningCheckList_DeepCopyObject K p = mbind (NamespaceHardeningCheckList_DeepCopy K p) (\<lambda>c. mret (map_option ONhcList c))"

section \<open>What the structs say\<close>

text \<open>
  The value of a struct in memory is the record the other theories compute on. Where that record
  does not tell nil from empty, or leaves a field out, the value keeps both: a check run is read
  with its anomalies as they are, a specification with the API version of its target, a status as
  its fields, with the nil entries of its lists and maps.
\<close>

record 'm k8s_readings =
  kr_SecurityContext :: "(cell, foreign, SecurityContext) reading"
  kr_PodSecurityContext :: "(cell, foreign, PodSecurityContext) reading"
  kr_ObjectMeta :: "(cell, foreign, 'm) reading"
  kr_ListMeta :: "(cell, foreign, 'm) reading"

definition nil_as_empty :: "'a list option \<Rightarrow> 'a list" where
  "nil_as_empty s = (case s of None \<Rightarrow> [] | Some xs \<Rightarrow> xs)"

type_synonym run_value = "CheckRun \<times> (string \<times> string list option) list option"
type_synonym whc_status_value = "Condition list option \<times> run_value option list option \<times>
  (string \<times> run_value option) list option \<times> run_value option \<times> Recommendation option"
type_synonym 'm whc_value = "TypeMeta \<times> 'm \<times> (string \<times> WhcSpec) \<times> whc_status_value"
type_synonym nhc_status_value = "Condition list option \<times> (string \<times> Recommendation option) list option"
type_synonym 'm nhc_value = "TypeMeta \<times> 'm \<times> NhcSpec \<times> nhc_status_value"

definition read_PodSecurityContextDefaults :: "(cell, PodSecurityContextDefaults_mem, PodSecurityContextDefaults) reading" where
  "read_PodSecurityContextDefaults = read_fields
     (\<lambda>i. (mpd_FSGroup i, mpd_RunAsUser i, mpd_RunAsGroup i, mpd_RunAsNonRoot i, mpd_SupplementalGroups i,
       mpd_SeccompProfile i))
     (\<lambda>(a, b, c, d, e, f). \<lparr>pd_FSGroup = a, pd_RunAsUser = b, pd_RunAsGroup = c, pd_RunAsNonRoot = d,
       pd_SupplementalGroups = e, pd_SeccompProfile = f\<rparr>)
     (read_both (read_ref int64_t read_plain) (read_both (read_ref int64_t read_plain) (read_both (read_ref int64_t
       read_plain) (read_both (read_ref bool_t read_plain) (read_both (read_ref int64s_t read_plain) (read_ref seccomp_t
       read_plain))))))"

definition read_ContainerSecurityContextDefaults :: "(cell, ContainerSecurityContextDefaults_mem, ContainerSecurityContextDefaults) reading" where
  "read_ContainerSecurityContextDefaults = read_fields
     (\<lambda>i. (mcd_RunAsNonRoot i, mcd_ReadOnlyRootFilesystem i, mcd_AllowPrivilegeEscalation i, mcd_CapabilitiesDrop
       i, mcd_SeccompProfile i, mcd_RunAsUser i, mcd_RunAsGroup i))
     (\<lambda>(a, b, c, d, e, f, g). \<lparr>cd_RunAsNonRoot = a, cd_ReadOnlyRootFilesystem = b,
       cd_AllowPrivilegeEscalation = c, cd_CapabilitiesDrop = d, cd_SeccompProfile = e, cd_RunAsUser = f, cd_RunAsGroup =
       g\<rparr>)
     (read_both (read_ref bool_t read_plain) (read_both (read_ref bool_t read_plain) (read_both (read_ref bool_t
       read_plain) (read_both (read_ref strings_t read_plain) (read_both (read_ref seccomp_t read_plain) (read_both
       (read_ref int64_t read_plain) (read_ref int64_t read_plain)))))))"

definition read_SecurityContextDefaults :: "(cell, SecurityContextDefaults_mem, SecurityContextDefaults) reading" where
  "read_SecurityContextDefaults = read_fields
     (\<lambda>i. (msd_Pod i, msd_Container i))
     (\<lambda>(a, b). \<lparr>sd_Pod = a, sd_Container = b\<rparr>)
     (read_both (read_ref pod_defaults_t read_PodSecurityContextDefaults) (read_ref container_defaults_t
       read_ContainerSecurityContextDefaults))"

definition read_CheckRun :: "(cell, CheckRun_mem, run_value) reading" where
  "read_CheckRun = read_fields
     (\<lambda>i. (mcr_Name i, mcr_RecordingSuccessfull i, mcr_CheckSuccessfull i, mcr_SecurityContext i,
       mcr_FailureReason i, mcr_LogAnomalies i, mcr_CpuDeviation i, mcr_MemoryDeviation i))
     (\<lambda>(a, b, c, d, e, f, g, h). (\<lparr>cr_Name = a, cr_RecordingSuccessfull = b, cr_CheckSuccessfull = c,
       cr_SecurityContext = d, cr_FailureReason = e, cr_LogAnomalies = map_option (map (apsnd nil_as_empty)) f,
       cr_CpuDeviation = g, cr_MemoryDeviation = h\<rparr>, f))
     (read_both read_plain (read_both (read_ref bool_t read_plain) (read_both (read_ref bool_t read_plain) (read_both
       (read_ref defaults_t read_SecurityContextDefaults) (read_both read_plain (read_both (read_ref logs_t (read_each
       (read_both read_plain (read_ref strings_t read_plain)))) (read_both (read_ref bool_t read_plain) (read_ref bool_t
       read_plain))))))))"

definition read_Recommendation :: "'m k8s_readings \<Rightarrow> (cell, Recommendation_mem, Recommendation) reading" where
  "read_Recommendation R = read_fields
     (\<lambda>i. (mrec_ContainerSecurityContexts i, mrec_PodSecurityContext i))
     (\<lambda>(a, b). \<lparr>rec_ContainerSecurityContexts = a, rec_PodSecurityContext = b\<rparr>)
     (read_both (read_ref foreign_t (kr_SecurityContext R)) (read_ref foreign_t (kr_PodSecurityContext R)))"

definition read_WhcSpec :: "(cell, WhcSpec_mem, string \<times> WhcSpec) reading" where
  "read_WhcSpec = read_fields
     (\<lambda>i. (mws_TargetRef i, mws_RecordingDuration i, mws_RunMode i, mws_SecurityContext i, mws_Suffix i))
     (\<lambda>(a, b, c, d, e). (mtr_APIVersion a, \<lparr>ws_TargetRef = \<lparr>tr_Kind = mtr_Kind a, tr_Name =
       mtr_Name a\<rparr>, ws_RecordingDuration = b, ws_RunMode = c, ws_SecurityContext = d, ws_Suffix = e\<rparr>))
     (read_both read_plain (read_both read_plain (read_both read_plain (read_both (read_ref defaults_t
       read_SecurityContextDefaults) read_plain))))"

definition read_WhcStatus :: "'m k8s_readings \<Rightarrow> (cell, WhcStatus_mem, whc_status_value) reading" where
  "read_WhcStatus R = read_fields
     (\<lambda>i. (mwst_Conditions i, mwst_BaselineRuns i, mwst_CheckRuns i, mwst_FinalRun i, mwst_Recommendation i))
     (\<lambda>v. v)
     (read_both (read_ref conditions_t (read_each read_plain)) (read_both (read_ref runs_t (read_each (read_ref run_t
       read_CheckRun))) (read_both (read_ref run_map_t (read_each (read_both read_plain (read_ref run_t read_CheckRun))))
       (read_both (read_ref run_t read_CheckRun) (read_ref recommendation_t (read_Recommendation R))))))"

definition read_Whc :: "'m k8s_readings \<Rightarrow> (cell, Whc_mem, 'm whc_value) reading" where
  "read_Whc R = read_fields
     (\<lambda>i. (mw_TypeMeta i, mw_ObjectMeta i, mw_Spec i, mw_Status i))
     (\<lambda>v. v)
     (read_both read_plain (read_both (kr_ObjectMeta R) (read_both read_WhcSpec (read_WhcStatus R))))"

definition read_WhcList :: "'m k8s_readings \<Rightarrow> (cell, List_mem, TypeMeta \<times> 'm \<times> 'm whc_value list option) reading" where
  "read_WhcList R = read_fields
     (\<lambda>i. (ml_TypeMeta i, ml_ListMeta i, ml_Items i))
     (\<lambda>v. v)
     (read_both read_plain (read_both (kr_ListMeta R) (read_ref whcs_t (read_each (read_Whc R)))))"

definition read_NhcSpec :: "(cell, NhcSpec_mem, NhcSpec) reading" where
  "read_NhcSpec = read_fields
     (\<lambda>i. (mns_TargetNamespace i, mns_RecordingDuration i, mns_RunMode i, mns_SecurityContext i, mns_Suffix i))
     (\<lambda>(a, b, c, d, e). \<lparr>ns_TargetNamespace = a, ns_RecordingDuration = b, ns_RunMode = c,
       ns_SecurityContext = d, ns_Suffix = e\<rparr>)
     (read_both read_plain (read_both read_plain (read_both read_plain (read_both (read_ref defaults_t
       read_SecurityContextDefaults) read_plain))))"

definition read_NhcStatus :: "'m k8s_readings \<Rightarrow> (cell, NhcStatus_mem, nhc_status_value) reading" where
  "read_NhcStatus R = read_fields
     (\<lambda>i. (mnst_Conditions i, mnst_Recommendations i))
     (\<lambda>v. v)
     (read_both (read_ref conditions_t (read_each read_plain)) (read_ref recommendation_map_t (read_each (read_both
       read_plain (read_ref recommendation_t (read_Recommendation R))))))"

definition read_Nhc :: "'m k8s_readings \<Rightarrow> (cell, Nhc_mem, 'm nhc_value) reading" where
  "read_Nhc R = read_fields
     (\<lambda>i. (mn_TypeMeta i, mn_ObjectMeta i, mn_Spec i, mn_Status i))
     (\<lambda>v. v)
     (read_both read_plain (read_both (kr_ObjectMeta R) (read_both read_NhcSpec (read_NhcStatus R))))"

definition read_NhcList :: "'m k8s_readings \<Rightarrow> (cell, List_mem, TypeMeta \<times> 'm \<times> 'm nhc_value list option) reading" where
  "read_NhcList R = read_fields
     (\<lambda>i. (ml_TypeMeta i, ml_ListMeta i, ml_Items i))
     (\<lambda>v. v)
     (read_both read_plain (read_both (kr_ListMeta R) (read_ref nhcs_t (read_each (read_Nhc R)))))"

section \<open>The copies are deep\<close>

text \<open>What the code relies on in the Kubernetes libraries: their copies are deep as well.\<close>

definition k8s_deep_copies :: "k8s_copies \<Rightarrow> 'm k8s_readings \<Rightarrow> bool" where
  "k8s_deep_copies K R \<longleftrightarrow>
     deep_copier (kc_SecurityContext K) (kr_SecurityContext R) \<and>
     deep_copier (kc_PodSecurityContext K) (kr_PodSecurityContext R) \<and>
     deep_copier (kc_ObjectMeta K) (kr_ObjectMeta R) \<and>
     deep_copier (kc_ListMeta K) (kr_ListMeta R) \<and>
     deep_copier (kc_Condition K) read_plain"

lemma k8s_copiers:
  assumes "k8s_deep_copies K R"
  shows "deep_copier (kc_SecurityContext K) (kr_SecurityContext R)" "deep_copier (kc_PodSecurityContext K) (kr_PodSecurityContext R)"
    "deep_copier (kc_ObjectMeta K) (kr_ObjectMeta R)" "deep_copier (kc_ListMeta K) (kr_ListMeta R)"
    "deep_copier (kc_Condition K) read_plain"
  using assms by (simp_all add: k8s_deep_copies_def)

lemma PodSecurityContextDefaults_copier [intro]:
  "deep_copier PodSecurityContextDefaults_DeepCopyInto read_PodSecurityContextDefaults"
  unfolding read_PodSecurityContextDefaults_def
  by (rule fields_copier [where filled = "\<lambda>i (a, b, c, d, e, f). i\<lparr>mpd_FSGroup := a, mpd_RunAsUser := b, mpd_RunAsGroup := c, mpd_RunAsNonRoot
    := d, mpd_SupplementalGroups := e, mpd_SeccompProfile := f\<rparr>"],
    (rule copiers held )+) (auto simp: PodSecurityContextDefaults_DeepCopyInto_def DeepCopy_both_pair simp del: mret_apply)

lemma ContainerSecurityContextDefaults_copier [intro]:
  "deep_copier ContainerSecurityContextDefaults_DeepCopyInto read_ContainerSecurityContextDefaults"
  unfolding read_ContainerSecurityContextDefaults_def
  by (rule fields_copier [where filled = "\<lambda>i (a, b, c, d, e, f, g). i\<lparr>mcd_RunAsNonRoot := a, mcd_ReadOnlyRootFilesystem := b,
    mcd_AllowPrivilegeEscalation := c, mcd_CapabilitiesDrop := d, mcd_SeccompProfile := e, mcd_RunAsUser := f,
    mcd_RunAsGroup := g\<rparr>"],
    (rule copiers held )+) (auto simp: ContainerSecurityContextDefaults_DeepCopyInto_def DeepCopy_both_pair simp del: mret_apply)

lemma SecurityContextDefaults_copier [intro]:
  "deep_copier SecurityContextDefaults_DeepCopyInto read_SecurityContextDefaults"
  unfolding read_SecurityContextDefaults_def
  by (rule fields_copier [where filled = "\<lambda>i (a, b). i\<lparr>msd_Pod := a, msd_Container := b\<rparr>"],
    (rule copiers held PodSecurityContextDefaults_copier ContainerSecurityContextDefaults_copier)+) (auto simp: SecurityContextDefaults_DeepCopyInto_def DeepCopy_both_pair simp del: mret_apply)

lemma CheckRun_copier [intro]:
  "deep_copier CheckRun_DeepCopyInto read_CheckRun"
  unfolding read_CheckRun_def
  by (rule fields_copier [where filled = "\<lambda>i (a, b, c, d, e, f, g, h). i\<lparr>mcr_Name := a, mcr_RecordingSuccessfull := b, mcr_CheckSuccessfull :=
    c, mcr_SecurityContext := d, mcr_FailureReason := e, mcr_LogAnomalies := f, mcr_CpuDeviation := g,
    mcr_MemoryDeviation := h\<rparr>"],
    (rule copiers held SecurityContextDefaults_copier)+) (auto simp: CheckRun_DeepCopyInto_def DeepCopy_both_pair simp del: mret_apply)

lemma WhcSpec_copier [intro]:
  "deep_copier WorkloadHardeningCheckSpec_DeepCopyInto read_WhcSpec"
  unfolding read_WhcSpec_def
  by (rule fields_copier [where filled = "\<lambda>i (a, b, c, d, e). i\<lparr>mws_TargetRef := a, mws_RecordingDuration := b, mws_RunMode := c,
    mws_SecurityContext := d, mws_Suffix := e\<rparr>"],
    (rule copiers held SecurityContextDefaults_copier)+) (auto simp: WorkloadHardeningCheckSpec_DeepCopyInto_def DeepCopy_both_pair simp del: mret_apply)

lemma NhcSpec_copier [intro]:
  "deep_copier NamespaceHardeningCheckSpec_DeepCopyInto read_NhcSpec"
  unfolding read_NhcSpec_def
  by (rule fields_copier [where filled = "\<lambda>i (a, b, c, d, e). i\<lparr>mns_TargetNamespace := a, mns_RecordingDuration := b, mns_RunMode := c,
    mns_SecurityContext := d, mns_Suffix := e\<rparr>"],
    (rule copiers held SecurityContextDefaults_copier)+) (auto simp: NamespaceHardeningCheckSpec_DeepCopyInto_def DeepCopy_both_pair simp del: mret_apply)

lemma Recommendation_copier:
  assumes "k8s_deep_copies K R"
  shows "deep_copier (Recommendation_DeepCopyInto K) (read_Recommendation R)"
  unfolding read_Recommendation_def
  by (rule fields_copier [where filled = "\<lambda>i (a, b). i\<lparr>mrec_ContainerSecurityContexts := a, mrec_PodSecurityContext := b\<rparr>"],
    (rule copiers held k8s_copiers [OF assms])+) (auto simp: Recommendation_DeepCopyInto_def DeepCopy_both_pair simp del: mret_apply)

lemma WhcStatus_copier:
  assumes "k8s_deep_copies K R"
  shows "deep_copier (WorkloadHardeningCheckStatus_DeepCopyInto K) (read_WhcStatus R)"
  unfolding read_WhcStatus_def
  by (rule fields_copier [where filled = "\<lambda>i (a, b, c, d, e). i\<lparr>mwst_Conditions := a, mwst_BaselineRuns := b, mwst_CheckRuns := c,
    mwst_FinalRun := d, mwst_Recommendation := e\<rparr>"],
    (rule copiers held CheckRun_copier Recommendation_copier [OF assms] k8s_copiers [OF assms])+) (auto simp: WorkloadHardeningCheckStatus_DeepCopyInto_def DeepCopy_both_pair simp del: mret_apply)

lemma NhcStatus_copier:
  assumes "k8s_deep_copies K R"
  shows "deep_copier (NamespaceHardeningCheckStatus_DeepCopyInto K) (read_NhcStatus R)"
  unfolding read_NhcStatus_def
  by (rule fields_copier [where filled = "\<lambda>i (a, b). i\<lparr>mnst_Conditions := a, mnst_Recommendations := b\<rparr>"],
    (rule copiers held Recommendation_copier [OF assms] k8s_copiers [OF assms])+) (auto simp: NamespaceHardeningCheckStatus_DeepCopyInto_def DeepCopy_both_pair simp del: mret_apply)

lemma Whc_copier:
  assumes "k8s_deep_copies K R"
  shows "deep_copier (WorkloadHardeningCheck_DeepCopyInto K) (read_Whc R)"
  unfolding read_Whc_def
  by (rule fields_copier [where filled = "\<lambda>i (a, b, c, d). i\<lparr>mw_TypeMeta := a, mw_ObjectMeta := b, mw_Spec := c, mw_Status := d\<rparr>"],
    (rule copiers held WhcSpec_copier WhcStatus_copier [OF assms] k8s_copiers [OF assms])+) (auto simp: WorkloadHardeningCheck_DeepCopyInto_def DeepCopy_both_pair simp del: mret_apply)

lemma Nhc_copier:
  assumes "k8s_deep_copies K R"
  shows "deep_copier (NamespaceHardeningCheck_DeepCopyInto K) (read_Nhc R)"
  unfolding read_Nhc_def
  by (rule fields_copier [where filled = "\<lambda>i (a, b, c, d). i\<lparr>mn_TypeMeta := a, mn_ObjectMeta := b, mn_Spec := c, mn_Status := d\<rparr>"],
    (rule copiers held NhcSpec_copier NhcStatus_copier [OF assms] k8s_copiers [OF assms])+) (auto simp: NamespaceHardeningCheck_DeepCopyInto_def DeepCopy_both_pair simp del: mret_apply)

lemma WhcList_copier:
  assumes "k8s_deep_copies K R"
  shows "deep_copier (WorkloadHardeningCheckList_DeepCopyInto K) (read_WhcList R)"
  unfolding read_WhcList_def
  by (rule fields_copier [where filled = "\<lambda>i (a, b, c). i\<lparr>ml_TypeMeta := a, ml_ListMeta := b, ml_Items := c\<rparr>"],
    (rule copiers held Whc_copier [OF assms] k8s_copiers [OF assms])+) (auto simp: WorkloadHardeningCheckList_DeepCopyInto_def DeepCopy_both_pair simp del: mret_apply)

lemma NhcList_copier:
  assumes "k8s_deep_copies K R"
  shows "deep_copier (NamespaceHardeningCheckList_DeepCopyInto K) (read_NhcList R)"
  unfolding read_NhcList_def
  by (rule fields_copier [where filled = "\<lambda>i (a, b, c). i\<lparr>ml_TypeMeta := a, ml_ListMeta := b, ml_Items := c\<rparr>"],
    (rule copiers held Nhc_copier [OF assms] k8s_copiers [OF assms])+) (auto simp: NamespaceHardeningCheckList_DeepCopyInto_def DeepCopy_both_pair simp del: mret_apply)

text \<open>\<open>DeepCopy\<close> of the types that hold nothing of Kubernetes: the contract is met outright.\<close>

interpretation run_copy: deep_copier CheckRun_DeepCopy "read_ref run_t read_CheckRun"
  unfolding CheckRun_DeepCopy_def by (rule ref_copier [OF held(10) CheckRun_copier])

interpretation defaults_copy: deep_copier SecurityContextDefaults_DeepCopy "read_ref defaults_t read_SecurityContextDefaults"
  unfolding SecurityContextDefaults_DeepCopy_def by (rule ref_copier [OF held(8) SecurityContextDefaults_copier])

text \<open>And of the objects of the API, as far as the copies of their Kubernetes parts meet it.\<close>

lemma object_copiers:
  assumes "k8s_deep_copies K R"
  shows "deep_copier (Recommendation_DeepCopy K) (read_ref recommendation_t (read_Recommendation R))"
    "deep_copier (WorkloadHardeningCheck_DeepCopy K) (read_ref whc_t (read_Whc R))"
    "deep_copier (WorkloadHardeningCheckList_DeepCopy K) (read_ref whc_list_t (read_WhcList R))"
    "deep_copier (NamespaceHardeningCheck_DeepCopy K) (read_ref nhc_t (read_Nhc R))"
    "deep_copier (NamespaceHardeningCheckList_DeepCopy K) (read_ref nhc_list_t (read_NhcList R))"
  unfolding Recommendation_DeepCopy_def WorkloadHardeningCheck_DeepCopy_def WorkloadHardeningCheckList_DeepCopy_def
    NamespaceHardeningCheck_DeepCopy_def NamespaceHardeningCheckList_DeepCopy_def
  using Recommendation_copier [OF assms] Whc_copier [OF assms] WhcList_copier [OF assms] Nhc_copier [OF assms]
    NhcList_copier [OF assms]
  by (simp_all add: ref_copier)

text \<open>\<open>DeepCopyObject\<close> wraps the reference \<open>DeepCopy\<close> makes; nil gives a nil object, not a typed one.\<close>

lemma DeepCopyObject_wraps:
  "WorkloadHardeningCheck_DeepCopy K p h = Some (q, h') \<Longrightarrow>
     WorkloadHardeningCheck_DeepCopyObject K p h = Some (map_option OWhc q, h')"
  "WorkloadHardeningCheckList_DeepCopy K p h = Some (q, h') \<Longrightarrow>
     WorkloadHardeningCheckList_DeepCopyObject K p h = Some (map_option OWhcList q, h')"
  "NamespaceHardeningCheck_DeepCopy K p h = Some (q, h') \<Longrightarrow>
     NamespaceHardeningCheck_DeepCopyObject K p h = Some (map_option ONhc q, h')"
  "NamespaceHardeningCheckList_DeepCopy K p h = Some (q, h') \<Longrightarrow>
     NamespaceHardeningCheckList_DeepCopyObject K p h = Some (map_option ONhcList q, h')"
  by (simp_all add: WorkloadHardeningCheck_DeepCopyObject_def WorkloadHardeningCheckList_DeepCopyObject_def
      NamespaceHardeningCheck_DeepCopyObject_def NamespaceHardeningCheckList_DeepCopyObject_def mbind_Some)

text \<open>C10: Copying a check never faults and leaves every cell of memory as it was. The copy reads as
  the original does, reaches each of its cells once and none of the original's, even where the
  original shares cells within itself, so that no series of writes to the one shows in the other.\<close>

theorem WorkloadHardeningCheck_DeepCopy_isolates:
  assumes "k8s_deep_copies K R" "read_ref whc_t (read_Whc R) h p = Some (F, v)"
  shows "\<exists>q h' G. WorkloadHardeningCheck_DeepCopy K p h = Some (q, h') \<and> grows h h' \<and>
    read_ref whc_t (read_Whc R) h' p = Some (F, v) \<and> read_ref whc_t (read_Whc R) h' q = Some (G, v) \<and>
    distinct G \<and> set F \<inter> set G = {} \<and>
    (\<forall>ws. fst ` set ws \<subseteq> set G \<longrightarrow> read_ref whc_t (read_Whc R) (mem_writes ws h') p = Some (F, v)) \<and>
    (\<forall>ws. fst ` set ws \<subseteq> set F \<longrightarrow> read_ref whc_t (read_Whc R) (mem_writes ws h') q = Some (G, v))"
  by (rule deep_copier.isolated [OF object_copiers(2) [OF assms(1)] assms(2)])

text \<open>
  A check whose two runs share the verdict and the applied context, with Kubernetes structs that
  hold a reference to a boolean.
\<close>

definition flags_DeepCopyInto :: "foreign \<Rightarrow> (cell, foreign) act" where
  "flags_DeepCopyInto i = mbind (DeepCopy_each (DeepCopy_ref bool_t mret) (fo_refs i)) (\<lambda>rs. mret (i\<lparr>fo_refs := rs\<rparr>))"

definition read_flags :: "(string \<times> bool option list \<Rightarrow> 'v) \<Rightarrow> (cell, foreign, 'v) reading" where
  "read_flags made = read_fields (\<lambda>i. (fo_plain i, fo_refs i)) made
     (read_both read_plain (read_each (read_ref bool_t read_plain)))"

lemma flags_copier: "deep_copier flags_DeepCopyInto (read_flags made)"
  unfolding read_flags_def
  by (rule fields_copier [where filled = "\<lambda>i (a, b). i\<lparr>fo_plain := a, fo_refs := b\<rparr>"], (rule copiers held)+)
    (auto simp: flags_DeepCopyInto_def DeepCopy_both_pair simp del: mret_apply)

definition flag_copies :: k8s_copies where
  "flag_copies = \<lparr>kc_SecurityContext = flags_DeepCopyInto, kc_PodSecurityContext = flags_DeepCopyInto,
     kc_ObjectMeta = flags_DeepCopyInto, kc_ListMeta = flags_DeepCopyInto, kc_Condition = mret\<rparr>"

definition flag_readings :: "string k8s_readings" where
  "flag_readings = \<lparr>kr_SecurityContext = read_flags (\<lambda>v. empty_sc\<lparr>sc_RunAsNonRoot := hd (snd v @ [None])\<rparr>),
     kr_PodSecurityContext = read_flags (\<lambda>v. empty_psc\<lparr>psc_RunAsNonRoot := hd (snd v @ [None])\<rparr>),
     kr_ObjectMeta = read_flags fst, kr_ListMeta = read_flags fst\<rparr>"

definition shared_mem :: "cell mem" where
  "shared_mem =
    [CBool True,
     CContainerDefaults (zero_ContainerSecurityContextDefaults\<lparr>mcd_RunAsNonRoot := Some 0\<rparr>),
     CDefaults \<lparr>msd_Pod = None, msd_Container = Some 1\<rparr>,
     CRun (zero_CheckRun\<lparr>mcr_Name := ''User'', mcr_CheckSuccessfull := Some 0, mcr_SecurityContext := Some 2\<rparr>),
     CRunMap [(''User'', Some 3), (''Group'', None)],
     CForeign \<lparr>fo_plain = '''', fo_refs = [Some 0]\<rparr>,
     CRecommendation \<lparr>mrec_ContainerSecurityContexts = Some 5, mrec_PodSecurityContext = None\<rparr>,
     CWhc (zero_Whc\<lparr>mw_ObjectMeta := \<lparr>fo_plain = ''app'', fo_refs = []\<rparr>,
       mw_Spec := zero_WhcSpec\<lparr>mws_SecurityContext := Some 2\<rparr>,
       mw_Status := zero_WhcStatus\<lparr>mwst_CheckRuns := Some 4, mwst_FinalRun := Some 3, mwst_Recommendation := Some 6\<rparr>\<rparr>)]"

theorem WorkloadHardeningCheck_DeepCopy_isolates_witness:
  "\<exists>v q h' G. read_ref whc_t (read_Whc flag_readings) shared_mem (Some 7) =
      Some ([7, 2, 1, 0, 4, 3, 0, 2, 1, 0, 3, 0, 2, 1, 0, 6, 5, 0], v) \<and>
    WorkloadHardeningCheck_DeepCopy flag_copies (Some 7) shared_mem = Some (q, h') \<and>
    read_ref whc_t (read_Whc flag_readings) h' q = Some (G, v) \<and> distinct G"
proof -
  have k: "k8s_deep_copies flag_copies flag_readings"
    by (simp add: k8s_deep_copies_def flag_copies_def flag_readings_def flags_copier plain_copier)
  have "map_option fst (read_ref whc_t (read_Whc flag_readings) shared_mem (Some 7)) =
      Some [7, 2, 1, 0, 4, 3, 0, 2, 1, 0, 3, 0, 2, 1, 0, 6, 5, 0]"
    by code_simp
  then obtain v where v: "read_ref whc_t (read_Whc flag_readings) shared_mem (Some 7) =
      Some ([7, 2, 1, 0, 4, 3, 0, 2, 1, 0, 3, 0, 2, 1, 0, 6, 5, 0], v)"
    by auto
  show ?thesis
    using v WorkloadHardeningCheck_DeepCopy_isolates [OF k v] by blast
qed

end
