(* ===== verification/SharedMerge.thy ===== *)
theory SharedMerge
  imports SecurityContexts Memory
begin

text \<open>
  \<open>mergeContainerSecurityContexts\<close> (\<^verbatim>\<open>internal/workload/securityContext.go\<close>) on memory with
  pointers. The merged context starts as a deep copy of the base, but what the base leaves nil it
  takes from the extension by pointer. One of these pointers is written through afterwards: when
  the base has no capabilities, the rebuilt drop list lands in the extension's own \<open>Capabilities\<close>
  struct. The theorem below says what that does and that the value functions of
  \<open>SecurityContexts\<close> are right about everything else.

  \<open>DeepCopy\<close> of the Kubernetes type is not in the repository: it is the argument \<open>dc\<close>. A slice is
  one cell; \<open>append\<close> may use spare room behind the elements of its first slice, which no other
  slice here can see.
\<close>

section \<open>Security contexts in memory\<close>

record Capabilities_mem =
  mcap_Add :: ref
  mcap_Drop :: ref

record SecurityContext_mem =
  msc_RunAsUser :: ref
  msc_RunAsGroup :: ref
  msc_RunAsNonRoot :: ref
  msc_Capabilities :: ref
  msc_Privileged :: ref
  msc_AllowPrivilegeEscalation :: ref
  msc_ReadOnlyRootFilesystem :: ref
  msc_SeccompProfile :: ref
  msc_SELinuxOptions :: ref
  msc_others :: string

datatype kcell = KBool bool | KInt64 int64 | KString string | KSeccomp K8sSeccompProfile | KStrings "string list"
  | KCaps Capabilities_mem | KSc SecurityContext_mem

definition kbool_t :: "(kcell, bool) go_type" where
  "kbool_t = \<lparr>go_inj = KBool, go_proj = (\<lambda>c. case c of KBool x \<Rightarrow> Some x | _ \<Rightarrow> None), go_zero = (\<lambda>_. False)\<rparr>"

definition kint64_t :: "(kcell, int64) go_type" where
  "kint64_t = \<lparr>go_inj = KInt64, go_proj = (\<lambda>c. case c of KInt64 x \<Rightarrow> Some x | _ \<Rightarrow> None), go_zero = (\<lambda>_. 0)\<rparr>"

definition kstring_t :: "(kcell, string) go_type" where
  "kstring_t = \<lparr>go_inj = KString, go_proj = (\<lambda>c. case c of KString x \<Rightarrow> Some x | _ \<Rightarrow> None), go_zero = (\<lambda>_. '''')\<rparr>"

definition kseccomp_t :: "(kcell, K8sSeccompProfile) go_type" where
  "kseccomp_t = \<lparr>go_inj = KSeccomp, go_proj = (\<lambda>c. case c of KSeccomp x \<Rightarrow> Some x | _ \<Rightarrow> None),
     go_zero = (\<lambda>_. \<lparr>ks_Type = '''', ks_LocalhostProfile = None\<rparr>)\<rparr>"

definition kstrings_t :: "(kcell, string list) go_type" where
  "kstrings_t = \<lparr>go_inj = KStrings, go_proj = (\<lambda>c. case c of KStrings x \<Rightarrow> Some x | _ \<Rightarrow> None),
     go_zero = map (\<lambda>_. '''')\<rparr>"

definition kcaps_t :: "(kcell, Capabilities_mem) go_type" where
  "kcaps_t = \<lparr>go_inj = KCaps, go_proj = (\<lambda>c. case c of KCaps x \<Rightarrow> Some x | _ \<Rightarrow> None),
     go_zero = (\<lambda>_. \<lparr>mcap_Add = None, mcap_Drop = None\<rparr>)\<rparr>"

definition ksc_t :: "(kcell, SecurityContext_mem) go_type" where
  "ksc_t = \<lparr>go_inj = KSc, go_proj = (\<lambda>c. case c of KSc x \<Rightarrow> Some x | _ \<Rightarrow> None),
     go_zero = (\<lambda>_. \<lparr>msc_RunAsUser = None, msc_RunAsGroup = None, msc_RunAsNonRoot = None, msc_Capabilities = None,
       msc_Privileged = None, msc_AllowPrivilegeEscalation = None, msc_ReadOnlyRootFilesystem = None,
       msc_SeccompProfile = None, msc_SELinuxOptions = None, msc_others = ''''\<rparr>)\<rparr>"

definition read_caps :: "(kcell, Capabilities_mem, Capabilities) reading" where
  "read_caps = read_fields (\<lambda>i. (mcap_Add i, mcap_Drop i)) (\<lambda>(a, b). \<lparr>cap_Add = a, cap_Drop = b\<rparr>)
     (read_both (read_ref kstrings_t read_plain) (read_ref kstrings_t read_plain))"

definition read_sc :: "(kcell, SecurityContext_mem, SecurityContext) reading" where
  "read_sc = read_fields
     (\<lambda>i. (msc_RunAsUser i, msc_RunAsGroup i, msc_RunAsNonRoot i, msc_Capabilities i, msc_Privileged i,
       msc_AllowPrivilegeEscalation i, msc_ReadOnlyRootFilesystem i, msc_SeccompProfile i, msc_SELinuxOptions i, msc_others i))
     (\<lambda>(a, b, c, d, e, f, g, h, i, j). \<lparr>sc_RunAsUser = a, sc_RunAsGroup = b, sc_RunAsNonRoot = c, sc_Capabilities = d,
       sc_Privileged = e, sc_AllowPrivilegeEscalation = f, sc_ReadOnlyRootFilesystem = g, sc_SeccompProfile = h,
       sc_SELinuxOptions = i, sc_others = j\<rparr>)
     (read_both (read_ref kint64_t read_plain) (read_both (read_ref kint64_t read_plain)
     (read_both (read_ref kbool_t read_plain) (read_both (read_ref kcaps_t read_caps)
     (read_both (read_ref kbool_t read_plain) (read_both (read_ref kbool_t read_plain)
     (read_both (read_ref kbool_t read_plain) (read_both (read_ref kseccomp_t read_plain)
     (read_both (read_ref kstring_t read_plain) read_plain)))))))))"

text \<open>The value a context pointer stands for.\<close>

definition sc_value :: "kcell mem \<Rightarrow> ref \<Rightarrow> SecurityContext option option" where
  "sc_value = value_read (read_ref ksc_t read_sc)"

section \<open>The merge\<close>

text \<open>The drop lists, on the \<open>Capabilities\<close> structs at \<open>c\<close> and \<open>d\<close>, which may be the same one.\<close>

definition mergeDrop_mem :: "nat list \<Rightarrow> addr \<Rightarrow> addr \<Rightarrow> (kcell, unit) act" where
  "mergeDrop_mem \<sigma> c d =
     mbind (mem_load kcaps_t c) (\<lambda>m. mbind (mem_load kcaps_t d) (\<lambda>e.
     mbind (if mcap_Drop m = None \<and> mcap_Drop e \<noteq> None then mem_store kcaps_t c (m\<lparr>mcap_Drop := mcap_Drop e\<rparr>) else mret ()) (\<lambda>_.
     mbind (mem_load kcaps_t c) (\<lambda>m. mbind (mem_load kcaps_t d) (\<lambda>e.
     case (mcap_Drop m, mcap_Drop e) of
       (Some s, Some t) \<Rightarrow>
         mbind (mem_load kstrings_t s) (\<lambda>xs. mbind (mem_load kstrings_t t) (\<lambda>ys.
         mbind (case slices_Collect (collect_keys \<sigma> (xs @ ys)) of None \<Rightarrow> mret None
           | Some zs \<Rightarrow> mbind (mem_new kstrings_t zs) (\<lambda>z. mret (Some z))) (\<lambda>r.
         mem_store kcaps_t c (m\<lparr>mcap_Drop := r\<rparr>))))
     | _ \<Rightarrow> mret ())))))"

text \<open>The merge into the copy at \<open>m\<close> from the extension at \<open>e\<close>, and the function around it.\<close>

definition mergeInto_mem :: "nat list \<Rightarrow> addr \<Rightarrow> addr \<Rightarrow> (kcell, unit) act" where
  "mergeInto_mem \<sigma> m e =
     mbind (mem_load ksc_t m) (\<lambda>x. mbind (mem_load ksc_t e) (\<lambda>y.
     mbind (mem_store ksc_t m (x\<lparr>msc_RunAsUser := fill (msc_RunAsUser x) (msc_RunAsUser y),
       msc_RunAsGroup := fill (msc_RunAsGroup x) (msc_RunAsGroup y),
       msc_Capabilities := fill (msc_Capabilities x) (msc_Capabilities y)\<rparr>)) (\<lambda>_.
     mbind (mem_load ksc_t m) (\<lambda>x. mbind (mem_load ksc_t e) (\<lambda>y.
     mbind (case (msc_Capabilities x, msc_Capabilities y) of (Some c, Some d) \<Rightarrow> mergeDrop_mem \<sigma> c d | _ \<Rightarrow> mret ()) (\<lambda>_.
     mbind (mem_load ksc_t m) (\<lambda>x. mbind (mem_load ksc_t e) (\<lambda>y.
     mem_store ksc_t m (x\<lparr>msc_Privileged := fill (msc_Privileged x) (msc_Privileged y),
       msc_AllowPrivilegeEscalation := fill (msc_AllowPrivilegeEscalation x) (msc_AllowPrivilegeEscalation y),
       msc_ReadOnlyRootFilesystem := fill (msc_ReadOnlyRootFilesystem x) (msc_ReadOnlyRootFilesystem y),
       msc_SeccompProfile := fill (msc_SeccompProfile x) (msc_SeccompProfile y),
       msc_SELinuxOptions := fill (msc_SELinuxOptions x) (msc_SELinuxOptions y)\<rparr>)))))))))"

definition mergeContainer_mem :: "nat list \<Rightarrow> (ref \<Rightarrow> (kcell, ref) act) \<Rightarrow> ref \<Rightarrow> ref \<Rightarrow> (kcell, ref) act" where
  "mergeContainer_mem \<sigma> dc base extends =
     (case base of None \<Rightarrow> mret extends | Some _ \<Rightarrow> (case extends of None \<Rightarrow> mret base | Some e \<Rightarrow>
       mbind (dc base) (\<lambda>merged. case merged of None \<Rightarrow> (\<lambda>_. None) | Some m \<Rightarrow>
         mbind (mergeInto_mem \<sigma> m e) (\<lambda>_. mret merged))))"

section \<open>What the cells say\<close>

abbreviation "leaf T \<equiv> value_read (read_ref T read_plain)"

definition caps_says :: "kcell mem \<Rightarrow> ref \<Rightarrow> Capabilities option \<Rightarrow> bool" where
  "caps_says h p v \<longleftrightarrow> (case p of None \<Rightarrow> v = None | Some c \<Rightarrow> c < length h \<and> (\<exists>k u. h ! c = KCaps k \<and> v = Some u \<and>
     leaf kstrings_t h (mcap_Add k) = Some (cap_Add u) \<and> leaf kstrings_t h (mcap_Drop k) = Some (cap_Drop u)))"

definition sc_fields :: "kcell mem \<Rightarrow> SecurityContext_mem \<Rightarrow> SecurityContext \<Rightarrow> bool" where
  "sc_fields h s u \<longleftrightarrow> leaf kint64_t h (msc_RunAsUser s) = Some (sc_RunAsUser u) \<and>
     leaf kint64_t h (msc_RunAsGroup s) = Some (sc_RunAsGroup u) \<and>
     leaf kbool_t h (msc_RunAsNonRoot s) = Some (sc_RunAsNonRoot u) \<and>
     leaf kbool_t h (msc_Privileged s) = Some (sc_Privileged u) \<and>
     leaf kbool_t h (msc_AllowPrivilegeEscalation s) = Some (sc_AllowPrivilegeEscalation u) \<and>
     leaf kbool_t h (msc_ReadOnlyRootFilesystem s) = Some (sc_ReadOnlyRootFilesystem u) \<and>
     leaf kseccomp_t h (msc_SeccompProfile s) = Some (sc_SeccompProfile u) \<and>
     leaf kstring_t h (msc_SELinuxOptions s) = Some (sc_SELinuxOptions u) \<and> msc_others s = sc_others u"

lemma proj_caps [simp]: "go_proj kcaps_t c = Some k \<longleftrightarrow> c = KCaps k"
  by (cases c) (auto simp: kcaps_t_def)

lemma proj_sc [simp]: "go_proj ksc_t c = Some s \<longleftrightarrow> c = KSc s"
  by (cases c) (auto simp: ksc_t_def)

lemma value_caps: "value_read (read_ref kcaps_t read_caps) h p = Some v \<longleftrightarrow> caps_says h p v"
  by (cases p) (auto simp: caps_says_def read_caps_def value_both value_fields value_ref [of kcaps_t])

lemma value_sc:
  "sc_value h p = Some v \<longleftrightarrow> (case p of None \<Rightarrow> v = None | Some a \<Rightarrow> a < length h \<and>
     (\<exists>s u. h ! a = KSc s \<and> v = Some u \<and> sc_fields h s u \<and> caps_says h (msc_Capabilities s) (sc_Capabilities u)))"
  by (cases p) (auto simp: sc_value_def sc_fields_def read_sc_def value_plain value_both value_fields value_ref [of ksc_t] value_caps,
    metis SecurityContext.surjective old.unit.exhaust)

lemma leaf_fill: "leaf T h p = Some v \<Longrightarrow> leaf T h q = Some w \<Longrightarrow> leaf T h (fill p q) = Some (fill v w)"
  by (cases p) (auto simp: value_ref)

text \<open>The merge writes to structs and makes new cells: the plain cells stay as they are.\<close>

definition leafy :: "kcell \<Rightarrow> bool" where
  "leafy c \<longleftrightarrow> (case c of KCaps _ \<Rightarrow> False | KSc _ \<Rightarrow> False | _ \<Rightarrow> True)"

definition steady :: "kcell mem \<Rightarrow> kcell mem \<Rightarrow> bool" where
  "steady h h' \<longleftrightarrow> length h \<le> length h' \<and> (\<forall>a < length h. leafy (h ! a) \<longrightarrow> h' ! a = h ! a)"

lemma steady_refl [simp]: "steady h h"
  by (simp add: steady_def)

lemma steady_trans: "steady h h' \<Longrightarrow> steady h' h'' \<Longrightarrow> steady h h''"
  by (simp add: steady_def)

lemma steady_store [simp]: "\<not> leafy (h ! a) \<Longrightarrow> steady h (h[a := c])"
  unfolding steady_def by (metis length_list_update nth_list_update_neq order_refl)

lemma steady_new: "steady h h' \<Longrightarrow> steady h (h' @ [c])"
  by (auto simp: steady_def nth_append)

lemma steady_grows: "grows h h' \<Longrightarrow> steady h h'"
  by (simp add: steady_def grows_def same_on_def)

lemma leaf_steady:
  "leaf T h p = Some v \<Longrightarrow> steady h h' \<Longrightarrow> (\<And>c x. go_proj T c = Some x \<Longrightarrow> leafy c) \<Longrightarrow> leaf T h' p = Some v"
  by (cases p) (auto simp: value_ref value_plain steady_def)

lemma leaf_types:
  "go_proj kbool_t c = Some x1 \<Longrightarrow> leafy c" "go_proj kint64_t c = Some x2 \<Longrightarrow> leafy c"
  "go_proj kstring_t c = Some x3 \<Longrightarrow> leafy c" "go_proj kseccomp_t c = Some x4 \<Longrightarrow> leafy c"
  "go_proj kstrings_t c = Some x5 \<Longrightarrow> leafy c"
  by (auto simp: leafy_def kbool_t_def kint64_t_def kstring_t_def kseccomp_t_def kstrings_t_def split: kcell.splits)

lemmas leaves_steady = leaf_steady [OF _ _ leaf_types(1)] leaf_steady [OF _ _ leaf_types(2)]
  leaf_steady [OF _ _ leaf_types(3)] leaf_steady [OF _ _ leaf_types(4)] leaf_steady [OF _ _ leaf_types(5)]

lemma fields_steady: "sc_fields h s u \<Longrightarrow> steady h h' \<Longrightarrow> sc_fields h' s u"
  unfolding sc_fields_def by (auto intro: leaves_steady)

lemma steady_length: "steady h h' \<Longrightarrow> a < length h \<Longrightarrow> a < length h'"
  by (simp add: steady_def)

lemma caps_steady: "caps_says h p v \<Longrightarrow> steady h h' \<Longrightarrow> (\<And>c. p = Some c \<Longrightarrow> h' ! c = h ! c) \<Longrightarrow> caps_says h' p v"
  unfolding caps_says_def by (cases p) (auto dest: steady_length intro: leaves_steady)

lemma caps_grows: "caps_says h p v \<Longrightarrow> grows h h' \<Longrightarrow> caps_says h' p v"
  by (rule caps_steady) (auto simp: caps_says_def grows_def same_on_def intro: steady_grows)

lemma caps_store: "caps_says h p v \<Longrightarrow> h ! m = KSc x \<Longrightarrow> caps_says (h[m := KSc z]) p v"
  by (rule caps_steady, assumption) (auto simp: caps_says_def leafy_def intro!: steady_store nth_list_update_neq)

section \<open>What the merge does\<close>

lemma leaf_strings: "leaf kstrings_t h (Some s) = Some v \<longleftrightarrow> s < length h \<and> (\<exists>xs. h ! s = KStrings xs \<and> v = Some xs)"
  by (auto simp: value_ref value_plain kstrings_t_def split: kcell.splits)

lemma load_steps:
  "c < length h \<Longrightarrow> h ! c = KCaps m \<Longrightarrow> mbind (mem_load kcaps_t c) f h = f m h"
  "c < length h \<Longrightarrow> h ! c = KSc s \<Longrightarrow> mbind (mem_load ksc_t c) g h = g s h"
  "c < length h \<Longrightarrow> h ! c = KStrings xs \<Longrightarrow> mbind (mem_load kstrings_t c) k h = k xs h"
  by (simp_all add: mbind_def mem_load_def kcaps_t_def ksc_t_def kstrings_t_def)

lemma store_steps:
  "c < length h \<Longrightarrow> mem_store kcaps_t c m h = Some ((), h[c := KCaps m])"
  "c < length h \<Longrightarrow> mem_store ksc_t c s h = Some ((), h[c := KSc s])"
  "c < length h \<Longrightarrow> mbind (mem_store ksc_t c s) f h = f () (h[c := KSc s])"
  by (simp_all add: mem_store_def mbind_def kcaps_t_def ksc_t_def)

lemma mergeDrop_mem_says:
  assumes c: "c < length h" "h ! c = KCaps m" "leaf kstrings_t h (mcap_Add m) = Some (cap_Add vm)"
      "leaf kstrings_t h (mcap_Drop m) = Some (cap_Drop vm)"
    and d: "d < length h" "h ! d = KCaps e" "leaf kstrings_t h (mcap_Drop e) = Some (cap_Drop ve)"
  shows "\<exists>h'. mergeDrop_mem \<sigma> c d h = Some ((), h') \<and> steady h h' \<and> (\<forall>a < length h. a \<noteq> c \<longrightarrow> h' ! a = h ! a) \<and>
    caps_says h' (Some c) (Some (mergeDrop \<sigma> vm ve))"
proof (cases "mcap_Drop e")
  case None
  with c d show ?thesis
    by (intro exI [of _ h]) (auto simp: mergeDrop_mem_def mbind_def mem_load_def caps_says_def mergeDrop_def value_ref split: option.splits)
next
  case (Some t)
  with d(3) obtain ys where t: "t < length h" "h ! t = KStrings ys" "cap_Drop ve = Some ys"
    by (auto simp: leaf_strings)
  define m1 where "m1 = (if mcap_Drop m = None then m\<lparr>mcap_Drop := Some t\<rparr> else m)"
  define h1 where "h1 = (if mcap_Drop m = None then h[c := KCaps m1] else h)"
  have h1: "length h1 = length h" "h1 ! c = KCaps m1" "h1 ! d = KCaps (if c = d then m1 else e)" "steady h h1"
    "\<forall>a < length h. a \<noteq> c \<longrightarrow> h1 ! a = h ! a"
    using c d Some by (auto simp: h1_def m1_def leafy_def)
  have e1: "mcap_Drop (if c = d then m1 else e) = Some t"
    using c d Some by (auto simp: m1_def)
  obtain s xs where s: "mcap_Drop m1 = Some s" "s < length h" "h ! s = KStrings xs" "fill (cap_Drop vm) (cap_Drop ve) = Some xs"
  proof (cases "mcap_Drop m")
    case None
    with c(4) have "cap_Drop vm = None" by (simp add: value_ref)
    with None t Some that show ?thesis by (simp add: m1_def)
  next
    case (Some s)
    with c(4) t that show ?thesis by (auto simp: m1_def leaf_strings)
  qed
  have leaves: "h1 ! s = KStrings xs" "h1 ! t = KStrings ys"
    using h1(4) s t by (auto simp: steady_def leafy_def)
  define r where "r = (if xs @ ys = [] then None else Some (length h))"
  define h2 where "h2 = (if xs @ ys = [] then h1 else h1 @ [KStrings (collect_keys \<sigma> (xs @ ys))])"
  define h3 where "h3 = h2[c := KCaps (m1\<lparr>mcap_Drop := r\<rparr>)]"
  have h2: "steady h h2" "h2 ! c = KCaps m1" "c < length h2" "\<forall>a < length h. a \<noteq> c \<longrightarrow> h2 ! a = h ! a"
    "length h \<le> length h2"
    using h1 c(1) by (auto simp: h2_def nth_append intro: steady_new)
  have st: "steady h h3"
    using h2(1,2) by (auto simp: h3_def leafy_def intro: steady_trans)
  have filled: "mbind (if mcap_Drop m = None \<and> mcap_Drop e \<noteq> None then mem_store kcaps_t c (m\<lparr>mcap_Drop := mcap_Drop e\<rparr>)
      else mret ()) f h = f () h1" for f :: "unit \<Rightarrow> (kcell, unit) act"
    using c(1) Some by (simp add: h1_def m1_def store_steps mbind_def)
  have made: "mbind (case slices_Collect (collect_keys \<sigma> (xs @ ys)) of None \<Rightarrow> mret None
      | Some zs \<Rightarrow> mbind (mem_new kstrings_t zs) (\<lambda>z. mret (Some z))) f h1 = f r h2" for f :: "ref \<Rightarrow> (kcell, unit) act"
    using h1(1) by (auto simp: slices_Collect_def r_def h2_def mbind_def mem_new_def kstrings_t_def)
  have "mergeDrop_mem \<sigma> c d h = Some ((), h3)"
    unfolding mergeDrop_mem_def
    using c(1) d(1) s t(1) e1 h1(1-3) leaves h2(3)
    by (simp only: load_steps(1) [OF c(1,2)] load_steps(1) [OF d(1,2)] filled)
      (simp add: load_steps made store_steps h3_def)
  moreover have "caps_says h3 (Some c) (Some (mergeDrop \<sigma> vm ve))"
  proof -
    have "mcap_Add m1 = mcap_Add m" "h3 ! c = KCaps (m1\<lparr>mcap_Drop := r\<rparr>)" "c < length h3"
      using h2(3) by (simp_all add: m1_def h3_def)
    moreover have "leaf kstrings_t h3 (mcap_Add m) = Some (cap_Add vm)"
      by (rule leaves_steady(5) [OF c(3) st])
    moreover have "leaf kstrings_t h3 r = Some (slices_Collect (collect_keys \<sigma> (xs @ ys)))"
      using c(1) h1(1) by (auto simp: r_def h3_def h2_def slices_Collect_def value_ref value_plain kstrings_t_def nth_append)
    ultimately show ?thesis
      using s(4) t(3) by (simp add: caps_says_def mergeDrop_def)
  qed
  ultimately show ?thesis
    using st h2(4) by (auto simp: h3_def)
qed

text \<open>
  The capabilities of the merge: \<open>p\<close> those of the copied base, which only the copy reaches, \<open>q\<close>
  those of the extension and \<open>p0\<close> those of the base.
\<close>

lemma capabilities_merged:
  assumes p: "caps_says h p U" and q: "caps_says h q W" and p0: "caps_says h p0 U"
    and own: "\<And>c. p = Some c \<Longrightarrow> q \<noteq> Some c \<and> p0 \<noteq> Some c"
  shows "\<exists>h'. (case (fill p q, q) of (Some c, Some d) \<Rightarrow> mergeDrop_mem \<sigma> c d | _ \<Rightarrow> mret ()) h = Some ((), h') \<and> steady h h' \<and>
    (\<forall>a < length h. \<forall>s. h ! a = KSc s \<longrightarrow> h' ! a = KSc s) \<and> caps_says h' (fill p q) (mergeCapabilities \<sigma> U W) \<and>
    caps_says h' p0 U \<and> caps_says h' q (if U = None then mergeCapabilities \<sigma> None W else W)"
proof (cases q)
  case None
  with p q p0 show ?thesis
    by (intro exI [of _ h]) (auto simp: caps_says_def mergeCapabilities_def split: option.splits)
next
  case (Some d)
  with q obtain e we where d: "d < length h" "h ! d = KCaps e" "leaf kstrings_t h (mcap_Add e) = Some (cap_Add we)"
      "leaf kstrings_t h (mcap_Drop e) = Some (cap_Drop we)" "W = Some we"
    by (auto simp: caps_says_def)
  show ?thesis
  proof (cases p)
    case None
    with p have U: "U = None" by (simp add: caps_says_def)
    with p0 have "p0 = None" by (auto simp: caps_says_def split: option.splits)
    moreover obtain h' where h': "mergeDrop_mem \<sigma> d d h = Some ((), h')" "steady h h'" "\<forall>a < length h. a \<noteq> d \<longrightarrow> h' ! a = h ! a"
        "caps_says h' (Some d) (Some (mergeDrop \<sigma> we we))"
      using mergeDrop_mem_says [OF d(1-4) d(1,2,4)] by blast
    moreover have "\<forall>a < length h. \<forall>s. h ! a = KSc s \<longrightarrow> h' ! a = KSc s"
      using h'(3) d(2) by (metis kcell.distinct(41))
    ultimately show ?thesis
      using U d None Some by (auto simp: mergeCapabilities_def caps_says_def)
  next
    case (Some c)
    with p obtain m vm where c: "c < length h" "h ! c = KCaps m" "leaf kstrings_t h (mcap_Add m) = Some (cap_Add vm)"
        "leaf kstrings_t h (mcap_Drop m) = Some (cap_Drop vm)" "U = Some vm"
      by (auto simp: caps_says_def)
    obtain h' where h': "mergeDrop_mem \<sigma> c d h = Some ((), h')" "steady h h'" "\<forall>a < length h. a \<noteq> c \<longrightarrow> h' ! a = h ! a"
        "caps_says h' (Some c) (Some (mergeDrop \<sigma> vm we))"
      using mergeDrop_mem_says [OF c(1-4) d(1,2,4)] by blast
    have there: "r = Some a \<Longrightarrow> caps_says h r v \<Longrightarrow> a < length h" for r a v
      by (simp add: caps_says_def)
    have "caps_says h' p0 U" "caps_says h' q W"
      using h'(3) own [OF Some] by (auto intro!: caps_steady [OF p0 h'(2)] caps_steady [OF q h'(2)] dest: there [OF _ p0] there [OF _ q])
    with h' c d Some \<open>q = Some d\<close> show ?thesis
      by (auto simp: mergeCapabilities_def)
  qed
qed

text \<open>What the extension reads as afterwards: its own drop list, rebuilt, where the base had no capabilities.\<close>

definition extends_after :: "nat list \<Rightarrow> SecurityContext option \<Rightarrow> SecurityContext option \<Rightarrow> SecurityContext option" where
  "extends_after \<sigma> base extends = (case (base, extends) of
     (Some b, Some e) \<Rightarrow> Some (if sc_Capabilities b = None
       then e\<lparr>sc_Capabilities := mergeCapabilities \<sigma> None (sc_Capabilities e)\<rparr> else e)
   | _ \<Rightarrow> extends)"

text \<open>The structs of a readable context are among the cells it reaches.\<close>

lemma sc_reaches:
  assumes "read_ref ksc_t read_sc h (Some m) = Some (G, v)" "h ! m = KSc x"
  shows "m \<in> set G" "msc_Capabilities x = Some c \<Longrightarrow> c \<in> set G"
proof -
  from assms obtain F u where F: "read_sc h x = Some (F, u)" "G = m # F"
    by (auto simp: read_ref_def split: if_splits option.splits)
  then show "m \<in> set G" by simp
  from F show "msc_Capabilities x = Some c \<Longrightarrow> c \<in> set G"
    by (auto simp: read_sc_def read_fields_def read_both_def read_ref_def [of kcaps_t] split: option.splits if_splits)
qed

lemma mergeInto_mem_runs:
  assumes x: "m < length h" "h ! m = KSc x" and y: "d < length h" "h ! d = KSc y" and "d \<noteq> m"
    and vals: "sc_fields h x u" "sc_fields h y w"
    and caps: "caps_says h (msc_Capabilities x) U" "caps_says h (msc_Capabilities y) W" "caps_says h p0 U"
    and own: "\<And>c. msc_Capabilities x = Some c \<Longrightarrow> msc_Capabilities y \<noteq> Some c \<and> p0 \<noteq> Some c"
  shows "\<exists>z h'. mergeInto_mem \<sigma> m d h = Some ((), h') \<and> steady h h' \<and>
    (\<forall>a < length h. \<forall>s. a \<noteq> m \<longrightarrow> h ! a = KSc s \<longrightarrow> h' ! a = KSc s) \<and> h' ! m = KSc z \<and>
    sc_fields h' z (the (mergeContainerSecurityContexts \<sigma> (Some u) (Some w))) \<and>
    caps_says h' (msc_Capabilities z) (mergeCapabilities \<sigma> U W) \<and> caps_says h' p0 U \<and>
    caps_says h' (msc_Capabilities y) (if U = None then mergeCapabilities \<sigma> None W else W)"
proof -
  define x2 where "x2 = x\<lparr>msc_RunAsUser := fill (msc_RunAsUser x) (msc_RunAsUser y),
    msc_RunAsGroup := fill (msc_RunAsGroup x) (msc_RunAsGroup y),
    msc_Capabilities := fill (msc_Capabilities x) (msc_Capabilities y)\<rparr>"
  define x3 where "x3 = x2\<lparr>msc_Privileged := fill (msc_Privileged x2) (msc_Privileged y),
    msc_AllowPrivilegeEscalation := fill (msc_AllowPrivilegeEscalation x2) (msc_AllowPrivilegeEscalation y),
    msc_ReadOnlyRootFilesystem := fill (msc_ReadOnlyRootFilesystem x2) (msc_ReadOnlyRootFilesystem y),
    msc_SeccompProfile := fill (msc_SeccompProfile x2) (msc_SeccompProfile y),
    msc_SELinuxOptions := fill (msc_SELinuxOptions x2) (msc_SELinuxOptions y)\<rparr>"
  define h2 where "h2 = h[m := KSc x2]"
  have h2: "steady h h2" "m < length h2" "h2 ! m = KSc x2" "d < length h2" "h2 ! d = KSc y"
    using x y \<open>d \<noteq> m\<close> by (auto simp: h2_def leafy_def)
  note caps2 = caps [THEN caps_store, OF x(2), of x2, folded h2_def]
  obtain h3 where block: "(case (fill (msc_Capabilities x) (msc_Capabilities y), msc_Capabilities y) of
        (Some c, Some d) \<Rightarrow> mergeDrop_mem \<sigma> c d | _ \<Rightarrow> mret ()) h2 = Some ((), h3)"
    and h3: "steady h2 h3" "\<forall>a < length h2. \<forall>s. h2 ! a = KSc s \<longrightarrow> h3 ! a = KSc s"
      "caps_says h3 (fill (msc_Capabilities x) (msc_Capabilities y)) (mergeCapabilities \<sigma> U W)"
      "caps_says h3 p0 U" "caps_says h3 (msc_Capabilities y) (if U = None then mergeCapabilities \<sigma> None W else W)"
    using capabilities_merged [OF caps2 own] by blast
  have at3: "h3 ! m = KSc x2" "h3 ! d = KSc y" "m < length h3" "d < length h3"
    using h2 h3(1,2) by (auto simp: steady_def)
  define h4 where "h4 = h3[m := KSc x3]"
  have step: "mbind (case (msc_Capabilities x2, msc_Capabilities y) of (Some c, Some d) \<Rightarrow> mergeDrop_mem \<sigma> c d | _ \<Rightarrow> mret ()) f h2 = f () h3"
    for f :: "unit \<Rightarrow> (kcell, unit) act"
    using block by (simp add: mbind_def x2_def)
  have run: "mergeInto_mem \<sigma> m d h = Some ((), h4)"
    unfolding mergeInto_mem_def load_steps(2) [OF x] load_steps(2) [OF y] x2_def [symmetric]
      store_steps(3) [OF x(1), of x2, folded h2_def] load_steps(2) [OF h2(2,3)] load_steps(2) [OF h2(4,5)] step
      load_steps(2) [OF at3(3,1)] load_steps(2) [OF at3(4,2)] x3_def [symmetric] h4_def
    by (rule store_steps(2) [OF at3(3)])
  have "steady h3 h4" using at3(1) by (simp add: h4_def leafy_def)
  then have st: "steady h h4"
    using h2(1) h3(1) by (blast intro: steady_trans)
  have caps4: "caps_says h3 p v \<Longrightarrow> caps_says h4 p v" for p v
    unfolding h4_def using at3(1) by (rule caps_store [rotated])
  have "sc_fields h4 x3 (the (mergeContainerSecurityContexts \<sigma> (Some u) (Some w)))"
    using vals [THEN fields_steady, OF st]
    by (simp add: sc_fields_def x3_def x2_def mergeContainerSecurityContexts_def leaf_fill)
  moreover have "\<forall>a < length h. \<forall>s. a \<noteq> m \<longrightarrow> h ! a = KSc s \<longrightarrow> h4 ! a = KSc s"
    using h3(2) by (simp add: h4_def h2_def)
  moreover have "h4 ! m = KSc x3" "msc_Capabilities x3 = fill (msc_Capabilities x) (msc_Capabilities y)"
    using at3(3) by (simp_all add: h4_def x3_def x2_def)
  ultimately show ?thesis
    using run st caps4 [OF h3(3)] caps4 [OF h3(4)] caps4 [OF h3(5)] by (intro exI [of _ x3] exI [of _ h4]) simp
qed

text \<open>C11: The merge on memory never faults. The context it returns reads as the value function says,
  the base reads as before, and so does the extension, except that its drop list is the rebuilt
  one where the base had no capabilities and shares the extension's.\<close>

theorem mergeContainer_mem_refines:
  assumes dc: "deep_copier dc (read_ref ksc_t read_sc)" and b: "sc_value h base = Some vb" and e: "sc_value h extends = Some ve"
  shows "\<exists>r h'. mergeContainer_mem \<sigma> dc base extends h = Some (r, h') \<and>
    sc_value h' r = Some (mergeContainerSecurityContexts \<sigma> vb ve) \<and>
    sc_value h' base = Some vb \<and> sc_value h' extends = Some (extends_after \<sigma> vb ve)"
proof (cases "base = None \<or> extends = None")
  case True
  with b e show ?thesis
    by (auto simp: mergeContainer_mem_def mergeContainerSecurityContexts_def extends_after_def value_sc split: option.splits)
next
  case False
  then obtain a d where ptrs: "base = Some a" "extends = Some d" by auto
  obtain F where F: "read_ref ksc_t read_sc h base = Some (F, vb)"
    using b by (auto simp: sc_value_def value_read_def)
  obtain E where E: "read_ref ksc_t read_sc h extends = Some (E, ve)"
    using e by (auto simp: sc_value_def value_read_def)
  obtain r h1 G where c: "dc base h = Some (r, h1)" "grows h h1" "read_ref ksc_t read_sc h1 r = Some (G, vb)"
      "\<forall>a \<in> set G. length h \<le> a"
    using deep_copier.copies [OF dc F] by blast
  note old = deep_copier.reaches [OF dc F] deep_copier.reaches [OF dc E]
  have F1: "read_ref ksc_t read_sc h1 base = Some (F, vb)" and E1: "read_ref ksc_t read_sc h1 extends = Some (E, ve)"
    using F E c(2) by (auto intro: deep_copier.frame_grows [OF dc])
  obtain s u where s: "a < length h1" "h1 ! a = KSc s" "vb = Some u" "sc_fields h1 s u" "caps_says h1 (msc_Capabilities s) (sc_Capabilities u)"
    using F1 value_sc [of h1 base vb] ptrs by (auto simp: sc_value_def value_read_def)
  obtain y w where y: "d < length h1" "h1 ! d = KSc y" "ve = Some w" "sc_fields h1 y w" "caps_says h1 (msc_Capabilities y) (sc_Capabilities w)"
    using E1 value_sc [of h1 extends ve] ptrs by (auto simp: sc_value_def value_read_def)
  obtain m x where x: "r = Some m" "m < length h1" "h1 ! m = KSc x" "sc_fields h1 x u" "caps_says h1 (msc_Capabilities x) (sc_Capabilities u)"
    using c(3) value_sc [of h1 r vb] s(3) by (auto simp: sc_value_def value_read_def split: option.splits)
  note in_G = sc_reaches [OF c(3) [unfolded x(1)] x(3)] and in_F = sc_reaches [OF F1 [unfolded ptrs] s(2)]
    and in_E = sc_reaches [OF E1 [unfolded ptrs] y(2)]
  have apart: "m \<noteq> a" "d \<noteq> m" and own: "msc_Capabilities x = Some k \<Longrightarrow> msc_Capabilities y \<noteq> Some k \<and> msc_Capabilities s \<noteq> Some k" for k
    using in_G in_F in_E c(4) old by (metis leD)+
  obtain z h4 where h4: "mergeInto_mem \<sigma> m d h1 = Some ((), h4)" "steady h1 h4"
      "\<forall>a < length h1. \<forall>s. a \<noteq> m \<longrightarrow> h1 ! a = KSc s \<longrightarrow> h4 ! a = KSc s" "h4 ! m = KSc z"
      "sc_fields h4 z (the (mergeContainerSecurityContexts \<sigma> (Some u) (Some w)))"
      "caps_says h4 (msc_Capabilities z) (mergeCapabilities \<sigma> (sc_Capabilities u) (sc_Capabilities w))"
      "caps_says h4 (msc_Capabilities s) (sc_Capabilities u)"
      "caps_says h4 (msc_Capabilities y) (if sc_Capabilities u = None then mergeCapabilities \<sigma> None (sc_Capabilities w) else sc_Capabilities w)"
    using mergeInto_mem_runs [OF x(2,3) y(1,2) apart(2) x(4) y(4) x(5) y(5) s(5) own] by blast
  have "mergeContainer_mem \<sigma> dc base extends h = Some (Some m, h4)"
    using ptrs c(1) x(1) h4(1) by (simp add: mergeContainer_mem_def mbind_def)
  moreover have "sc_value h4 (Some m) = Some (mergeContainerSecurityContexts \<sigma> vb ve)"
    using h4(4-6) steady_length [OF h4(2) x(2)] s(3) y(3) by (simp add: value_sc mergeContainerSecurityContexts_def)
  moreover have "sc_value h4 base = Some vb"
    using ptrs s h4(3,7) apart steady_length [OF h4(2) s(1)] fields_steady [OF s(4) h4(2)] by (auto simp: value_sc)
  moreover have "sc_value h4 extends = Some (extends_after \<sigma> vb ve)"
    using ptrs s(3) y h4(3,8) apart steady_length [OF h4(2) y(1)] fields_steady [OF y(4) h4(2)]
    by (auto simp: value_sc extends_after_def sc_fields_def)
  ultimately show ?thesis by blast
qed

text \<open>
  A deep copy of the struct, and a base without capabilities merged with an extension that drops a
  capability twice: the extension's list comes out without the duplicate.
\<close>

definition caps_DeepCopyInto :: "Capabilities_mem \<Rightarrow> (kcell, Capabilities_mem) act" where
  "caps_DeepCopyInto i = mbind (DeepCopy_ref kstrings_t mret (mcap_Add i)) (\<lambda>a.
     mbind (DeepCopy_ref kstrings_t mret (mcap_Drop i)) (\<lambda>b. mret (i\<lparr>mcap_Add := a, mcap_Drop := b\<rparr>)))"

definition sc_DeepCopyInto :: "SecurityContext_mem \<Rightarrow> (kcell, SecurityContext_mem) act" where
  "sc_DeepCopyInto i =
     mbind (DeepCopy_ref kint64_t mret (msc_RunAsUser i)) (\<lambda>a. mbind (DeepCopy_ref kint64_t mret (msc_RunAsGroup i)) (\<lambda>b.
     mbind (DeepCopy_ref kbool_t mret (msc_RunAsNonRoot i)) (\<lambda>c.
     mbind (DeepCopy_ref kcaps_t caps_DeepCopyInto (msc_Capabilities i)) (\<lambda>d.
     mbind (DeepCopy_ref kbool_t mret (msc_Privileged i)) (\<lambda>e.
     mbind (DeepCopy_ref kbool_t mret (msc_AllowPrivilegeEscalation i)) (\<lambda>f.
     mbind (DeepCopy_ref kbool_t mret (msc_ReadOnlyRootFilesystem i)) (\<lambda>g.
     mbind (DeepCopy_ref kseccomp_t mret (msc_SeccompProfile i)) (\<lambda>h.
     mbind (DeepCopy_ref kstring_t mret (msc_SELinuxOptions i)) (\<lambda>k.
     mret (i\<lparr>msc_RunAsUser := a, msc_RunAsGroup := b, msc_RunAsNonRoot := c, msc_Capabilities := d, msc_Privileged := e,
       msc_AllowPrivilegeEscalation := f, msc_ReadOnlyRootFilesystem := g, msc_SeccompProfile := h,
       msc_SELinuxOptions := k\<rparr>))))))))))"

lemma kheld [simp]: "go_held kbool_t" "go_held kint64_t" "go_held kstring_t" "go_held kseccomp_t" "go_held kstrings_t"
  "go_held kcaps_t" "go_held ksc_t"
  by (simp_all add: go_held_def kbool_t_def kint64_t_def kstring_t_def kseccomp_t_def kstrings_t_def kcaps_t_def ksc_t_def
      del: proj_caps proj_sc)

lemma caps_copier: "deep_copier caps_DeepCopyInto read_caps"
  unfolding read_caps_def
  by (rule fields_copier [where filled = "\<lambda>i (a, b). i\<lparr>mcap_Add := a, mcap_Drop := b\<rparr>"], (rule copiers kheld)+)
    (auto simp: caps_DeepCopyInto_def DeepCopy_both_pair simp del: mret_apply)

interpretation sc_copy: deep_copier "DeepCopy_ref ksc_t sc_DeepCopyInto" "read_ref ksc_t read_sc"
proof -
  have "deep_copier sc_DeepCopyInto read_sc"
    unfolding read_sc_def
    by (rule fields_copier [where filled = "\<lambda>i (a, b, c, d, e, f, g, h, k, l). i\<lparr>msc_RunAsUser := a, msc_RunAsGroup := b,
        msc_RunAsNonRoot := c, msc_Capabilities := d, msc_Privileged := e, msc_AllowPrivilegeEscalation := f,
        msc_ReadOnlyRootFilesystem := g, msc_SeccompProfile := h, msc_SELinuxOptions := k, msc_others := l\<rparr>"],
        (rule copiers kheld caps_copier)+) (auto simp: sc_DeepCopyInto_def DeepCopy_both_pair simp del: mret_apply)
  then show "deep_copier (DeepCopy_ref ksc_t sc_DeepCopyInto) (read_ref ksc_t read_sc)"
    by (rule ref_copier [OF kheld(7)])
qed

definition nil_sc :: SecurityContext_mem where
  "nil_sc = \<lparr>msc_RunAsUser = None, msc_RunAsGroup = None, msc_RunAsNonRoot = None, msc_Capabilities = None,
     msc_Privileged = None, msc_AllowPrivilegeEscalation = None, msc_ReadOnlyRootFilesystem = None,
     msc_SeccompProfile = None, msc_SELinuxOptions = None, msc_others = ''''\<rparr>"

definition merge_mem :: "kcell mem" where
  "merge_mem = [KStrings [''ALL'', ''NET_RAW'', ''ALL''], KCaps \<lparr>mcap_Add = None, mcap_Drop = Some 0\<rparr>,
     KSc (nil_sc\<lparr>msc_Capabilities := Some 1\<rparr>), KBool True, KSc (nil_sc\<lparr>msc_RunAsNonRoot := Some 3\<rparr>)]"

definition merge_extension :: "string list \<Rightarrow> SecurityContext" where
  "merge_extension names = empty_sc\<lparr>sc_Capabilities := Some \<lparr>cap_Add = None, cap_Drop = Some names\<rparr>\<rparr>"

theorem mergeContainer_mem_refines_witness:
  "\<exists>r h'. mergeContainer_mem [] (DeepCopy_ref ksc_t sc_DeepCopyInto) (Some 4) (Some 2) merge_mem = Some (r, h') \<and>
    sc_value h' r = Some (mergeContainerSecurityContexts [] (Some (empty_sc\<lparr>sc_RunAsNonRoot := Some True\<rparr>))
      (Some (merge_extension [''ALL'', ''NET_RAW'', ''ALL'']))) \<and>
    sc_value h' (Some 2) = Some (extends_after [] (Some (empty_sc\<lparr>sc_RunAsNonRoot := Some True\<rparr>))
      (Some (merge_extension [''ALL'', ''NET_RAW'', ''ALL''])))"
proof -
  have "sc_value merge_mem (Some 4) = Some (Some (empty_sc\<lparr>sc_RunAsNonRoot := Some True\<rparr>))"
    "sc_value merge_mem (Some 2) = Some (Some (merge_extension [''ALL'', ''NET_RAW'', ''ALL'']))"
    by code_simp+
  from mergeContainer_mem_refines [OF sc_copy.deep_copier_axioms this, of "[]"] show ?thesis
    by blast
qed

end
